theory Spec2Isabelle
  imports Main "HOL-Library.Word"
begin

unbundle bit_operations_syntax

section \<open>Machine types, status codes and header constants\<close>

text \<open>
  The driver is built for 64-bit Windows: \<open>ULONG\<close>, \<open>LONG\<close>, \<open>UINT32\<close>, \<open>INT\<close> and
  \<open>NTSTATUS\<close> are 32-bit words, \<open>USHORT\<close> is 16 bits, \<open>SIZE_T\<close> and \<open>ULONG64\<close> are
  64 bits. Addition on them wraps around, as in C. The host is little-endian, so the
  32-bit value the code reads from four address bytes has the first byte of the
  address in its lowest eight bits.
\<close>

type_synonym USHORT = "16 word"
type_synonym ULONG = "32 word"
type_synonym UINT32 = "32 word"
type_synonym ULONG64 = "64 word"
type_synonym SIZE_T = "64 word"
type_synonym NTSTATUS = "32 word"
type_synonym ADDRESS_FAMILY = "16 word"

text \<open>\<open>NT_SUCCESS(Status)\<close> is \<open>((NTSTATUS)(Status)) >= 0\<close> on the signed 32-bit value.\<close>

definition NT_SUCCESS :: "NTSTATUS \<Rightarrow> bool" where
  "NT_SUCCESS Status \<longleftrightarrow> 0 \<le> sint Status"

definition STATUS_SUCCESS :: NTSTATUS where
  "STATUS_SUCCESS = 0x00000000"

definition STATUS_ALREADY_COMPLETE :: NTSTATUS where
  "STATUS_ALREADY_COMPLETE = 0x000000FF"

definition STATUS_INVALID_PARAMETER :: NTSTATUS where
  "STATUS_INVALID_PARAMETER = 0xC000000D"

definition STATUS_INSUFFICIENT_RESOURCES :: NTSTATUS where
  "STATUS_INSUFFICIENT_RESOURCES = 0xC000009A"

definition STATUS_BAD_NETWORK_PATH :: NTSTATUS where
  "STATUS_BAD_NETWORK_PATH = 0xC00000BE"

definition STATUS_INVALID_ADDRESS :: NTSTATUS where
  "STATUS_INVALID_ADDRESS = 0xC0000141"

definition STATUS_NETWORK_UNREACHABLE :: NTSTATUS where
  "STATUS_NETWORK_UNREACHABLE = 0xC000023C"


definition AF_INET :: ADDRESS_FAMILY where
  "AF_INET = 2"

definition AF_INET6 :: ADDRESS_FAMILY where
  "AF_INET6 = 23"

definition IPPROTO_IP :: "32 word" where
  "IPPROTO_IP = 0"

definition IPPROTO_IPV6 :: "32 word" where
  "IPPROTO_IPV6 = 41"

definition IP_PKTINFO :: "32 word" where
  "IP_PKTINFO = 19"

definition IPV6_PKTINFO :: "32 word" where
  "IPV6_PKTINFO = 19"

text \<open>
  \<open>Htonl\<close> is a macro of the driver's own headers, which are not among the sources: on
  the little-endian host it swaps the four bytes of a 32-bit value.
\<close>

definition Htonl :: "UINT32 \<Rightarrow> UINT32" where
  "Htonl x = push_bit 24 (take_bit 8 x) OR push_bit 16 (take_bit 8 (drop_bit 8 x))
     OR push_bit 8 (take_bit 8 (drop_bit 16 x)) OR take_bit 8 (drop_bit 24 x)"

text \<open>Where bit \<open>n\<close> of a byte-swapped value comes from.\<close>

definition bswap_idx :: "nat \<Rightarrow> nat" where
  "bswap_idx n = (if n < 8 then n + 24 else if n < 16 then n + 8
                  else if n < 24 then n - 8 else n - 24)"

section \<open>Addresses\<close>

text \<open>
  \<open>IN6_ADDR\<close> is sixteen bytes. The code reads it through \<open>UINT32 *\<close> and \<open>UINT64 *\<close>
  casts, so it is kept as the four 32-bit values those casts read.
\<close>

record IN6_ADDR =
  Dword0 :: UINT32
  Dword1 :: UINT32
  Dword2 :: UINT32
  Dword3 :: UINT32

text \<open>\<open>((UINT32 *)Addr)[i]\<close>, for \<open>i < 4\<close>.\<close>

definition In6Dword :: "IN6_ADDR \<Rightarrow> nat \<Rightarrow> UINT32" where
  "In6Dword a i = (if i = 0 then Dword0 a else if i = 1 then Dword1 a
                   else if i = 2 then Dword2 a else Dword3 a)"

text \<open>\<open>((UINT64 *)Addr)[i]\<close>, for \<open>i < 2\<close>: two consecutive 32-bit values, the first one low.\<close>

definition In6Qword :: "IN6_ADDR \<Rightarrow> nat \<Rightarrow> ULONG64" where
  "In6Qword a i = (if i = 0 then push_bit 32 (ucast (Dword1 a)) OR ucast (Dword0 a)
                   else push_bit 32 (ucast (Dword3 a)) OR ucast (Dword2 a))"

definition zero_IN6_ADDR :: IN6_ADDR where
  "zero_IN6_ADDR = \<lparr>Dword0 = 0, Dword1 = 0, Dword2 = 0, Dword3 = 0\<rparr>"

text \<open>
  \<open>SOCKADDR_INET\<close> is a union of \<open>SOCKADDR_IN\<close> (16 bytes), \<open>SOCKADDR_IN6\<close> (28 bytes)
  and the family field \<open>si_family\<close>. The record holds the storage in the layout of its
  largest member; the IPv4 member is a view of the same bytes: \<open>sin_family\<close> and
  \<open>sin_port\<close> share their bytes with \<open>sin6_family\<close> and \<open>sin6_port\<close>, \<open>sin_addr\<close> with
  \<open>sin6_flowinfo\<close>, and \<open>sin_zero\<close> with the first eight bytes of \<open>sin6_addr\<close>.
\<close>

record SOCKADDR_INET =
  si_family :: ADDRESS_FAMILY
  sin6_port :: USHORT
  sin6_flowinfo :: ULONG
  sin6_addr :: IN6_ADDR
  sin6_scope_id :: ULONG

record SOCKADDR_IN =
  sin_family :: ADDRESS_FAMILY
  sin_port :: USHORT
  sin_addr :: UINT32
  sin_zero_lo :: UINT32
  sin_zero_hi :: UINT32

definition Ipv4 :: "SOCKADDR_INET \<Rightarrow> SOCKADDR_IN" where
  "Ipv4 a = \<lparr>sin_family = si_family a, sin_port = sin6_port a, sin_addr = sin6_flowinfo a,
             sin_zero_lo = Dword0 (sin6_addr a), sin_zero_hi = Dword1 (sin6_addr a)\<rparr>"

text \<open>The assignment \<open>a.Ipv4 = v\<close>: sixteen bytes are written, the other twelve stay.\<close>

definition Ipv4_assign :: "SOCKADDR_IN \<Rightarrow> SOCKADDR_INET \<Rightarrow> SOCKADDR_INET" where
  "Ipv4_assign v a = a\<lparr>si_family := sin_family v, sin6_port := sin_port v,
     sin6_flowinfo := sin_addr v,
     sin6_addr := (sin6_addr a)\<lparr>Dword0 := sin_zero_lo v, Dword1 := sin_zero_hi v\<rparr>\<rparr>"

definition zero_SOCKADDR_INET :: SOCKADDR_INET where
  "zero_SOCKADDR_INET = \<lparr>si_family = 0, sin6_port = 0, sin6_flowinfo = 0,
     sin6_addr = zero_IN6_ADDR, sin6_scope_id = 0\<rparr>"

record IP_ADDRESS_PREFIX =
  Prefix :: SOCKADDR_INET
  PrefixLength :: nat

section \<open>CIDR matching\<close>

text \<open>
  \<open>PrefixLength\<close> is a \<open>UINT8\<close>; no arithmetic on it overflows, so it is a natural
  number here. In \<open>CidrMaskMatchV4\<close> the shift count \<open>32 - PrefixLength\<close> is negative for
  a length above 32, which C leaves undefined: the model has no result there (\<open>None\<close>).
\<close>

definition CidrMaskMatchV4 :: "UINT32 \<Rightarrow> IP_ADDRESS_PREFIX \<Rightarrow> bool option" where
  "CidrMaskMatchV4 Addr P =
     (if PrefixLength P = 0 then Some True
      else if 32 < PrefixLength P then None
      else Some ((Addr AND Htonl (push_bit (32 - PrefixLength P) (- 1)))
                  = sin_addr (Ipv4 (Prefix P))))"

text \<open>\<open>RtlEqualMemory(a, b, n * sizeof(UINT32))\<close> on two \<open>IN6_ADDR\<close>, for \<open>n \<le> 4\<close>.\<close>

definition RtlEqualMemory32 :: "IN6_ADDR \<Rightarrow> IN6_ADDR \<Rightarrow> nat \<Rightarrow> bool" where
  "RtlEqualMemory32 a b n = (map (In6Dword a) [0..<n] = map (In6Dword b) [0..<n])"

text \<open>
  With more than four whole parts (a length of 160 or more) \<open>RtlEqualMemory\<close> would
  read past the sixteen bytes of the address: no result.
\<close>

definition CidrMaskMatchV6 :: "IN6_ADDR \<Rightarrow> IP_ADDRESS_PREFIX \<Rightarrow> bool option" where
  "CidrMaskMatchV6 Addr P =
     (if PrefixLength P = 0 then Some True
      else let WholeParts = PrefixLength P div 32; LeftoverBits = PrefixLength P mod 32 in
        if 4 < WholeParts then None
        else if \<not> RtlEqualMemory32 (sin6_addr (Prefix P)) Addr WholeParts then Some False
        else if WholeParts = 4 \<or> LeftoverBits = 0 then Some True
        else Some ((In6Dword Addr WholeParts AND Htonl (push_bit (32 - LeftoverBits) (- 1)))
                    = In6Dword (sin6_addr (Prefix P)) WholeParts))"

subsection \<open>The reference definition of the specification\<close>

text \<open>
  The specification's words: \<open>mask(0) = 0\<close>, \<open>mask(L>0) = ~((1<<(W-L))-1)\<close> over the
  word width \<open>W\<close>, and \<open>CidrMatch(A, P) = ((A & mask(L)) = (P.addr & mask(L)))\<close>. The
  addresses are the numbers the address bytes denote in network order.
\<close>

definition mask_spec :: "nat \<Rightarrow> 'a::len word" where
  "mask_spec L = (if L = 0 then 0 else NOT (push_bit (LENGTH('a) - L) 1 - 1))"

definition CidrMatch_spec :: "'a::len word \<Rightarrow> 'a word \<Rightarrow> nat \<Rightarrow> bool" where
  "CidrMatch_spec A P L \<longleftrightarrow> (A AND mask_spec L) = (P AND mask_spec L)"

definition ipv4_value :: "UINT32 \<Rightarrow> 32 word" where
  "ipv4_value a = Htonl a"

definition ipv6_value :: "IN6_ADDR \<Rightarrow> 128 word" where
  "ipv6_value a = push_bit 96 (ucast (Htonl (Dword0 a))) OR push_bit 64 (ucast (Htonl (Dword1 a)))
      OR push_bit 32 (ucast (Htonl (Dword2 a))) OR ucast (Htonl (Dword3 a))"

text \<open>A prefix is canonical when its address has no bit set beyond the prefix length.\<close>

definition canonical_v4 :: "IP_ADDRESS_PREFIX \<Rightarrow> bool" where
  "canonical_v4 P \<longleftrightarrow>
     ipv4_value (sin_addr (Ipv4 (Prefix P))) AND mask_spec (PrefixLength P)
       = ipv4_value (sin_addr (Ipv4 (Prefix P)))"

definition canonical_v6 :: "IP_ADDRESS_PREFIX \<Rightarrow> bool" where
  "canonical_v6 P \<longleftrightarrow>
     ipv6_value (sin6_addr (Prefix P)) AND mask_spec (PrefixLength P)
       = ipv6_value (sin6_addr (Prefix P))"

text \<open>The prefix 10.0.0.1/8 and the address 10.0.0.0, as the little-endian host holds them.\<close>

definition prefix_10_0_0_1_slash_8 :: IP_ADDRESS_PREFIX where
  "prefix_10_0_0_1_slash_8 =
     \<lparr>Prefix = zero_SOCKADDR_INET\<lparr>si_family := AF_INET, sin6_flowinfo := 0x0100000A\<rparr>,
      PrefixLength = 8\<rparr>"

definition addr_10_0_0_0 :: UINT32 where
  "addr_10_0_0_0 = 0x0000000A"

text \<open>The prefix 2001:db8::/32 and the address 2001:db8::1.\<close>

definition prefix_2001_db8_slash_32 :: IP_ADDRESS_PREFIX where
  "prefix_2001_db8_slash_32 =
     \<lparr>Prefix = zero_SOCKADDR_INET\<lparr>si_family := AF_INET6,
        sin6_addr := zero_IN6_ADDR\<lparr>Dword0 := 0xB80D0120\<rparr>\<rparr>,
      PrefixLength = 32\<rparr>"

definition addr_2001_db8_1 :: IN6_ADDR where
  "addr_2001_db8_1 = zero_IN6_ADDR\<lparr>Dword0 := 0xB80D0120, Dword3 := 0x01000000\<rparr>"

section \<open>Endpoints\<close>

text \<open>
  Modelled from the spec: the \<open>ENDPOINT\<close> structure is declared in the driver's peer
  header, which is not among the sources. It holds the remote address, the
  pre-formatted ancillary-data header, the source pkt-info, \<open>RoutingGeneration\<close> and
  \<open>UpdateGeneration\<close>. The IPv4 and the IPv6 source pkt-info share their storage (the
  one of IPv6 size covers the IPv4 one): the record holds the storage as an
  \<open>IN6_PKTINFO\<close>, and \<open>Src4\<close> is a view of its first eight bytes.
\<close>

record WSACMSGHDR =
  cmsg_len :: SIZE_T
  cmsg_level :: "32 word"
  cmsg_type :: "32 word"

record IN_PKTINFO =
  ipi_addr :: UINT32
  ipi_ifindex :: ULONG

record IN6_PKTINFO =
  ipi6_addr :: IN6_ADDR
  ipi6_ifindex :: ULONG

record ENDPOINT =
  Addr :: SOCKADDR_INET
  SrcCmsghdr :: WSACMSGHDR
  Src6 :: IN6_PKTINFO
  RoutingGeneration :: UINT32
  UpdateGeneration :: UINT32

definition Src4 :: "ENDPOINT \<Rightarrow> IN_PKTINFO" where
  "Src4 e = \<lparr>ipi_addr = Dword0 (ipi6_addr (Src6 e)), ipi_ifindex = Dword1 (ipi6_addr (Src6 e))\<rparr>"

text \<open>The assignment \<open>e.Src4 = v\<close>: eight bytes are written, the other twelve stay.\<close>

definition Src4_assign :: "IN_PKTINFO \<Rightarrow> ENDPOINT \<Rightarrow> ENDPOINT" where
  "Src4_assign v e = e\<lparr>Src6 := (Src6 e)\<lparr>ipi6_addr :=
     (ipi6_addr (Src6 e))\<lparr>Dword0 := ipi_addr v, Dword1 := ipi_ifindex v\<rparr>\<rparr>\<rparr>"

definition zero_IN6_PKTINFO :: IN6_PKTINFO where
  "zero_IN6_PKTINFO = \<lparr>ipi6_addr = zero_IN6_ADDR, ipi6_ifindex = 0\<rparr>"

text \<open>\<open>RtlZeroMemory(Endpoint, sizeof(*Endpoint))\<close>: whatever the structure held is gone.\<close>

definition RtlZeroMemory_ENDPOINT :: "ENDPOINT \<Rightarrow> ENDPOINT" where
  "RtlZeroMemory_ENDPOINT e = \<lparr>Addr = zero_SOCKADDR_INET,
     SrcCmsghdr = \<lparr>cmsg_len = 0, cmsg_level = 0, cmsg_type = 0\<rparr>,
     Src6 = zero_IN6_PKTINFO, RoutingGeneration = 0, UpdateGeneration = 0\<rparr>"

text \<open>
  The alignment macros of the platform headers on a 64-bit build: the header is 16
  bytes and both alignments are 8. \<open>sizeof(IN_PKTINFO)\<close> is 8 and
  \<open>sizeof(IN6_PKTINFO)\<close> is 20.
\<close>

definition WSA_CMSGHDR_ALIGN :: "SIZE_T \<Rightarrow> SIZE_T" where
  "WSA_CMSGHDR_ALIGN n = (n + 7) AND NOT 7"

definition WSA_CMSGDATA_ALIGN :: "SIZE_T \<Rightarrow> SIZE_T" where
  "WSA_CMSGDATA_ALIGN n = (n + 7) AND NOT 7"

definition WSA_CMSG_LEN :: "SIZE_T \<Rightarrow> SIZE_T" where
  "WSA_CMSG_LEN n = WSA_CMSGDATA_ALIGN 16 + n"

definition sizeof_IN_PKTINFO :: SIZE_T where
  "sizeof_IN_PKTINFO = 8"

definition sizeof_IN6_PKTINFO :: SIZE_T where
  "sizeof_IN6_PKTINFO = 20"

subsection \<open>Endpoint equality\<close>

definition Ipv6AddrEq :: "IN6_ADDR \<Rightarrow> IN6_ADDR \<Rightarrow> bool" where
  "Ipv6AddrEq A1 A2 \<longleftrightarrow>
     ((In6Qword A1 0 XOR In6Qword A2 0) OR (In6Qword A1 1 XOR In6Qword A2 1)) = 0"

definition EndpointEq :: "ENDPOINT \<Rightarrow> ENDPOINT \<Rightarrow> bool" where
  "EndpointEq A B \<longleftrightarrow>
     (si_family (Addr A) = AF_INET \<and> si_family (Addr B) = AF_INET \<and>
      sin_port (Ipv4 (Addr A)) = sin_port (Ipv4 (Addr B)) \<and>
      sin_addr (Ipv4 (Addr A)) = sin_addr (Ipv4 (Addr B)) \<and>
      ipi_addr (Src4 A) = ipi_addr (Src4 B) \<and> ipi_ifindex (Src4 A) = ipi_ifindex (Src4 B)) \<or>
     (si_family (Addr A) = AF_INET6 \<and> si_family (Addr B) = AF_INET6 \<and>
      sin6_port (Addr A) = sin6_port (Addr B) \<and>
      Ipv6AddrEq (sin6_addr (Addr A)) (sin6_addr (Addr B)) \<and>
      sin6_scope_id (Addr A) = sin6_scope_id (Addr B) \<and>
      Ipv6AddrEq (ipi6_addr (Src6 A)) (ipi6_addr (Src6 B)) \<and>
      ipi6_ifindex (Src6 A) = ipi6_ifindex (Src6 B)) \<or>
     (si_family (Addr A) = 0 \<and> si_family (Addr B) = 0)"

section \<open>The operating system, the trace and the state\<close>

datatype IF_OPER_STATUS =
    IfOperStatusUp | IfOperStatusDown | IfOperStatusTesting | IfOperStatusUnknown
  | IfOperStatusDormant | IfOperStatusNotPresent | IfOperStatusLowerLayerDown

record MIB_IPFORWARD_ROW2 =
  InterfaceLuid :: ULONG64
  InterfaceIndex :: ULONG
  DestinationPrefix :: IP_ADDRESS_PREFIX
  Metric :: ULONG

text \<open>
  The routing interface of the operating system, as the answers it gives during one
  call of the resolver: the forwarding table of a family (a status and the rows), the
  operational status of an interface, the metric of an interface for a family, the
  source address of the best route through an interface, and whether the allocations
  succeed.
\<close>

record OS =
  GetIpForwardTable2 :: "ADDRESS_FAMILY \<Rightarrow> NTSTATUS \<times> MIB_IPFORWARD_ROW2 list"
  GetIfEntry2 :: "ULONG64 \<Rightarrow> NTSTATUS \<times> IF_OPER_STATUS"
  GetIpInterfaceEntry :: "ADDRESS_FAMILY \<Rightarrow> ULONG64 \<Rightarrow> NTSTATUS \<times> ULONG"
  GetBestRoute2 :: "ULONG \<Rightarrow> SOCKADDR_INET \<Rightarrow> NTSTATUS \<times> SOCKADDR_INET"
  MemAllocate :: bool
  ExAllocateFromLookasideListEx :: bool

text \<open>
  A packet buffer carries its data length and the memory descriptor the data starts in;
  a \<open>NET_BUFFER_LIST\<close> is the chain of its \<open>NET_BUFFER\<close>s, and the chain handed to the
  send path is a list of those. A null \<open>First\<close> is the empty list.
\<close>

record NET_BUFFER =
  DataLength :: ULONG
  CurrentMdl :: nat
  CurrentMdlOffset :: ULONG

type_synonym NET_BUFFER_LIST = "NET_BUFFER list"

record WSK_BUF =
  Mdl :: nat
  Offset :: ULONG
  Length :: SIZE_T

text \<open>
  \<open>SOCKET_SEND_CTX\<close>: the endpoint copy, either the chain or the owned buffer, and the
  discriminator.
\<close>

record SOCKET_SEND_CTX =
  Ctx_Endpoint :: ENDPOINT
  Ctx_FirstNbl :: "NET_BUFFER_LIST list"
  Ctx_Buffer :: WSK_BUF
  Ctx_IsNbl :: bool

text \<open>What the code does to the world outside its own variables, in order.\<close>

datatype event =
    Ev_ExAcquireSpinLockShared
  | Ev_ExReleaseSpinLockShared
  | Ev_ExAcquireSpinLockExclusive
  | Ev_ExReleaseSpinLockExclusive
  | Ev_GetIpForwardTable2 ADDRESS_FAMILY
  | Ev_MemAllocate
  | Ev_MemFree
  | Ev_GetIfEntry2 ULONG64
  | Ev_GetIpInterfaceEntry ADDRESS_FAMILY ULONG64
  | Ev_GetBestRoute2 ULONG SOCKADDR_INET
  | Ev_FreeMibTable
  | Ev_ExAllocateFromLookasideListEx
  | Ev_ExFreeToLookasideListEx
  | Ev_FreeSendNetBufferList "NET_BUFFER_LIST list"
  | Ev_MemFreeDataAndMdlChain nat
  | Ev_WskSendMessages "WSK_BUF list" ENDPOINT
  | Ev_WskSendTo WSK_BUF ENDPOINT

datatype lock_mode = NotHeld | HeldShared | HeldExclusive

text \<open>
  The state the modelled functions work on: the two global routing generation
  counters, one peer (its endpoint, how the running thread holds the endpoint lock,
  its byte counter), its device (the interface LUID, whether each socket is there, the
  statistics), the sends whose completion routine has not run yet, and the trace.
  \<open>Others\<close> are the writes of other threads to the peer's endpoint that are still to
  come: each time the resolver has released the endpoint lock and goes on to take it
  again, the next of them lands in between.
\<close>

record WORLD =
  RoutingGenerationV4 :: UINT32
  RoutingGenerationV6 :: UINT32
  Peer_Endpoint :: ENDPOINT
  Peer_EndpointLock :: lock_mode
  Peer_TxBytes :: ULONG64
  Device_InterfaceLuid :: ULONG64
  Device_Sock4 :: bool
  Device_Sock6 :: bool
  ifHCOutOctets :: ULONG64
  ifHCOutUcastOctets :: ULONG64
  ifHCOutUcastPkts :: ULONG64
  InFlight :: "SOCKET_SEND_CTX list"
  Trace :: "event list"
  Others :: "(ENDPOINT \<Rightarrow> ENDPOINT) list"

definition emit :: "event list \<Rightarrow> WORLD \<Rightarrow> WORLD" where
  "emit evs w = w\<lparr>Trace := Trace w @ evs\<rparr>"

definition ExAcquireSpinLockShared :: "WORLD \<Rightarrow> WORLD" where
  "ExAcquireSpinLockShared w = emit [Ev_ExAcquireSpinLockShared] (w\<lparr>Peer_EndpointLock := HeldShared\<rparr>)"

definition ExAcquireSpinLockExclusive :: "WORLD \<Rightarrow> WORLD" where
  "ExAcquireSpinLockExclusive w =
     emit [Ev_ExAcquireSpinLockExclusive] (w\<lparr>Peer_EndpointLock := HeldExclusive\<rparr>)"

definition OtherThreads :: "WORLD \<Rightarrow> WORLD" where
  "OtherThreads w = (case Others w of [] \<Rightarrow> w
     | f # fs \<Rightarrow> w\<lparr>Peer_Endpoint := f (Peer_Endpoint w), Others := fs\<rparr>)"

definition ExReleaseSpinLockShared :: "WORLD \<Rightarrow> WORLD" where
  "ExReleaseSpinLockShared w = emit [Ev_ExReleaseSpinLockShared] (w\<lparr>Peer_EndpointLock := NotHeld\<rparr>)"

definition ExReleaseSpinLockExclusive :: "WORLD \<Rightarrow> WORLD" where
  "ExReleaseSpinLockExclusive w =
     emit [Ev_ExReleaseSpinLockExclusive] (w\<lparr>Peer_EndpointLock := NotHeld\<rparr>)"

section \<open>The source-address resolver\<close>

subsection \<open>The scan of the forwarding table\<close>

record BEST =
  BestIndex :: ULONG
  BestCidr :: nat
  BestMetric :: ULONG
  BestLuid :: ULONG64

text \<open>
  The two family tests of the loop body: an IPv4 endpoint is matched by
  \<open>CidrMaskMatchV4\<close>, an IPv6 one by \<open>CidrMaskMatchV6\<close>, and an endpoint of any other
  family passes both tests unchecked.
\<close>

definition RouteCidrMatch :: "SOCKADDR_INET \<Rightarrow> IP_ADDRESS_PREFIX \<Rightarrow> bool option" where
  "RouteCidrMatch A P =
     (if si_family A = AF_INET then CidrMaskMatchV4 (sin_addr (Ipv4 A)) P
      else if si_family A = AF_INET6 then CidrMaskMatchV6 (sin6_addr A) P
      else Some True)"

text \<open>
  One turn of the loop over the table: the new best entry and the queries made. The
  total metric is a \<open>ULONG\<close> sum and wraps around.
\<close>

definition RouteScanBody ::
  "OS \<Rightarrow> ULONG64 \<Rightarrow> SOCKADDR_INET \<Rightarrow> MIB_IPFORWARD_ROW2 \<Rightarrow> BEST \<Rightarrow> (BEST \<times> event list) option"
where
  "RouteScanBody os Luid A Row b =
     (if InterfaceLuid Row = Luid then Some (b, [])
      else if PrefixLength (DestinationPrefix Row) < BestCidr b then Some (b, [])
      else case RouteCidrMatch A (DestinationPrefix Row) of
        None \<Rightarrow> None
      | Some m \<Rightarrow>
          if \<not> m then Some (b, [])
          else if \<not> NT_SUCCESS (fst (GetIfEntry2 os (InterfaceLuid Row)))
               \<or> snd (GetIfEntry2 os (InterfaceLuid Row)) \<noteq> IfOperStatusUp
          then Some (b, [Ev_GetIfEntry2 (InterfaceLuid Row)])
          else if \<not> NT_SUCCESS (fst (GetIpInterfaceEntry os (si_family A) (InterfaceLuid Row)))
          then Some (b, [Ev_GetIfEntry2 (InterfaceLuid Row),
                         Ev_GetIpInterfaceEntry (si_family A) (InterfaceLuid Row)])
          else
            let Metric' = Metric Row + snd (GetIpInterfaceEntry os (si_family A) (InterfaceLuid Row))
            in if PrefixLength (DestinationPrefix Row) = BestCidr b \<and> BestMetric b < Metric'
               then Some (b, [Ev_GetIfEntry2 (InterfaceLuid Row),
                              Ev_GetIpInterfaceEntry (si_family A) (InterfaceLuid Row)])
               else Some (\<lparr>BestIndex = InterfaceIndex Row,
                            BestCidr = PrefixLength (DestinationPrefix Row),
                            BestMetric = Metric',
                            BestLuid = InterfaceLuid Row\<rparr>,
                          [Ev_GetIfEntry2 (InterfaceLuid Row),
                           Ev_GetIpInterfaceEntry (si_family A) (InterfaceLuid Row)]))"

fun RouteScan ::
  "OS \<Rightarrow> ULONG64 \<Rightarrow> SOCKADDR_INET \<Rightarrow> MIB_IPFORWARD_ROW2 list \<Rightarrow> BEST \<Rightarrow> (BEST \<times> event list) option"
where
  "RouteScan os Luid A [] b = Some (b, [])"
| "RouteScan os Luid A (Row # Rows) b =
     (case RouteScanBody os Luid A Row b of
        None \<Rightarrow> None
      | Some (b', evs) \<Rightarrow>
          (case RouteScan os Luid A Rows b' of
             None \<Rightarrow> None
           | Some (b'', evs') \<Rightarrow> Some (b'', evs @ evs')))"

text \<open>\<open>BestIndex = 0, BestCidr = 0, BestMetric = ~0UL, BestLuid = { 0 }\<close>.\<close>

definition BestInit :: BEST where
  "BestInit = \<lparr>BestIndex = 0, BestCidr = 0, BestMetric = - 1, BestLuid = 0\<rparr>"

subsection \<open>One pass of the resolver\<close>

text \<open>The test of the fast path, made under the shared lock.\<close>

definition ResolveFastPath :: "WORLD \<Rightarrow> bool" where
  "ResolveFastPath w \<longleftrightarrow>
     (si_family (Addr (Peer_Endpoint w)) = AF_INET \<and>
      RoutingGeneration (Peer_Endpoint w) = RoutingGenerationV4 w \<and>
      ipi_ifindex (Src4 (Peer_Endpoint w)) \<noteq> 0) \<or>
     (si_family (Addr (Peer_Endpoint w)) = AF_INET6 \<and>
      RoutingGeneration (Peer_Endpoint w) = RoutingGenerationV6 w \<and>
      ipi6_ifindex (Src6 (Peer_Endpoint w)) \<noteq> 0)"

text \<open>
  The part that runs without the lock: the table query, the scan and the best-route
  query. \<open>Inl\<close> is a return of the function with that status; \<open>Inr\<close> goes on with
  \<open>BestIndex\<close> and \<open>SrcAddr\<close>. The code reads \<open>Endpoint->Addr\<close> here without holding
  the lock; the model reads it once, as it is when this part starts. When the scratch
  allocation fails the function returns without freeing the table.
\<close>

definition ResolveLookup ::
  "OS \<Rightarrow> WORLD \<Rightarrow> ((NTSTATUS \<times> WORLD) + (ULONG \<times> SOCKADDR_INET \<times> WORLD)) option"
where
  "ResolveLookup os w =
     (let A = Addr (Peer_Endpoint w);
          Status = fst (GetIpForwardTable2 os (si_family A));
          Table = snd (GetIpForwardTable2 os (si_family A));
          w1 = emit [Ev_GetIpForwardTable2 (si_family A)] w
      in if \<not> NT_SUCCESS Status then Some (Inl (Status, w1))
         else if \<not> MemAllocate os
         then Some (Inl (STATUS_INSUFFICIENT_RESOURCES, emit [Ev_MemAllocate] w1))
         else case RouteScan os (Device_InterfaceLuid w) A Table BestInit of
           None \<Rightarrow> None
         | Some (b, evs) \<Rightarrow>
             let w2 = emit ([Ev_MemAllocate] @ evs @ [Ev_MemFree]) w1 in
             if Table \<noteq> [] \<and> BestIndex b \<noteq> 0
             then
               let Status' = fst (GetBestRoute2 os (BestIndex b) A);
                   SrcAddr = snd (GetBestRoute2 os (BestIndex b) A);
                   w3 = emit [Ev_GetBestRoute2 (BestIndex b) A, Ev_FreeMibTable] w2
               in if \<not> NT_SUCCESS Status' then Some (Inl (Status', w3))
                  else Some (Inr (BestIndex b, SrcAddr, w3))
             else Some (Inr (BestIndex b, zero_SOCKADDR_INET, emit [Ev_FreeMibTable] w2)))"

text \<open>What the code writes into the endpoint under the exclusive lock, and the
  \<open>BestIndex\<close> it goes on with.\<close>

definition ResolveStore :: "ULONG \<Rightarrow> SOCKADDR_INET \<Rightarrow> WORLD \<Rightarrow> ENDPOINT \<times> ULONG" where
  "ResolveStore BestIndex' SrcAddr w =
     (let E = Peer_Endpoint w in
      if si_family (Addr E) = AF_INET then
        (Src4_assign \<lparr>ipi_addr = sin_addr (Ipv4 SrcAddr), ipi_ifindex = BestIndex'\<rparr>
           (E\<lparr>RoutingGeneration := RoutingGenerationV4 w,
              SrcCmsghdr := \<lparr>cmsg_len = WSA_CMSG_LEN sizeof_IN_PKTINFO,
                             cmsg_level = IPPROTO_IP, cmsg_type = IP_PKTINFO\<rparr>\<rparr>),
         BestIndex')
      else if si_family (Addr E) = AF_INET6 then
        (E\<lparr>RoutingGeneration := RoutingGenerationV6 w,
           Src6 := \<lparr>ipi6_addr = sin6_addr SrcAddr, ipi6_ifindex = BestIndex'\<rparr>,
           SrcCmsghdr := \<lparr>cmsg_len = WSA_CMSG_LEN sizeof_IN6_PKTINFO,
                          cmsg_level = IPPROTO_IPV6, cmsg_type = IPV6_PKTINFO\<rparr>\<rparr>,
         BestIndex')
      else (E, 0))"

datatype pass = Return NTSTATUS | GotoRetry

text \<open>
  The part from the exclusive acquisition to the end. \<open>Snapshot\<close> is the local
  variable \<open>UpdateGeneration\<close>.
\<close>

definition ResolveCommit :: "UINT32 \<Rightarrow> ULONG \<Rightarrow> SOCKADDR_INET \<Rightarrow> WORLD \<Rightarrow> pass \<times> WORLD" where
  "ResolveCommit Snapshot BestIndex' SrcAddr w0 =
     (let w = ExAcquireSpinLockExclusive w0 in
      if UpdateGeneration (Peer_Endpoint w) \<noteq> Snapshot
      then (GotoRetry, OtherThreads (ExReleaseSpinLockExclusive w))
      else
        let E = fst (ResolveStore BestIndex' SrcAddr w);
            BestIndex'' = snd (ResolveStore BestIndex' SrcAddr w);
            w1 = ExReleaseSpinLockExclusive
                   (w\<lparr>Peer_Endpoint := E\<lparr>UpdateGeneration := UpdateGeneration E + 1\<rparr>\<rparr>)
        in if BestIndex'' = 0 then (Return STATUS_BAD_NETWORK_PATH, w1)
           else
             let w2 = ExAcquireSpinLockShared (OtherThreads w1) in
             if UpdateGeneration (Peer_Endpoint w2) \<noteq> Snapshot + 1
             then (GotoRetry, OtherThreads (ExReleaseSpinLockShared w2))
             else (Return STATUS_SUCCESS, w2))"

text \<open>From the label \<open>retry\<close> to a return or to the next \<open>goto retry\<close>.\<close>

definition ResolvePass :: "OS \<Rightarrow> WORLD \<Rightarrow> (pass \<times> WORLD) option" where
  "ResolvePass os w0 =
     (let w = ExAcquireSpinLockShared w0;
          Snapshot = UpdateGeneration (Peer_Endpoint w)
      in if ResolveFastPath w then Some (Return STATUS_SUCCESS, w)
         else case ResolveLookup os (OtherThreads (ExReleaseSpinLockShared w)) of
           None \<Rightarrow> None
         | Some (Inl (Status, w')) \<Rightarrow> Some (Return Status, w')
         | Some (Inr (BestIndex', SrcAddr, w')) \<Rightarrow>
             Some (ResolveCommit Snapshot BestIndex' SrcAddr w'))"

text \<open>
  The function: passes until one returns. Each \<open>goto retry\<close> uses one unit of fuel; the
  result is \<open>None\<close> when the fuel runs out or the C is undefined.
\<close>

fun SocketResolvePeerEndpointSrc :: "nat \<Rightarrow> OS \<Rightarrow> WORLD \<Rightarrow> (NTSTATUS \<times> WORLD) option" where
  "SocketResolvePeerEndpointSrc 0 os w = None"
| "SocketResolvePeerEndpointSrc (Suc fuel) os w =
     (case ResolvePass os w of
        None \<Rightarrow> None
      | Some (Return Status, w') \<Rightarrow> Some (Status, w')
      | Some (GotoRetry, w') \<Rightarrow> SocketResolvePeerEndpointSrc fuel os w')"

section \<open>The send path for a chain of packets\<close>

text \<open>
  The completion routine of a send: it frees the chain or the owned buffer, and gives
  the context back to the lookaside list.
\<close>

definition SendComplete :: "SOCKET_SEND_CTX \<Rightarrow> WORLD \<Rightarrow> WORLD" where
  "SendComplete Ctx w =
     emit ((if Ctx_IsNbl Ctx then [Ev_FreeSendNetBufferList (Ctx_FirstNbl Ctx)]
            else [Ev_MemFreeDataAndMdlChain (Mdl (Ctx_Buffer Ctx))])
           @ [Ev_ExFreeToLookasideListEx])
       (w\<lparr>InFlight := remove1 Ctx (InFlight w)\<rparr>)"

text \<open>
  The \<open>WSK_BUF_LIST\<close> entry that \<open>SocketSendNblsToPeer\<close> writes for a packet buffer into
  the buffer's reserved area.
\<close>

definition NET_BUFFER_WSK_BUF :: "NET_BUFFER \<Rightarrow> WSK_BUF" where
  "NET_BUFFER_WSK_BUF Nb =
     \<lparr>Mdl = CurrentMdl Nb, Offset = CurrentMdlOffset Nb, Length = ucast (DataLength Nb)\<rparr>"

text \<open>
  \<open>SendAsync\<close> picks the socket of the endpoint's family and hands the send to the
  provider; the completion routine runs later. For a chain it passes the list entry of
  the first packet buffer of the first \<open>NET_BUFFER_LIST\<close>, from which the entries of all
  packets are linked; when that \<open>NET_BUFFER_LIST\<close> has no packet buffer the pointer is
  not valid, and there is no result.
\<close>

definition SendAsync :: "SOCKET_SEND_CTX \<Rightarrow> WORLD \<Rightarrow> (NTSTATUS \<times> WORLD) option" where
  "SendAsync Ctx w =
     (let Socket =
            (if si_family (Addr (Ctx_Endpoint Ctx)) = AF_INET then Device_Sock4 w
             else if si_family (Addr (Ctx_Endpoint Ctx)) = AF_INET6 then Device_Sock6 w
             else False)
      in if \<not> Socket then Some (STATUS_NETWORK_UNREACHABLE, w)
         else if Ctx_IsNbl Ctx then
           (case Ctx_FirstNbl Ctx of
              (Nb # Nbs) # Nbls \<Rightarrow>
                Some (STATUS_SUCCESS,
                  emit [Ev_WskSendMessages (map NET_BUFFER_WSK_BUF (concat (Ctx_FirstNbl Ctx)))
                          (Ctx_Endpoint Ctx)]
                    (w\<lparr>InFlight := InFlight w @ [Ctx]\<rparr>))
            | _ \<Rightarrow> None)
         else Some (STATUS_SUCCESS,
                emit [Ev_WskSendTo (Ctx_Buffer Ctx) (Ctx_Endpoint Ctx)]
                  (w\<lparr>InFlight := InFlight w @ [Ctx]\<rparr>)))"

text \<open>
  The two nested loops over the chain: the running sums \<open>DataLength\<close> (here
  \<open>DataLength'\<close>, as the name is that of the field) and \<open>Packets\<close>
  and the flag \<open>*AllKeepalive\<close>. \<open>KeepaliveLen\<close> is the value of \<open>MessageDataLen(0)\<close>, a
  macro of the driver's message header, which is not among the sources.
\<close>

fun SumNetBuffers ::
  "SIZE_T \<Rightarrow> NET_BUFFER list \<Rightarrow> ULONG64 \<times> ULONG64 \<times> bool \<Rightarrow> ULONG64 \<times> ULONG64 \<times> bool"
where
  "SumNetBuffers KeepaliveLen [] acc = acc"
| "SumNetBuffers KeepaliveLen (Nb # Nbs) (DataLength', Packets, AllKeepalive) =
     SumNetBuffers KeepaliveLen Nbs
       (DataLength' + ucast (DataLength Nb), Packets + 1,
        if ucast (DataLength Nb) \<noteq> KeepaliveLen then False else AllKeepalive)"

fun SumNetBufferLists ::
  "SIZE_T \<Rightarrow> NET_BUFFER_LIST list \<Rightarrow> ULONG64 \<times> ULONG64 \<times> bool \<Rightarrow> ULONG64 \<times> ULONG64 \<times> bool"
where
  "SumNetBufferLists KeepaliveLen [] acc = acc"
| "SumNetBufferLists KeepaliveLen (Nbl # Nbls) acc =
     SumNetBufferLists KeepaliveLen Nbls (SumNetBuffers KeepaliveLen Nbl acc)"

text \<open>
  \<open>SocketSendNblsToPeer(Peer, First, AllKeepalive)\<close>. The last argument is what the
  caller's flag holds before the call; the result is the status, what the flag holds
  after the call, and the new state.
\<close>

definition SocketSendNblsToPeer ::
  "SIZE_T \<Rightarrow> nat \<Rightarrow> OS \<Rightarrow> WORLD \<Rightarrow> NET_BUFFER_LIST list \<Rightarrow> bool \<Rightarrow> (NTSTATUS \<times> bool \<times> WORLD) option"
where
  "SocketSendNblsToPeer KeepaliveLen fuel os w First AllKeepalive =
     (if First = [] then Some (STATUS_ALREADY_COMPLETE, AllKeepalive, w)
      else if \<not> ExAllocateFromLookasideListEx os
      then Some (STATUS_INSUFFICIENT_RESOURCES, AllKeepalive,
             emit [Ev_ExAllocateFromLookasideListEx, Ev_FreeSendNetBufferList First] w)
      else
        case SocketResolvePeerEndpointSrc fuel os (emit [Ev_ExAllocateFromLookasideListEx] w) of
          None \<Rightarrow> None
        | Some (Status, w1) \<Rightarrow>
            if \<not> NT_SUCCESS Status
            then Some (Status, AllKeepalive,
                   emit [Ev_ExFreeToLookasideListEx, Ev_FreeSendNetBufferList First] w1)
            else
              let Ctx = \<lparr>Ctx_Endpoint = Peer_Endpoint w1, Ctx_FirstNbl = First,
                         Ctx_Buffer = \<lparr>Mdl = 0, Offset = 0, Length = 0\<rparr>, Ctx_IsNbl = True\<rparr>;
                  w2 = ExReleaseSpinLockShared w1;
                  sums = SumNetBufferLists KeepaliveLen First (0, 0, True);
                  DataLength' = fst sums;
                  Packets = fst (snd sums);
                  AllKeepalive' = snd (snd sums)
              in case SendAsync Ctx w2 of
                   None \<Rightarrow> None
                 | Some (Status', w3) \<Rightarrow>
                     if \<not> NT_SUCCESS Status'
                     then Some (Status', AllKeepalive',
                            emit [Ev_ExFreeToLookasideListEx, Ev_FreeSendNetBufferList First] w3)
                     else Some (STATUS_SUCCESS, AllKeepalive',
                            w3\<lparr>Peer_TxBytes := Peer_TxBytes w3 + DataLength',
                               ifHCOutOctets := ifHCOutOctets w3 + DataLength',
                               ifHCOutUcastOctets := ifHCOutUcastOctets w3 + DataLength',
                               ifHCOutUcastPkts := ifHCOutUcastPkts w3 + Packets\<rparr>))"

section \<open>Endpoint management\<close>

subsection \<open>The endpoint of a received datagram\<close>

text \<open>
  A datagram indication carries the remote address, and the control information as a
  length and a pointer. The control buffer is the sequence of control messages that lie
  in it one after another, each a header and its data; a message takes
  \<open>WSA_CMSGHDR_ALIGN(cmsg_len)\<close> bytes. The data is kept as the 32-bit values it
  holds. A null \<open>ControlInfo\<close> is \<open>None\<close>.
\<close>

record CMSG =
  Hdr :: WSACMSGHDR
  CmsgData :: "UINT32 list"

record WSK_DATAGRAM_INDICATION =
  RemoteAddress :: SOCKADDR_INET
  ControlInfoLength :: ULONG
  ControlInfo :: "CMSG list option"

text \<open>
  The loop of \<open>FindInCmsgHdr\<close>, on the headers from \<open>Hdr\<close> on: \<open>Some (Some m)\<close> is the
  message found, \<open>Some None\<close> the null result. There is no result when the loop goes
  past the last message of the buffer with \<open>Len\<close> still positive, and when a message
  has the aligned length zero, where neither \<open>Len\<close> nor \<open>Hdr\<close> changes and the loop
  does not end. \<open>Len\<close> is a \<open>SIZE_T\<close>: the subtraction wraps around.
\<close>

fun FindInCmsgHdr_loop :: "SIZE_T \<Rightarrow> CMSG list \<Rightarrow> 32 word \<Rightarrow> 32 word \<Rightarrow> CMSG option option" where
  "FindInCmsgHdr_loop Len [] Level Type = (if 0 < Len then None else Some None)"
| "FindInCmsgHdr_loop Len (m # ms) Level Type =
     (if \<not> 0 < Len then Some None
      else if cmsg_level (Hdr m) = Level \<and> cmsg_type (Hdr m) = Type then Some (Some m)
      else if WSA_CMSGHDR_ALIGN (cmsg_len (Hdr m)) = 0 then None
      else FindInCmsgHdr_loop (Len - WSA_CMSGHDR_ALIGN (cmsg_len (Hdr m))) ms Level Type)"

definition FindInCmsgHdr :: "WSK_DATAGRAM_INDICATION \<Rightarrow> 32 word \<Rightarrow> 32 word \<Rightarrow> CMSG option option" where
  "FindInCmsgHdr Data Level Type =
     (case ControlInfo Data of
        None \<Rightarrow> Some None
      | Some ms \<Rightarrow> FindInCmsgHdr_loop (ucast (ControlInfoLength Data)) ms Level Type)"

text \<open>
  \<open>*(IN_PKTINFO *)Pktinfo\<close> and \<open>*(IN6_PKTINFO *)Pktinfo\<close>: eight and twenty bytes of the
  message's data. A message with less data has no such structure in it.
\<close>

definition read_IN_PKTINFO :: "UINT32 list \<Rightarrow> IN_PKTINFO option" where
  "read_IN_PKTINFO ds = (case ds of a # i # _ \<Rightarrow> Some \<lparr>ipi_addr = a, ipi_ifindex = i\<rparr> | _ \<Rightarrow> None)"

definition read_IN6_PKTINFO :: "UINT32 list \<Rightarrow> IN6_PKTINFO option" where
  "read_IN6_PKTINFO ds =
     (case ds of a0 # a1 # a2 # a3 # i # _ \<Rightarrow>
        Some \<lparr>ipi6_addr = \<lparr>Dword0 = a0, Dword1 = a1, Dword2 = a2, Dword3 = a3\<rparr>, ipi6_ifindex = i\<rparr>
      | _ \<Rightarrow> None)"

text \<open>
  \<open>SocketEndpointFromNbl(Endpoint, Nbl)\<close>, given the two global counters, what
  \<open>*Endpoint\<close> holds before the call, and the datagram indication of \<open>Nbl\<close>. The result is
  the status and what \<open>*Endpoint\<close> holds after the call.
\<close>

definition SocketEndpointFromNbl ::
  "UINT32 \<Rightarrow> UINT32 \<Rightarrow> ENDPOINT \<Rightarrow> WSK_DATAGRAM_INDICATION \<Rightarrow> (NTSTATUS \<times> ENDPOINT) option"
where
  "SocketEndpointFromNbl GenV4 GenV6 Endpoint Data =
     (let E = RtlZeroMemory_ENDPOINT Endpoint;
          Addr' = RemoteAddress Data;
          Try6 =
            (if si_family Addr' = AF_INET6 then
               (case FindInCmsgHdr Data IPPROTO_IPV6 IPV6_PKTINFO of
                  None \<Rightarrow> None
                | Some None \<Rightarrow> Some (STATUS_INVALID_ADDRESS, E)
                | Some (Some m) \<Rightarrow>
                    (case read_IN6_PKTINFO (CmsgData m) of
                       None \<Rightarrow> None
                     | Some Pktinfo \<Rightarrow>
                         Some (STATUS_SUCCESS,
                           E\<lparr>Addr := Addr',
                             Src6 := Pktinfo,
                             RoutingGeneration := GenV6,
                             SrcCmsghdr := \<lparr>cmsg_len = WSA_CMSG_LEN sizeof_IN6_PKTINFO,
                               cmsg_level = IPPROTO_IPV6, cmsg_type = IPV6_PKTINFO\<rparr>\<rparr>)))
             else Some (STATUS_INVALID_ADDRESS, E))
      in if si_family Addr' = AF_INET then
           (case FindInCmsgHdr Data IPPROTO_IP IP_PKTINFO of
              None \<Rightarrow> None
            | Some None \<Rightarrow> Try6
            | Some (Some m) \<Rightarrow>
                (case read_IN_PKTINFO (CmsgData m) of
                   None \<Rightarrow> None
                 | Some Pktinfo \<Rightarrow>
                     Some (STATUS_SUCCESS,
                       (Src4_assign Pktinfo (E\<lparr>Addr := Ipv4_assign (Ipv4 Addr') (Addr E)\<rparr>))
                         \<lparr>RoutingGeneration := GenV4,
                          SrcCmsghdr := \<lparr>cmsg_len = WSA_CMSG_LEN sizeof_IN_PKTINFO,
                            cmsg_level = IPPROTO_IP, cmsg_type = IP_PKTINFO\<rparr>\<rparr>)))
         else Try6)"

text \<open>
  What the kernel promises about an indication. The control buffer is exactly as long
  as its messages: each has a positive aligned length, and the lengths add up to
  \<open>ControlInfoLength\<close>. A pkt-info message carries at least the bytes of its structure.
\<close>

fun wf_control :: "SIZE_T \<Rightarrow> CMSG list \<Rightarrow> bool" where
  "wf_control Len [] \<longleftrightarrow> Len = 0"
| "wf_control Len (m # ms) \<longleftrightarrow>
     0 < WSA_CMSGHDR_ALIGN (cmsg_len (Hdr m)) \<and> WSA_CMSGHDR_ALIGN (cmsg_len (Hdr m)) \<le> Len \<and>
     wf_control (Len - WSA_CMSGHDR_ALIGN (cmsg_len (Hdr m))) ms"

definition is_cmsg :: "32 word \<Rightarrow> 32 word \<Rightarrow> CMSG \<Rightarrow> bool" where
  "is_cmsg Level Type m \<longleftrightarrow> cmsg_level (Hdr m) = Level \<and> cmsg_type (Hdr m) = Type"

definition wf_datagram :: "WSK_DATAGRAM_INDICATION \<Rightarrow> bool" where
  "wf_datagram Data \<longleftrightarrow>
     (case ControlInfo Data of
        None \<Rightarrow> True
      | Some ms \<Rightarrow>
          wf_control (ucast (ControlInfoLength Data)) ms \<and>
          list_all (\<lambda>m. (is_cmsg IPPROTO_IP IP_PKTINFO m \<longrightarrow> 2 \<le> length (CmsgData m)) \<and>
                         (is_cmsg IPPROTO_IPV6 IPV6_PKTINFO m \<longrightarrow> 5 \<le> length (CmsgData m))) ms)"

text \<open>Whether the control buffer holds a message of the given level and type.\<close>

definition HasCmsg :: "WSK_DATAGRAM_INDICATION \<Rightarrow> 32 word \<Rightarrow> 32 word \<Rightarrow> bool" where
  "HasCmsg Data Level Type \<longleftrightarrow>
     (case ControlInfo Data of None \<Rightarrow> False | Some ms \<Rightarrow> list_ex (is_cmsg Level Type) ms)"

subsection \<open>Setting and clearing the endpoint of a peer\<close>

text \<open>
  \<open>SocketSetPeerEndpoint(Peer, Endpoint)\<close>. The comparison is made without the lock;
  the code accepts the race with a concurrent writer, and the model has no other
  thread write between the comparison and the acquisition.
\<close>

definition SocketSetPeerEndpoint :: "ENDPOINT \<Rightarrow> WORLD \<Rightarrow> WORLD" where
  "SocketSetPeerEndpoint Endpoint w0 =
     (if EndpointEq Endpoint (Peer_Endpoint w0) then w0
      else
        let w = ExAcquireSpinLockExclusive w0;
            P = Peer_Endpoint w
        in if si_family (Addr Endpoint) = AF_INET then
             ExReleaseSpinLockExclusive
               (w\<lparr>Peer_Endpoint :=
                  (let P1 = (Src4_assign (Src4 Endpoint)
                              (P\<lparr>Addr := Ipv4_assign (Ipv4 (Addr Endpoint)) (Addr P)\<rparr>))
                            \<lparr>SrcCmsghdr := \<lparr>cmsg_len = WSA_CMSG_LEN sizeof_IN_PKTINFO,
                               cmsg_level = IPPROTO_IP, cmsg_type = IP_PKTINFO\<rparr>,
                             RoutingGeneration := RoutingGeneration Endpoint\<rparr>
                   in P1\<lparr>UpdateGeneration := UpdateGeneration P1 + 1\<rparr>)\<rparr>)
           else if si_family (Addr Endpoint) = AF_INET6 then
             ExReleaseSpinLockExclusive
               (w\<lparr>Peer_Endpoint :=
                  (let P1 = P\<lparr>Addr := Addr Endpoint,
                               Src6 := Src6 Endpoint,
                               SrcCmsghdr := \<lparr>cmsg_len = WSA_CMSG_LEN sizeof_IN6_PKTINFO,
                                 cmsg_level = IPPROTO_IPV6, cmsg_type = IPV6_PKTINFO\<rparr>,
                               RoutingGeneration := RoutingGeneration Endpoint\<rparr>
                   in P1\<lparr>UpdateGeneration := UpdateGeneration P1 + 1\<rparr>)\<rparr>)
           else ExReleaseSpinLockExclusive w)"


definition SocketClearPeerEndpointSrc :: "WORLD \<Rightarrow> WORLD" where
  "SocketClearPeerEndpointSrc w0 =
     (let w = ExAcquireSpinLockExclusive w0;
          P = Peer_Endpoint w
      in ExReleaseSpinLockExclusive
           (w\<lparr>Peer_Endpoint := P\<lparr>RoutingGeneration := 0,
                                   UpdateGeneration := UpdateGeneration P + 1,
                                   Src6 := zero_IN6_PKTINFO\<rparr>\<rparr>))"

section \<open>The routing generation counters\<close>




text \<open>The prefix 10.0.0.0/8 and the address 10.1.2.3.\<close>

definition prefix_10_slash_8 :: IP_ADDRESS_PREFIX where
  "prefix_10_slash_8 =
     \<lparr>Prefix = zero_SOCKADDR_INET\<lparr>si_family := AF_INET, sin6_flowinfo := 0x0000000A\<rparr>,
      PrefixLength = 8\<rparr>"

definition addr_10_1_2_3 :: UINT32 where
  "addr_10_1_2_3 = 0x0302010A"

section \<open>The scenarios of the specification\<close>

text \<open>
  Scenario 1: the global IPv4 generation is 7 and the peer endpoint is
  192.0.2.10:51820 with the source 10.0.0.5, interface index 3 and routing generation 7.
  Addresses and ports are held as the little-endian host reads their network-order
  bytes.
\<close>

definition endpoint_scenario1 :: ENDPOINT where
  "endpoint_scenario1 =
     \<lparr>Addr = zero_SOCKADDR_INET\<lparr>si_family := AF_INET, sin6_port := 0x6CCA,
                                   sin6_flowinfo := 0x0A0200C0\<rparr>,
      SrcCmsghdr = \<lparr>cmsg_len = WSA_CMSG_LEN sizeof_IN_PKTINFO,
                    cmsg_level = IPPROTO_IP, cmsg_type = IP_PKTINFO\<rparr>,
      Src6 = zero_IN6_PKTINFO\<lparr>ipi6_addr := zero_IN6_ADDR\<lparr>Dword0 := 0x0500000A, Dword1 := 3\<rparr>\<rparr>,
      RoutingGeneration = 7,
      UpdateGeneration = 0\<rparr>"

definition world_scenario1 :: WORLD where
  "world_scenario1 =
     \<lparr>RoutingGenerationV4 = 7, RoutingGenerationV6 = 1,
      Peer_Endpoint = endpoint_scenario1, Peer_EndpointLock = NotHeld, Peer_TxBytes = 0,
      Device_InterfaceLuid = 0x0017000000000000, Device_Sock4 = True, Device_Sock6 = True,
      ifHCOutOctets = 0, ifHCOutUcastOctets = 0, ifHCOutUcastPkts = 0,
      InFlight = [], Trace = [], Others = []\<rparr>"

text \<open>
  Scenario 2: the global IPv4 generation is 5, the peer's cached one is 3, and the peer
  address is 198.51.100.1:51820. The table has 0.0.0.0/0 through interface 2 with
  metric 20 and 198.51.100.0/24 through interface 4 with metric 5; interface 4 is up
  with metric 10, interface 2 is up with metric 100. The best route through any
  interface has the source 10.0.0.5.
\<close>

definition row_default_if2 :: MIB_IPFORWARD_ROW2 where
  "row_default_if2 =
     \<lparr>InterfaceLuid = 0x0006000000000002, InterfaceIndex = 2,
      DestinationPrefix = \<lparr>Prefix = zero_SOCKADDR_INET\<lparr>si_family := AF_INET\<rparr>, PrefixLength = 0\<rparr>,
      Metric = 20\<rparr>"

definition row_slash24_if4 :: MIB_IPFORWARD_ROW2 where
  "row_slash24_if4 =
     \<lparr>InterfaceLuid = 0x0006000000000004, InterfaceIndex = 4,
      DestinationPrefix =
        \<lparr>Prefix = zero_SOCKADDR_INET\<lparr>si_family := AF_INET, sin6_flowinfo := 0x006433C6\<rparr>,
         PrefixLength = 24\<rparr>,
      Metric = 5\<rparr>"

definition os_scenario2 :: OS where
  "os_scenario2 =
     \<lparr>GetIpForwardTable2 =
        (\<lambda>Family. if Family = AF_INET then (STATUS_SUCCESS, [row_default_if2, row_slash24_if4])
                  else (STATUS_SUCCESS, [])),
      GetIfEntry2 = (\<lambda>Luid. (STATUS_SUCCESS, IfOperStatusUp)),
      GetIpInterfaceEntry =
        (\<lambda>Family Luid. (STATUS_SUCCESS, if Luid = 0x0006000000000004 then 10 else 100)),
      GetBestRoute2 =
        (\<lambda>Index Dst. (STATUS_SUCCESS,
           zero_SOCKADDR_INET\<lparr>si_family := AF_INET, sin6_flowinfo := 0x0500000A\<rparr>)),
      MemAllocate = True,
      ExAllocateFromLookasideListEx = True\<rparr>"

definition endpoint_scenario2 :: ENDPOINT where
  "endpoint_scenario2 =
     \<lparr>Addr = zero_SOCKADDR_INET\<lparr>si_family := AF_INET, sin6_port := 0x6CCA,
                                   sin6_flowinfo := 0x016433C6\<rparr>,
      SrcCmsghdr = \<lparr>cmsg_len = WSA_CMSG_LEN sizeof_IN_PKTINFO,
                    cmsg_level = IPPROTO_IP, cmsg_type = IP_PKTINFO\<rparr>,
      Src6 = zero_IN6_PKTINFO,
      RoutingGeneration = 3,
      UpdateGeneration = 0\<rparr>"

definition world_scenario2 :: WORLD where
  "world_scenario2 = world_scenario1\<lparr>RoutingGenerationV4 := 5, Peer_Endpoint := endpoint_scenario2\<rparr>"

text \<open>An endpoint whose family is neither IPv4 nor IPv6, and one that is unset.\<close>

definition endpoint_family5 :: ENDPOINT where
  "endpoint_family5 = endpoint_scenario1\<lparr>Addr := (Addr endpoint_scenario1)\<lparr>si_family := 5\<rparr>\<rparr>"

definition endpoint_unset :: ENDPOINT where
  "endpoint_unset = endpoint_scenario1\<lparr>Addr := zero_SOCKADDR_INET\<rparr>"

text \<open>
  A datagram from 192.0.2.10:51820 that arrived on interface 3 at 10.0.0.5: its control
  buffer holds one \<open>IP_PKTINFO\<close> message of 24 bytes.
\<close>

definition datagram_scenario1 :: WSK_DATAGRAM_INDICATION where
  "datagram_scenario1 =
     \<lparr>RemoteAddress = zero_SOCKADDR_INET\<lparr>si_family := AF_INET, sin6_port := 0x6CCA,
                                            sin6_flowinfo := 0x0A0200C0\<rparr>,
      ControlInfoLength = 24,
      ControlInfo = Some [\<lparr>Hdr = \<lparr>cmsg_len = 24, cmsg_level = IPPROTO_IP, cmsg_type = IP_PKTINFO\<rparr>,
                           CmsgData = [0x0500000A, 3]\<rparr>]\<rparr>"


section \<open>Reading the trace, and the tables the operating system returns\<close>

text \<open>The chains passed to \<open>FreeSendNetBufferList\<close>, in order.\<close>

fun FreedChains :: "event list \<Rightarrow> NET_BUFFER_LIST list list" where
  "FreedChains [] = []"
| "FreedChains (Ev_FreeSendNetBufferList C # evs) = C # FreedChains evs"
| "FreedChains (ev # evs) = FreedChains evs"

text \<open>The calls of the best-route primitive, in order: interface index and destination.\<close>

fun BestRouteCalls :: "event list \<Rightarrow> (ULONG \<times> SOCKADDR_INET) list" where
  "BestRouteCalls [] = []"
| "BestRouteCalls (Ev_GetBestRoute2 Index Dst # evs) = (Index, Dst) # BestRouteCalls evs"
| "BestRouteCalls (ev # evs) = BestRouteCalls evs"

text \<open>The events the resolver can emit: lock operations, routing queries, scratch memory.\<close>

fun resolver_event :: "event \<Rightarrow> bool" where
  "resolver_event Ev_ExAllocateFromLookasideListEx = False"
| "resolver_event Ev_ExFreeToLookasideListEx = False"
| "resolver_event (Ev_FreeSendNetBufferList C) = False"
| "resolver_event (Ev_MemFreeDataAndMdlChain m) = False"
| "resolver_event (Ev_WskSendMessages bs e) = False"
| "resolver_event (Ev_WskSendTo b e) = False"
| "resolver_event ev = True"

text \<open>
  The forwarding table of a family holds prefixes of that family: no IPv4 prefix is
  longer than 32 bits and no IPv6 prefix longer than 128.
\<close>

definition wf_row :: "ADDRESS_FAMILY \<Rightarrow> MIB_IPFORWARD_ROW2 \<Rightarrow> bool" where
  "wf_row Family Row \<longleftrightarrow>
     (Family = AF_INET \<longrightarrow> PrefixLength (DestinationPrefix Row) \<le> 32) \<and>
     (Family = AF_INET6 \<longrightarrow> PrefixLength (DestinationPrefix Row) \<le> 128)"

definition wf_os :: "OS \<Rightarrow> bool" where
  "wf_os os \<longleftrightarrow>
     list_all (wf_row AF_INET) (snd (GetIpForwardTable2 os AF_INET)) \<and>
     list_all (wf_row AF_INET6) (snd (GetIpForwardTable2 os AF_INET6))"

text \<open>Whether a packet has exactly the keepalive length.\<close>

definition IsKeepalive :: "SIZE_T \<Rightarrow> NET_BUFFER \<Rightarrow> bool" where
  "IsKeepalive KeepaliveLen Nb \<longleftrightarrow> ucast (DataLength Nb) = KeepaliveLen"

text \<open>A chain of one keepalive packet of 32 bytes, and a chain of one data packet.\<close>

definition chain_keepalive :: "NET_BUFFER_LIST list" where
  "chain_keepalive = [[\<lparr>DataLength = 32, CurrentMdl = 1, CurrentMdlOffset = 0\<rparr>]]"

definition chain_data :: "NET_BUFFER_LIST list" where
  "chain_data = [[\<lparr>DataLength = 148, CurrentMdl = 2, CurrentMdlOffset = 0\<rparr>]]"

text \<open>Scenario 1 with no IPv4 socket bound.\<close>

definition world_no_socket :: WORLD where
  "world_no_socket = world_scenario1\<lparr>Device_Sock4 := False\<rparr>"

section \<open>The entry the scan selects, in the terms of the loop body\<close>

text \<open>
  The tests of the loop body on one row, put together: the row is not on the
  device's own interface, \<open>RouteCidrMatch\<close> (the code's comparison) accepts its
  destination prefix, and its interface is up and can be queried. These are the
  notions the invariant of the loop is stated in; the notions of the specification
  follow in the next section.
\<close>

definition Eligible :: "OS \<Rightarrow> ULONG64 \<Rightarrow> SOCKADDR_INET \<Rightarrow> MIB_IPFORWARD_ROW2 \<Rightarrow> bool" where
  "Eligible os Luid A Row \<longleftrightarrow>
     InterfaceLuid Row \<noteq> Luid \<and>
     RouteCidrMatch A (DestinationPrefix Row) = Some True \<and>
     NT_SUCCESS (fst (GetIfEntry2 os (InterfaceLuid Row))) \<and>
     snd (GetIfEntry2 os (InterfaceLuid Row)) = IfOperStatusUp \<and>
     NT_SUCCESS (fst (GetIpInterfaceEntry os (si_family A) (InterfaceLuid Row)))"

text \<open>
  The total metric as the loop computes it: the \<open>ULONG\<close> sum of the route metric and
  the interface metric, which wraps around at \<open>2^32\<close>.
\<close>

definition TotalMetric :: "OS \<Rightarrow> SOCKADDR_INET \<Rightarrow> MIB_IPFORWARD_ROW2 \<Rightarrow> ULONG" where
  "TotalMetric os A Row =
     Metric Row + snd (GetIpInterfaceEntry os (si_family A) (InterfaceLuid Row))"

text \<open>
  \<open>NotWorse\<close>: the first row has a longer prefix than the second, or the same length
  and a total metric that is not higher. \<open>Better\<close>: a longer prefix, or the same
  length and a lower total metric.
\<close>

definition NotWorse :: "OS \<Rightarrow> SOCKADDR_INET \<Rightarrow> MIB_IPFORWARD_ROW2 \<Rightarrow> MIB_IPFORWARD_ROW2 \<Rightarrow> bool" where
  "NotWorse os A R1 R2 \<longleftrightarrow>
     PrefixLength (DestinationPrefix R2) < PrefixLength (DestinationPrefix R1) \<or>
     (PrefixLength (DestinationPrefix R2) = PrefixLength (DestinationPrefix R1) \<and>
      TotalMetric os A R1 \<le> TotalMetric os A R2)"

definition Better :: "OS \<Rightarrow> SOCKADDR_INET \<Rightarrow> MIB_IPFORWARD_ROW2 \<Rightarrow> MIB_IPFORWARD_ROW2 \<Rightarrow> bool" where
  "Better os A R1 R2 \<longleftrightarrow>
     PrefixLength (DestinationPrefix R2) < PrefixLength (DestinationPrefix R1) \<or>
     (PrefixLength (DestinationPrefix R2) = PrefixLength (DestinationPrefix R1) \<and>
      TotalMetric os A R1 < TotalMetric os A R2)"

text \<open>
  In these terms, the winner is the row passing the tests that no such row beats (the
  longest prefix and, among those, the lowest wrapped sum) and that beats every such
  row after it in the table: of the rows tied on both, it is the last.
\<close>

definition Winner ::
  "OS \<Rightarrow> ULONG64 \<Rightarrow> SOCKADDR_INET \<Rightarrow> MIB_IPFORWARD_ROW2 list \<Rightarrow> nat \<Rightarrow> bool"
where
  "Winner os Luid A Table i \<longleftrightarrow>
     i < length Table \<and> Eligible os Luid A (Table ! i) \<and>
     list_all (\<lambda>j. Eligible os Luid A (Table ! j) \<longrightarrow> NotWorse os A (Table ! i) (Table ! j))
       [0..<length Table] \<and>
     list_all (\<lambda>j. Eligible os Luid A (Table ! j) \<longrightarrow> Better os A (Table ! i) (Table ! j))
       [Suc i..<length Table]"

text \<open>What the scan records of a row.\<close>

definition BestOf :: "OS \<Rightarrow> SOCKADDR_INET \<Rightarrow> MIB_IPFORWARD_ROW2 \<Rightarrow> BEST" where
  "BestOf os A Row =
     \<lparr>BestIndex = InterfaceIndex Row,
      BestCidr = PrefixLength (DestinationPrefix Row),
      BestMetric = TotalMetric os A Row,
      BestLuid = InterfaceLuid Row\<rparr>"






section \<open>The entry the specification describes\<close>

text \<open>
  The specification's words for the entry to pick: it is not on the tunnel's own
  interface, its destination prefix matches the remote address (the reference CIDR
  match \<open>(A & mask(L)) = (P.addr & mask(L))\<close> over the addresses of the endpoint's
  family), and its interface is up and can be queried. Nothing here is taken from the
  tests of the loop body.
\<close>

definition RouteCidrMatch_spec :: "SOCKADDR_INET \<Rightarrow> IP_ADDRESS_PREFIX \<Rightarrow> bool" where
  "RouteCidrMatch_spec A P \<longleftrightarrow>
     (si_family A = AF_INET \<and>
      CidrMatch_spec (ipv4_value (sin_addr (Ipv4 A)))
        (ipv4_value (sin_addr (Ipv4 (Prefix P)))) (PrefixLength P)) \<or>
     (si_family A = AF_INET6 \<and>
      CidrMatch_spec (ipv6_value (sin6_addr A))
        (ipv6_value (sin6_addr (Prefix P))) (PrefixLength P))"

definition Eligible_spec :: "OS \<Rightarrow> ULONG64 \<Rightarrow> SOCKADDR_INET \<Rightarrow> MIB_IPFORWARD_ROW2 \<Rightarrow> bool" where
  "Eligible_spec os Luid A Row \<longleftrightarrow>
     InterfaceLuid Row \<noteq> Luid \<and>
     RouteCidrMatch_spec A (DestinationPrefix Row) \<and>
     NT_SUCCESS (fst (GetIfEntry2 os (InterfaceLuid Row))) \<and>
     snd (GetIfEntry2 os (InterfaceLuid Row)) = IfOperStatusUp \<and>
     NT_SUCCESS (fst (GetIpInterfaceEntry os (si_family A) (InterfaceLuid Row)))"

text \<open>
  The total metric of the specification: the route metric plus the interface metric,
  as numbers.
\<close>

definition TotalMetric_spec :: "OS \<Rightarrow> SOCKADDR_INET \<Rightarrow> MIB_IPFORWARD_ROW2 \<Rightarrow> nat" where
  "TotalMetric_spec os A Row =
     unat (Metric Row) + unat (snd (GetIpInterfaceEntry os (si_family A) (InterfaceLuid Row)))"

definition NotWorse_spec :: "OS \<Rightarrow> SOCKADDR_INET \<Rightarrow> MIB_IPFORWARD_ROW2 \<Rightarrow> MIB_IPFORWARD_ROW2 \<Rightarrow> bool" where
  "NotWorse_spec os A R1 R2 \<longleftrightarrow>
     PrefixLength (DestinationPrefix R2) < PrefixLength (DestinationPrefix R1) \<or>
     (PrefixLength (DestinationPrefix R2) = PrefixLength (DestinationPrefix R1) \<and>
      TotalMetric_spec os A R1 \<le> TotalMetric_spec os A R2)"

definition Better_spec :: "OS \<Rightarrow> SOCKADDR_INET \<Rightarrow> MIB_IPFORWARD_ROW2 \<Rightarrow> MIB_IPFORWARD_ROW2 \<Rightarrow> bool" where
  "Better_spec os A R1 R2 \<longleftrightarrow>
     PrefixLength (DestinationPrefix R2) < PrefixLength (DestinationPrefix R1) \<or>
     (PrefixLength (DestinationPrefix R2) = PrefixLength (DestinationPrefix R1) \<and>
      TotalMetric_spec os A R1 < TotalMetric_spec os A R2)"

text \<open>
  The entry of the specification: eligible, with the longest prefix among the eligible
  rows and the lowest total metric among those, and the last in the table of the rows
  tied on both.
\<close>

definition Winner_spec ::
  "OS \<Rightarrow> ULONG64 \<Rightarrow> SOCKADDR_INET \<Rightarrow> MIB_IPFORWARD_ROW2 list \<Rightarrow> nat \<Rightarrow> bool"
where
  "Winner_spec os Luid A Table i \<longleftrightarrow>
     i < length Table \<and> Eligible_spec os Luid A (Table ! i) \<and>
     list_all (\<lambda>j. Eligible_spec os Luid A (Table ! j) \<longrightarrow>
                    NotWorse_spec os A (Table ! i) (Table ! j))
       [0..<length Table] \<and>
     list_all (\<lambda>j. Eligible_spec os Luid A (Table ! j) \<longrightarrow>
                    Better_spec os A (Table ! i) (Table ! j))
       [Suc i..<length Table]"

text \<open>
  Two properties of a forwarding table. Its prefixes are canonical: no address bit is
  set beyond the prefix length. And the total metric of a row fits the 32 bits of the
  \<open>ULONG\<close> the code adds it up in.
\<close>

definition canonical_row :: "ADDRESS_FAMILY \<Rightarrow> MIB_IPFORWARD_ROW2 \<Rightarrow> bool" where
  "canonical_row Family Row \<longleftrightarrow>
     (Family = AF_INET \<longrightarrow>
        PrefixLength (DestinationPrefix Row) = 0 \<or> canonical_v4 (DestinationPrefix Row)) \<and>
     (Family = AF_INET6 \<longrightarrow>
        PrefixLength (DestinationPrefix Row) = 0 \<or> canonical_v6 (DestinationPrefix Row))"

definition metric_fits :: "OS \<Rightarrow> SOCKADDR_INET \<Rightarrow> MIB_IPFORWARD_ROW2 \<Rightarrow> bool" where
  "metric_fits os A Row \<longleftrightarrow> TotalMetric_spec os A Row < 2 ^ 32"

text \<open>
  Scenario 3: the peer of scenario 2 and a table of four routes. Besides the two
  routes of scenario 2 there are the host route 203.0.113.7/32 through interface 9 with
  metric 1, which does not match the peer address 198.51.100.1, and a second route
  198.51.100.0/24 through interface 6 with metric 5. The interfaces 4 and 6 have the
  metric 10, the others 100.
\<close>

definition row_host32_if9 :: MIB_IPFORWARD_ROW2 where
  "row_host32_if9 =
     \<lparr>InterfaceLuid = 0x0006000000000009, InterfaceIndex = 9,
      DestinationPrefix =
        \<lparr>Prefix = zero_SOCKADDR_INET\<lparr>si_family := AF_INET, sin6_flowinfo := 0x077100CB\<rparr>,
         PrefixLength = 32\<rparr>,
      Metric = 1\<rparr>"

definition row_slash24_if6 :: MIB_IPFORWARD_ROW2 where
  "row_slash24_if6 =
     \<lparr>InterfaceLuid = 0x0006000000000006, InterfaceIndex = 6,
      DestinationPrefix =
        \<lparr>Prefix = zero_SOCKADDR_INET\<lparr>si_family := AF_INET, sin6_flowinfo := 0x006433C6\<rparr>,
         PrefixLength = 24\<rparr>,
      Metric = 5\<rparr>"

definition table_scenario3 :: "MIB_IPFORWARD_ROW2 list" where
  "table_scenario3 = [row_default_if2, row_slash24_if4, row_host32_if9, row_slash24_if6]"

definition os_scenario3 :: OS where
  "os_scenario3 = os_scenario2
     \<lparr>GetIpForwardTable2 :=
        (\<lambda>Family. if Family = AF_INET then (STATUS_SUCCESS, table_scenario3)
                  else (STATUS_SUCCESS, [])),
      GetIpInterfaceEntry :=
        (\<lambda>Family Luid. (STATUS_SUCCESS,
           if Luid = 0x0006000000000004 \<or> Luid = 0x0006000000000006 then 10 else 100))\<rparr>"

text \<open>
  A table whose only route is 198.51.100.7/24 through interface 4: the prefix address
  has bits set beyond the 24 bits of the prefix.
\<close>

definition row_hostbits_if4 :: MIB_IPFORWARD_ROW2 where
  "row_hostbits_if4 =
     \<lparr>InterfaceLuid = 0x0006000000000004, InterfaceIndex = 4,
      DestinationPrefix =
        \<lparr>Prefix = zero_SOCKADDR_INET\<lparr>si_family := AF_INET, sin6_flowinfo := 0x076433C6\<rparr>,
         PrefixLength = 24\<rparr>,
      Metric = 5\<rparr>"

definition os_hostbits :: OS where
  "os_hostbits = os_scenario2
     \<lparr>GetIpForwardTable2 :=
        (\<lambda>Family. if Family = AF_INET then (STATUS_SUCCESS, [row_hostbits_if4])
                  else (STATUS_SUCCESS, []))\<rparr>"

text \<open>
  A table with the route 198.51.100.0/24 through interface 4 (total metric 5 + 10) and
  the same prefix through interface 6 with the route metric 4294967205, whose total
  metric 4294967305 does not fit 32 bits.
\<close>

definition row_slash24_if6_huge :: MIB_IPFORWARD_ROW2 where
  "row_slash24_if6_huge =
     \<lparr>InterfaceLuid = 0x0006000000000006, InterfaceIndex = 6,
      DestinationPrefix =
        \<lparr>Prefix = zero_SOCKADDR_INET\<lparr>si_family := AF_INET, sin6_flowinfo := 0x006433C6\<rparr>,
         PrefixLength = 24\<rparr>,
      Metric = 0xFFFFFFA5\<rparr>"

definition os_wrap :: OS where
  "os_wrap = os_scenario2
     \<lparr>GetIpForwardTable2 :=
        (\<lambda>Family. if Family = AF_INET then (STATUS_SUCCESS, [row_slash24_if4, row_slash24_if6_huge])
                  else (STATUS_SUCCESS, []))\<rparr>"


section \<open>Properties of byte swapping and masks\<close>

lemma Htonl_and: "Htonl (a AND b) = Htonl a AND Htonl b"
  unfolding Htonl_def
  by (rule bit_word_eqI) (auto simp add: bit_simps)

lemma bit_Htonl: "bit (Htonl x) n \<longleftrightarrow> n < 32 \<and> bit x (bswap_idx n)"
  unfolding Htonl_def bswap_idx_def
  by (auto simp add: bit_simps add.commute)

lemma Htonl_Htonl: "Htonl (Htonl a) = a"
proof (rule bit_word_eqI)
  fix n assume "n < LENGTH(32)"
  then have n: "n < 32" by simp
  then have 1: "bswap_idx n < 32" and 2: "bswap_idx (bswap_idx n) = n"
    by (auto simp add: bswap_idx_def)
  show "bit (Htonl (Htonl a)) n = bit a n"
    by (simp add: bit_Htonl n 1 2)
qed

lemma Htonl_eq_iff: "Htonl a = Htonl b \<longleftrightarrow> a = b"
  by (metis Htonl_Htonl)

lemma mask_spec_eq: "0 < L \<Longrightarrow> (mask_spec L :: 'a::len word) = NOT (mask (LENGTH('a) - L))"
  by (simp add: mask_spec_def mask_eq_exp_minus_1 push_bit_eq_mult)

lemma bit_mask_spec:
  "bit (mask_spec L :: 'a::len word) n \<longleftrightarrow> 0 < L \<and> n < LENGTH('a) \<and> LENGTH('a) - L \<le> n"
proof (cases "L = 0")
  case True then show ?thesis by (simp add: mask_spec_def)
next
  case False then show ?thesis by (auto simp add: mask_spec_eq bit_simps)
qed

lemma and_mask_eq_iff:
  "(x AND m) = (y AND m) \<longleftrightarrow> (\<forall>n. bit m n \<longrightarrow> bit x n = bit y n)"
  for x y m :: "'a::len word"
  by (simp add: bit_eq_iff bit_and_iff) (meson bit_imp_le_length)

lemma and_mask_self_iff:
  "(x AND m) = x \<longleftrightarrow> (\<forall>n. bit x n \<longrightarrow> bit m n)"
  for x m :: "'a::len word"
  by (simp add: bit_eq_iff bit_and_iff) (meson bit_imp_le_length)

lemma masked_code_eq:
  "0 < L \<Longrightarrow> L \<le> 32 \<Longrightarrow>
     (a AND Htonl (NOT (mask (32 - L))) = p) \<longleftrightarrow> (Htonl a AND mask_spec L = Htonl p)"
proof -
  assume L: "0 < L" "L \<le> 32"
  have "(a AND Htonl (NOT (mask (32 - L))) = p)
      \<longleftrightarrow> (Htonl (a AND Htonl (NOT (mask (32 - L)))) = Htonl p)"
    by (simp add: Htonl_eq_iff)
  also have "Htonl (a AND Htonl (NOT (mask (32 - L)))) = Htonl a AND mask_spec L"
    using L by (simp add: Htonl_and Htonl_Htonl mask_spec_eq)
  finally show ?thesis .
qed

lemma CidrMaskMatchV4_spec:
  assumes "PrefixLength P \<le> 32"
    and "PrefixLength P = 0 \<or> canonical_v4 P"
  shows "CidrMaskMatchV4 A P =
     Some (CidrMatch_spec (ipv4_value A) (ipv4_value (sin_addr (Ipv4 (Prefix P)))) (PrefixLength P))"
proof (cases "PrefixLength P = 0")
  case True
  then show ?thesis by (simp add: CidrMaskMatchV4_def CidrMatch_spec_def mask_spec_def)
next
  case False
  with assms show ?thesis
    by (simp add: CidrMaskMatchV4_def CidrMatch_spec_def masked_code_eq ipv4_value_def
        canonical_v4_def)
qed

lemma bit_ipv6_value:
  fixes i k :: nat
  assumes "i < 4" "k < 32"
  shows "bit (ipv6_value a) (32 * (3 - i) + k) = bit (Htonl (In6Dword a i)) k"
proof -
  from assms consider "i = 0" | "i = 1" | "i = 2" | "i = 3" by linarith
  then show ?thesis
    using assms(2)
    by cases (auto simp add: ipv6_value_def In6Dword_def bit_simps dest: bit_imp_le_length)
qed

lemma all_bits128:
  "(\<forall>n<128. Q n) \<longleftrightarrow> (\<forall>i<4. \<forall>k<32. Q (32 * (3 - i) + k))"
  for Q :: "nat \<Rightarrow> bool"
proof
  assume "\<forall>n<128. Q n"
  then show "\<forall>i<4. \<forall>k<32. Q (32 * (3 - i) + k)" by auto
next
  assume r: "\<forall>i<4. \<forall>k<32. Q (32 * (3 - i) + k)"
  show "\<forall>n<128. Q n"
  proof (intro allI impI)
    fix n :: nat assume n: "n < 128"
    then have "3 - n div 32 < 4" "n mod 32 < 32" by simp_all
    with r have "Q (32 * (3 - (3 - n div 32)) + n mod 32)" by blast
    moreover have "3 - (3 - n div 32) = n div 32" using n by simp
    ultimately show "Q n" by simp
  qed
qed

lemma top_bits_split:
  fixes i k L :: nat
  assumes "i < 4" "k < 32" "L \<le> 128"
  shows "(128 - L \<le> 32 * (3 - i) + k) \<longleftrightarrow> (i < L div 32 \<or> (i = L div 32 \<and> 32 - L mod 32 \<le> k))"
proof -
  obtain q r where L: "L = 32 * q + r" "r < 32" "q = L div 32" "r = L mod 32"
    by (metis mod_less_divisor mult_div_mod_eq zero_less_numeral)
  from assms(1) consider "i = 0" | "i = 1" | "i = 2" | "i = 3" by linarith
  then show ?thesis
    using assms(2,3) L(1,2) unfolding L(3)[symmetric] L(4)[symmetric]
    by cases auto
qed

lemma RtlEqualMemory32_iff:
  "RtlEqualMemory32 a b n \<longleftrightarrow> (\<forall>i<n. In6Dword a i = In6Dword b i)"
  by (auto simp add: RtlEqualMemory32_def)

lemma word32_eq_Htonl_bits:
  "a = b \<longleftrightarrow> (\<forall>k<32. bit (Htonl a) k = bit (Htonl b) k)"
proof -
  have "a = b \<longleftrightarrow> Htonl a = Htonl b" by (simp add: Htonl_eq_iff)
  also have "\<dots> \<longleftrightarrow> (\<forall>k<32. bit (Htonl a) k = bit (Htonl b) k)"
    by (simp add: bit_eq_iff)
  finally show ?thesis .
qed

lemma CidrMatch_spec_v6_bits:
  assumes "L \<le> 128"
  shows "CidrMatch_spec (ipv6_value a) (ipv6_value p) L \<longleftrightarrow>
    (\<forall>i<4. \<forall>k<32. (i < L div 32 \<or> (i = L div 32 \<and> 32 - L mod 32 \<le> k)) \<longrightarrow>
        bit (Htonl (In6Dword a i)) k = bit (Htonl (In6Dword p i)) k)"
proof (cases "L = 0")
  case True
  then show ?thesis by (simp add: CidrMatch_spec_def mask_spec_def)
next
  case False
  have "CidrMatch_spec (ipv6_value a) (ipv6_value p) L \<longleftrightarrow>
      (\<forall>n<128. 128 - L \<le> n \<longrightarrow> bit (ipv6_value a) n = bit (ipv6_value p) n)"
    using False by (auto simp add: CidrMatch_spec_def and_mask_eq_iff bit_mask_spec)
  also have "\<dots> \<longleftrightarrow> (\<forall>i<4. \<forall>k<32. 128 - L \<le> 32 * (3 - i) + k \<longrightarrow>
        bit (ipv6_value a) (32 * (3 - i) + k) = bit (ipv6_value p) (32 * (3 - i) + k))"
    by (rule all_bits128)
  also have "\<dots> \<longleftrightarrow> (\<forall>i<4. \<forall>k<32. (i < L div 32 \<or> (i = L div 32 \<and> 32 - L mod 32 \<le> k)) \<longrightarrow>
        bit (Htonl (In6Dword a i)) k = bit (Htonl (In6Dword p i)) k)"
    using assms by (simp add: bit_ipv6_value top_bits_split)
  finally show ?thesis .
qed

lemma canonical_v6_bits:
  assumes "L \<le> 128" "0 < L"
  shows "(ipv6_value p AND mask_spec L = ipv6_value p) \<longleftrightarrow>
    (\<forall>i<4. \<forall>k<32. bit (Htonl (In6Dword p i)) k \<longrightarrow>
        (i < L div 32 \<or> (i = L div 32 \<and> 32 - L mod 32 \<le> k)))"
proof -
  have "(ipv6_value p AND mask_spec L = ipv6_value p) \<longleftrightarrow>
      (\<forall>n<128. bit (ipv6_value p) n \<longrightarrow> 128 - L \<le> n)"
  proof -
    have "\<And>n. bit (ipv6_value p) n \<Longrightarrow> n < 128"
      using bit_imp_le_length [of "ipv6_value p"] by simp
    then show ?thesis
      using assms(2) by (auto simp add: and_mask_self_iff bit_mask_spec)
  qed
  also have "\<dots> \<longleftrightarrow> (\<forall>i<4. \<forall>k<32. bit (ipv6_value p) (32 * (3 - i) + k) \<longrightarrow> 128 - L \<le> 32 * (3 - i) + k)"
    by (rule all_bits128)
  also have "\<dots> \<longleftrightarrow> (\<forall>i<4. \<forall>k<32. bit (Htonl (In6Dword p i)) k \<longrightarrow>
        (i < L div 32 \<or> (i = L div 32 \<and> 32 - L mod 32 \<le> k)))"
    using assms by (simp add: bit_ipv6_value top_bits_split)
  finally show ?thesis .
qed

lemma partial_word_bits:
  assumes "0 < r" "r < 32"
  shows "(a AND Htonl (NOT (mask (32 - r))) = p) \<longleftrightarrow>
     (\<forall>k<32. bit (Htonl p) k = (bit (Htonl a) k \<and> 32 - r \<le> k))"
proof -
  have "(a AND Htonl (NOT (mask (32 - r))) = p) \<longleftrightarrow> (Htonl a AND mask_spec r = Htonl p)"
    using assms by (simp add: masked_code_eq)
  also have "\<dots> \<longleftrightarrow> (\<forall>k<32. bit (Htonl p) k = (bit (Htonl a) k \<and> 32 - r \<le> k))"
    using assms by (auto simp add: bit_eq_iff bit_and_iff bit_mask_spec)
  finally show ?thesis .
qed

lemma CidrMaskMatchV6_spec:
  assumes len: "PrefixLength P \<le> 128"
    and can: "PrefixLength P = 0 \<or> canonical_v6 P"
  shows "CidrMaskMatchV6 A P =
     Some (CidrMatch_spec (ipv6_value A) (ipv6_value (sin6_addr (Prefix P))) (PrefixLength P))"
proof (cases "PrefixLength P = 0")
  case True
  then show ?thesis by (simp add: CidrMaskMatchV6_def CidrMatch_spec_def mask_spec_def)
next
  case False
  define L where "L = PrefixLength P"
  define p where "p = sin6_addr (Prefix P)"
  define q where "q = L div 32"
  define r where "r = L mod 32"
  have L: "0 < L" "L \<le> 128" using False len by (simp_all add: L_def)
  have q: "q \<le> 4" and r: "r < 32" using L by (simp_all add: q_def r_def)
  let ?N = "\<lambda>i. Htonl (In6Dword A i)" and ?M = "\<lambda>i. Htonl (In6Dword p i)"
  let ?top = "\<lambda>i k. i < q \<or> (i = q \<and> 32 - r \<le> k)"
  have K: "\<forall>i<4. \<forall>k<32. bit (?M i) k \<longrightarrow> ?top i k"
    using can False canonical_v6_bits [OF L(2) L(1), of p]
    by (simp add: canonical_v6_def L_def p_def q_def r_def)
  have R: "CidrMatch_spec (ipv6_value A) (ipv6_value p) L \<longleftrightarrow>
      (\<forall>i<4. \<forall>k<32. ?top i k \<longrightarrow> bit (?N i) k = bit (?M i) k)"
    using CidrMatch_spec_v6_bits [OF L(2), of A p] by (simp add: q_def r_def)
  have whole: "RtlEqualMemory32 p A q \<longleftrightarrow> (\<forall>i<q. \<forall>k<32. bit (?N i) k = bit (?M i) k)"
    by (simp add: RtlEqualMemory32_iff word32_eq_Htonl_bits [of "In6Dword p _"]) metis
  have code: "CidrMaskMatchV6 A P = Some (RtlEqualMemory32 p A q \<and>
      (q = 4 \<or> r = 0 \<or> (In6Dword A q AND Htonl (NOT (mask (32 - r)))) = In6Dword p q))"
    using False q by (auto simp add: CidrMaskMatchV6_def Let_def L_def p_def q_def r_def)
  have "CidrMaskMatchV6 A P = Some (CidrMatch_spec (ipv6_value A) (ipv6_value p) L)"
  proof (cases "q = 4 \<or> r = 0")
    case True
    have "(\<forall>i<4. \<forall>k<32. ?top i k \<longrightarrow> bit (?N i) k = bit (?M i) k) \<longleftrightarrow>
          (\<forall>i<q. \<forall>k<32. bit (?N i) k = bit (?M i) k)"
      using True q by (auto; metis)
    then have "CidrMatch_spec (ipv6_value A) (ipv6_value p) L \<longleftrightarrow> RtlEqualMemory32 p A q"
      by (simp only: R whole)
    moreover have "(RtlEqualMemory32 p A q \<and>
      (q = 4 \<or> r = 0 \<or> (In6Dword A q AND Htonl (NOT (mask (32 - r)))) = In6Dword p q))
       \<longleftrightarrow> RtlEqualMemory32 p A q"
      using True by blast
    ultimately show ?thesis by (simp only: code)
  next
    case False
    then have q4: "q < 4" and r0: "0 < r" using q by simp_all
    have part: "(In6Dword A q AND Htonl (NOT (mask (32 - r))) = In6Dword p q) \<longleftrightarrow>
       (\<forall>k<32. bit (?M q) k = (bit (?N q) k \<and> 32 - r \<le> k))"
      using partial_word_bits [OF r0 r] by simp
    have "(\<forall>i<4. \<forall>k<32. ?top i k \<longrightarrow> bit (?N i) k = bit (?M i) k) \<longleftrightarrow>
          (\<forall>i<q. \<forall>k<32. bit (?N i) k = bit (?M i) k) \<and>
          (\<forall>k<32. bit (?M q) k = (bit (?N q) k \<and> 32 - r \<le> k))"
      (is "?lhs \<longleftrightarrow> ?w \<and> ?pt")
    proof
      assume a: ?lhs
      have ?w using a q4 by auto
      moreover have ?pt
      proof (intro allI impI)
        fix k :: nat assume k: "k < 32"
        show "bit (?M q) k = (bit (?N q) k \<and> 32 - r \<le> k)"
        proof (cases "32 - r \<le> k")
          case True
          with a q4 k show ?thesis by auto
        next
          case False
          with K q4 k have "\<not> bit (?M q) k" by auto
          with False show ?thesis by simp
        qed
      qed
      ultimately show "?w \<and> ?pt" ..
    next
      assume b: "?w \<and> ?pt"
      then show ?lhs by auto
    qed
    then have "CidrMatch_spec (ipv6_value A) (ipv6_value p) L \<longleftrightarrow>
        RtlEqualMemory32 p A q \<and> (In6Dword A q AND Htonl (NOT (mask (32 - r))) = In6Dword p q)"
      by (simp only: R whole part)
    moreover have "(RtlEqualMemory32 p A q \<and>
      (q = 4 \<or> r = 0 \<or> (In6Dword A q AND Htonl (NOT (mask (32 - r)))) = In6Dword p q))
       \<longleftrightarrow> RtlEqualMemory32 p A q \<and> (In6Dword A q AND Htonl (NOT (mask (32 - r))) = In6Dword p q)"
      using False by blast
    ultimately show ?thesis by (simp only: code)
  qed
  then show ?thesis by (simp only: L_def p_def)
qed

section \<open>C2: the CIDR match against the reference definition\<close>

text \<open>
  C2, as amended. For every IPv4 address and every prefix of a length up to 32, and for
  every IPv6 address and every prefix of a length up to 128, whose prefix address has
  no bit set beyond the prefix length (or whose length is zero), the CIDR-match
  predicate of the resolver equals the reference definition
  \<open>(A & mask(L)) = (P.addr & mask(L))\<close>; and a zero-length prefix matches every
  address.
\<close>

theorem CidrMaskMatch_refines_spec:
  "(PrefixLength P \<le> 32 \<longrightarrow> (PrefixLength P = 0 \<or> canonical_v4 P) \<longrightarrow>
      CidrMaskMatchV4 A4 P =
        Some (CidrMatch_spec (ipv4_value A4) (ipv4_value (sin_addr (Ipv4 (Prefix P)))) (PrefixLength P)))
   \<and> (PrefixLength P \<le> 128 \<longrightarrow> (PrefixLength P = 0 \<or> canonical_v6 P) \<longrightarrow>
      CidrMaskMatchV6 A6 P =
        Some (CidrMatch_spec (ipv6_value A6) (ipv6_value (sin6_addr (Prefix P))) (PrefixLength P)))
   \<and> (PrefixLength P = 0 \<longrightarrow> CidrMaskMatchV4 A4 P = Some True \<and> CidrMaskMatchV6 A6 P = Some True)"
proof (intro conjI impI)
  assume "PrefixLength P \<le> 32" "PrefixLength P = 0 \<or> canonical_v4 P"
  then show "CidrMaskMatchV4 A4 P =
        Some (CidrMatch_spec (ipv4_value A4) (ipv4_value (sin_addr (Ipv4 (Prefix P)))) (PrefixLength P))"
    by (rule CidrMaskMatchV4_spec)
next
  assume "PrefixLength P \<le> 128" "PrefixLength P = 0 \<or> canonical_v6 P"
  then show "CidrMaskMatchV6 A6 P =
        Some (CidrMatch_spec (ipv6_value A6) (ipv6_value (sin6_addr (Prefix P))) (PrefixLength P))"
    by (rule CidrMaskMatchV6_spec)
next
  assume "PrefixLength P = 0"
  then show "CidrMaskMatchV4 A4 P = Some True" by (simp add: CidrMaskMatchV4_def)
next
  assume "PrefixLength P = 0"
  then show "CidrMaskMatchV6 A6 P = Some True" by (simp add: CidrMaskMatchV6_def)
qed

lemma canonical_v4_prefix_10_slash_8: "canonical_v4 prefix_10_slash_8"
  by code_simp

lemma canonical_v6_prefix_2001_db8_slash_32: "canonical_v6 prefix_2001_db8_slash_32"
  by code_simp

text \<open>
  The theorem at 10.1.2.3 in 10.0.0.0/8 and at 2001:db8::1 in 2001:db8::/32.
\<close>

theorem CidrMaskMatch_refines_spec_witness:
  "CidrMaskMatchV4 addr_10_1_2_3 prefix_10_slash_8 = Some True
   \<and> CidrMatch_spec (ipv4_value addr_10_1_2_3) (ipv4_value (sin_addr (Ipv4 (Prefix prefix_10_slash_8)))) 8
   \<and> CidrMaskMatchV6 addr_2001_db8_1 prefix_2001_db8_slash_32 = Some True
   \<and> CidrMatch_spec (ipv6_value addr_2001_db8_1) (ipv6_value (sin6_addr (Prefix prefix_2001_db8_slash_32))) 32"
proof -
  have 4: "PrefixLength prefix_10_slash_8 \<le> 32" "PrefixLength prefix_10_slash_8 = 0 \<or> canonical_v4 prefix_10_slash_8"
    by (simp_all add: canonical_v4_prefix_10_slash_8) (simp add: prefix_10_slash_8_def)
  have 6: "PrefixLength prefix_2001_db8_slash_32 \<le> 128" "PrefixLength prefix_2001_db8_slash_32 = 0 \<or> canonical_v6 prefix_2001_db8_slash_32"
    by (simp_all add: canonical_v6_prefix_2001_db8_slash_32) (simp add: prefix_2001_db8_slash_32_def)
  have a: "CidrMaskMatchV4 addr_10_1_2_3 prefix_10_slash_8 = Some True"
    by code_simp
  have b: "CidrMaskMatchV6 addr_2001_db8_1 prefix_2001_db8_slash_32 = Some True"
    by code_simp
  from CidrMaskMatch_refines_spec [of prefix_10_slash_8 addr_10_1_2_3 addr_2001_db8_1] 4 a
  have c: "CidrMatch_spec (ipv4_value addr_10_1_2_3) (ipv4_value (sin_addr (Ipv4 (Prefix prefix_10_slash_8)))) 8"
    by (simp add: prefix_10_slash_8_def)
  from CidrMaskMatch_refines_spec [of prefix_2001_db8_slash_32 addr_10_1_2_3 addr_2001_db8_1] 6 b
  have d: "CidrMatch_spec (ipv6_value addr_2001_db8_1) (ipv6_value (sin6_addr (Prefix prefix_2001_db8_slash_32))) 32"
    by (simp add: prefix_2001_db8_slash_32_def)
  from a b c d show ?thesis by simp
qed

text \<open>
  C2 as stated fails for a prefix with host bits: the address 10.0.0.0 and the prefix
  10.0.0.1/8 agree on their first eight bits, so the reference definition holds, but
  \<open>CidrMaskMatchV4\<close> compares the masked address with the whole prefix address and
  answers no.
\<close>

theorem CidrMaskMatch_host_bits_counterexample:
  "CidrMaskMatchV4 addr_10_0_0_0 prefix_10_0_0_1_slash_8 = Some False
   \<and> CidrMatch_spec (ipv4_value addr_10_0_0_0)
        (ipv4_value (sin_addr (Ipv4 (Prefix prefix_10_0_0_1_slash_8))))
        (PrefixLength prefix_10_0_0_1_slash_8)"
  by code_simp

section \<open>C3: the fast path of the resolver\<close>

text \<open>
  C3. For every peer whose endpoint has the family IPv4 or IPv6, a cached
  \<open>RoutingGeneration\<close> equal to the global counter of that family and a non-zero source
  interface index for that family, \<open>SocketResolvePeerEndpointSrc\<close> returns success
  after taking the shared lock and doing nothing else: the trace grows by that
  acquisition only (no call to the operating system), the endpoint and everything
  else is as before, and the lock is held in shared mode.
\<close>

theorem SocketResolvePeerEndpointSrc_fast_path:
  assumes "(si_family (Addr (Peer_Endpoint w)) = AF_INET \<and>
            RoutingGeneration (Peer_Endpoint w) = RoutingGenerationV4 w \<and>
            ipi_ifindex (Src4 (Peer_Endpoint w)) \<noteq> 0) \<or>
           (si_family (Addr (Peer_Endpoint w)) = AF_INET6 \<and>
            RoutingGeneration (Peer_Endpoint w) = RoutingGenerationV6 w \<and>
            ipi6_ifindex (Src6 (Peer_Endpoint w)) \<noteq> 0)"
  shows "SocketResolvePeerEndpointSrc (Suc fuel) os w =
           Some (STATUS_SUCCESS,
                 w\<lparr>Peer_EndpointLock := HeldShared,
                   Trace := Trace w @ [Ev_ExAcquireSpinLockShared]\<rparr>)
         \<and> NT_SUCCESS STATUS_SUCCESS"
proof -
  have "ResolveFastPath (ExAcquireSpinLockShared w)"
    using assms by (simp add: ResolveFastPath_def ExAcquireSpinLockShared_def emit_def)
  then have "ResolvePass os w = Some (Return STATUS_SUCCESS, ExAcquireSpinLockShared w)"
    by (simp add: ResolvePass_def Let_def)
  then show ?thesis
    by (simp add: ExAcquireSpinLockShared_def emit_def NT_SUCCESS_def STATUS_SUCCESS_def)
qed

text \<open>Scenario 1 of the specification.\<close>

theorem SocketResolvePeerEndpointSrc_fast_path_witness:
  "SocketResolvePeerEndpointSrc 1 os_scenario2 world_scenario1 =
     Some (STATUS_SUCCESS,
           world_scenario1\<lparr>Peer_EndpointLock := HeldShared,
                            Trace := [Ev_ExAcquireSpinLockShared]\<rparr>)"
proof -
  have "si_family (Addr (Peer_Endpoint world_scenario1)) = AF_INET \<and>
        RoutingGeneration (Peer_Endpoint world_scenario1) = RoutingGenerationV4 world_scenario1 \<and>
        ipi_ifindex (Src4 (Peer_Endpoint world_scenario1)) \<noteq> 0"
    by (simp add: world_scenario1_def endpoint_scenario1_def zero_SOCKADDR_INET_def Src4_def
        zero_IN6_PKTINFO_def zero_IN6_ADDR_def)
  then show ?thesis
    using SocketResolvePeerEndpointSrc_fast_path [of world_scenario1 0 os_scenario2]
    by (simp add: world_scenario1_def)
qed

section \<open>C6: the empty chain\<close>

text \<open>
  C6. When the chain is empty (a null \<open>First\<close>), \<open>SocketSendNblsToPeer\<close> returns
  \<open>STATUS_ALREADY_COMPLETE\<close> and the state is as before: no send context is allocated,
  the endpoint is not resolved, nothing is freed, and neither the peer's nor the
  device's statistics change. The caller's flag is left as it was.
\<close>

theorem SocketSendNblsToPeer_empty_chain:
  "SocketSendNblsToPeer KeepaliveLen fuel os w [] AllKeepalive =
     Some (STATUS_ALREADY_COMPLETE, AllKeepalive, w)"
  by (simp add: SocketSendNblsToPeer_def)

theorem SocketSendNblsToPeer_empty_chain_witness:
  "SocketSendNblsToPeer 32 0 os_scenario2 world_scenario2 [] True =
     Some (STATUS_ALREADY_COMPLETE, True, world_scenario2)"
  by (rule SocketSendNblsToPeer_empty_chain)

section \<open>C7 and C10: setting the endpoint of a peer\<close>

lemma In6Qword_eq_iff:
  "In6Qword a 0 = In6Qword b 0 \<and> In6Qword a 1 = In6Qword b 1 \<longleftrightarrow> a = b"
proof -
  have cat: "(push_bit 32 (ucast x) OR ucast y :: 64 word) = push_bit 32 (ucast x') OR ucast y'
      \<longleftrightarrow> x = x' \<and> y = y'" for x y x' y' :: "32 word"
  proof
    assume e: "(push_bit 32 (ucast x) OR ucast y :: 64 word) = push_bit 32 (ucast x') OR ucast y'"
    have "y = ucast (push_bit 32 (ucast x) OR ucast y :: 64 word)"
      by (rule bit_word_eqI) (auto simp add: bit_simps)
    moreover have "y' = ucast (push_bit 32 (ucast x') OR ucast y' :: 64 word)"
      by (rule bit_word_eqI) (auto simp add: bit_simps)
    moreover have "x = ucast (drop_bit 32 (push_bit 32 (ucast x) OR ucast y :: 64 word))"
      by (rule bit_word_eqI) (auto simp add: bit_simps dest: bit_imp_le_length)
    moreover have "x' = ucast (drop_bit 32 (push_bit 32 (ucast x') OR ucast y' :: 64 word))"
      by (rule bit_word_eqI) (auto simp add: bit_simps dest: bit_imp_le_length)
    ultimately show "x = x' \<and> y = y'" using e by metis
  qed simp
  show ?thesis
    by (auto simp add: In6Qword_def cat intro: IN6_ADDR.equality)
qed

lemma word_xor_eq_0_iff: "x XOR y = 0 \<longleftrightarrow> x = y" for x y :: "'a::len word"
  by (metis xor.right_neutral xor_self_eq xor.assoc xor.left_neutral)

lemma Ipv6AddrEq_iff: "Ipv6AddrEq a b \<longleftrightarrow> a = b"
proof -
  have "Ipv6AddrEq a b \<longleftrightarrow> In6Qword a 0 = In6Qword b 0 \<and> In6Qword a 1 = In6Qword b 1"
    by (simp add: Ipv6AddrEq_def or_eq_0_iff word_xor_eq_0_iff)
  then show ?thesis using In6Qword_eq_iff [of a b] by blast
qed

text \<open>
  C7. For every peer and endpoint, if the new endpoint equals the peer's current one
  under \<open>EndpointEq\<close> (both IPv4 with equal port, address, source address and source
  interface index; both IPv6 with equal port, address, scope id, source address and
  source interface index; or both unset), \<open>SocketSetPeerEndpoint\<close> returns at once: the
  state is as before, so the lock was not taken and no field of the peer's endpoint,
  \<open>UpdateGeneration\<close> included, has changed. The equality is the one the statement
  spells out.
\<close>

theorem SocketSetPeerEndpoint_equal_noop:
  "(EndpointEq e (Peer_Endpoint w) \<longrightarrow> SocketSetPeerEndpoint e w = w)
   \<and> (EndpointEq e p \<longleftrightarrow>
        (si_family (Addr e) = AF_INET \<and> si_family (Addr p) = AF_INET \<and>
         sin6_port (Addr e) = sin6_port (Addr p) \<and>
         sin6_flowinfo (Addr e) = sin6_flowinfo (Addr p) \<and>
         Src4 e = Src4 p) \<or>
        (si_family (Addr e) = AF_INET6 \<and> si_family (Addr p) = AF_INET6 \<and>
         sin6_port (Addr e) = sin6_port (Addr p) \<and>
         sin6_addr (Addr e) = sin6_addr (Addr p) \<and>
         sin6_scope_id (Addr e) = sin6_scope_id (Addr p) \<and>
         Src6 e = Src6 p) \<or>
        (si_family (Addr e) = 0 \<and> si_family (Addr p) = 0))"
proof (intro conjI impI)
  assume "EndpointEq e (Peer_Endpoint w)"
  then show "SocketSetPeerEndpoint e w = w" by (simp add: SocketSetPeerEndpoint_def)
next
  show "EndpointEq e p \<longleftrightarrow>
        (si_family (Addr e) = AF_INET \<and> si_family (Addr p) = AF_INET \<and>
         sin6_port (Addr e) = sin6_port (Addr p) \<and>
         sin6_flowinfo (Addr e) = sin6_flowinfo (Addr p) \<and>
         Src4 e = Src4 p) \<or>
        (si_family (Addr e) = AF_INET6 \<and> si_family (Addr p) = AF_INET6 \<and>
         sin6_port (Addr e) = sin6_port (Addr p) \<and>
         sin6_addr (Addr e) = sin6_addr (Addr p) \<and>
         sin6_scope_id (Addr e) = sin6_scope_id (Addr p) \<and>
         Src6 e = Src6 p) \<or>
        (si_family (Addr e) = 0 \<and> si_family (Addr p) = 0)"
    by (auto simp add: EndpointEq_def Ipv6AddrEq_iff Ipv4_def Src4_def
        intro: IN6_PKTINFO.equality)
qed

text \<open>Scenario 6 of the specification: the peer is given its own endpoint.\<close>

theorem SocketSetPeerEndpoint_equal_noop_witness:
  "EndpointEq endpoint_scenario1 (Peer_Endpoint world_scenario1)
   \<and> SocketSetPeerEndpoint endpoint_scenario1 world_scenario1 = world_scenario1"
proof -
  have eq: "EndpointEq endpoint_scenario1 (Peer_Endpoint world_scenario1)"
    by (simp add: EndpointEq_def world_scenario1_def endpoint_scenario1_def
        zero_SOCKADDR_INET_def)
  with SocketSetPeerEndpoint_equal_noop [of endpoint_scenario1 world_scenario1]
  show ?thesis by simp
qed

text \<open>
  C10. For every peer and endpoint whose family is neither IPv4 nor IPv6 and which is
  not equal to the peer's current endpoint under \<open>EndpointEq\<close>,
  \<open>SocketSetPeerEndpoint\<close> takes the exclusive lock and releases it, and writes
  nothing: the peer's endpoint, with \<open>RoutingGeneration\<close> and \<open>UpdateGeneration\<close>, is
  as before, and so is everything else but the trace of the two lock operations.
\<close>

theorem SocketSetPeerEndpoint_invalid_family:
  assumes "si_family (Addr e) \<noteq> AF_INET" and "si_family (Addr e) \<noteq> AF_INET6"
    and "\<not> EndpointEq e (Peer_Endpoint w)"
  shows "SocketSetPeerEndpoint e w =
           w\<lparr>Peer_EndpointLock := NotHeld,
             Trace := Trace w @ [Ev_ExAcquireSpinLockExclusive, Ev_ExReleaseSpinLockExclusive]\<rparr>
         \<and> Peer_Endpoint (SocketSetPeerEndpoint e w) = Peer_Endpoint w"
  using assms
  by (simp add: SocketSetPeerEndpoint_def Let_def ExAcquireSpinLockExclusive_def
      ExReleaseSpinLockExclusive_def emit_def)

theorem SocketSetPeerEndpoint_invalid_family_witness:
  "SocketSetPeerEndpoint endpoint_family5 world_scenario1 =
     world_scenario1\<lparr>Peer_EndpointLock := NotHeld,
       Trace := [Ev_ExAcquireSpinLockExclusive, Ev_ExReleaseSpinLockExclusive]\<rparr>
   \<and> Peer_Endpoint (SocketSetPeerEndpoint endpoint_family5 world_scenario1) = endpoint_scenario1"
proof -
  have 1: "si_family (Addr endpoint_family5) \<noteq> AF_INET"
    and 2: "si_family (Addr endpoint_family5) \<noteq> AF_INET6"
    by (simp_all add: endpoint_family5_def AF_INET_def AF_INET6_def)
  have 3: "\<not> EndpointEq endpoint_family5 (Peer_Endpoint world_scenario1)"
    by (simp add: EndpointEq_def endpoint_family5_def AF_INET_def AF_INET6_def)
  from SocketSetPeerEndpoint_invalid_family [OF 1 2 3]
  show ?thesis by (simp add: world_scenario1_def)
qed

section \<open>C8: the endpoint of a datagram\<close>

lemma FindInCmsgHdr_loop_wf:
  "wf_control Len ms \<Longrightarrow> FindInCmsgHdr_loop Len ms Level Type = Some (find (is_cmsg Level Type) ms)"
proof (induction ms arbitrary: Len)
  case Nil
  then show ?case by simp
next
  case (Cons m ms)
  from Cons.prems have a: "0 < WSA_CMSGHDR_ALIGN (cmsg_len (Hdr m))"
    and b: "WSA_CMSGHDR_ALIGN (cmsg_len (Hdr m)) \<le> Len"
    and c: "wf_control (Len - WSA_CMSGHDR_ALIGN (cmsg_len (Hdr m))) ms"
    by simp_all
  from a b have "0 < Len" by (metis not_le word_gt_0 word_le_0_iff)
  with a Cons.IH [OF c] show ?case
    by (auto simp add: is_cmsg_def)
qed

lemma FindInCmsgHdr_wf:
  assumes "wf_datagram Data"
  shows "FindInCmsgHdr Data Level Type =
     Some (case ControlInfo Data of None \<Rightarrow> None | Some ms \<Rightarrow> find (is_cmsg Level Type) ms)"
  using assms
  by (simp add: FindInCmsgHdr_def wf_datagram_def FindInCmsgHdr_loop_wf split: option.splits)

lemma FindInCmsgHdr_None_iff:
  assumes "wf_datagram Data"
  shows "FindInCmsgHdr Data Level Type = Some None \<longleftrightarrow> \<not> HasCmsg Data Level Type"
  using assms
  by (auto simp add: FindInCmsgHdr_wf HasCmsg_def find_None_iff list_ex_iff split: option.splits)

lemma FindInCmsgHdr_Some:
  assumes "wf_datagram Data" and "FindInCmsgHdr Data Level Type = Some (Some m)"
  shows "is_cmsg Level Type m \<and> HasCmsg Data Level Type
    \<and> (is_cmsg IPPROTO_IP IP_PKTINFO m \<longrightarrow> 2 \<le> length (CmsgData m))
    \<and> (is_cmsg IPPROTO_IPV6 IPV6_PKTINFO m \<longrightarrow> 5 \<le> length (CmsgData m))"
proof -
  from assms obtain ms where ms: "ControlInfo Data = Some ms"
    and f: "find (is_cmsg Level Type) ms = Some m"
    by (auto simp add: FindInCmsgHdr_wf split: option.splits)
  from f have m: "m \<in> set ms" and p: "is_cmsg Level Type m"
    by (auto simp add: find_Some_iff)
  from assms(1) ms m have
    "(is_cmsg IPPROTO_IP IP_PKTINFO m \<longrightarrow> 2 \<le> length (CmsgData m)) \<and>
     (is_cmsg IPPROTO_IPV6 IPV6_PKTINFO m \<longrightarrow> 5 \<le> length (CmsgData m))"
    by (auto simp add: wf_datagram_def list_all_iff)
  with ms m p show ?thesis by (auto simp add: HasCmsg_def list_ex_iff)
qed

lemma read_IN_PKTINFO_Some: "2 \<le> length ds \<Longrightarrow> \<exists>p. read_IN_PKTINFO ds = Some p"
  by (cases ds; cases "tl ds") (auto simp add: read_IN_PKTINFO_def)

lemma read_IN6_PKTINFO_Some: "5 \<le> length ds \<Longrightarrow> \<exists>p. read_IN6_PKTINFO ds = Some p"
proof -
  assume "5 \<le> length ds"
  then have "Suc (Suc (Suc (Suc (Suc 0)))) \<le> length ds" by simp
  then obtain a0 a1 a2 a3 i rest where "ds = a0 # a1 # a2 # a3 # i # rest"
    by (auto simp add: Suc_le_length_iff)
  then show ?thesis by (simp add: read_IN6_PKTINFO_def)
qed

lemma SocketEndpointFromNbl_prior:
  "SocketEndpointFromNbl GenV4 GenV6 E0 Data = SocketEndpointFromNbl GenV4 GenV6 E1 Data"
  by (simp add: SocketEndpointFromNbl_def RtlZeroMemory_ENDPOINT_def)

lemma STATUS_SUCCESS_not_INVALID_ADDRESS: "STATUS_SUCCESS \<noteq> STATUS_INVALID_ADDRESS"
  by (simp add: STATUS_SUCCESS_def STATUS_INVALID_ADDRESS_def)

lemma AF_INET_not_AF_INET6: "AF_INET \<noteq> AF_INET6"
  by (simp add: AF_INET_def AF_INET6_def)

lemma SocketEndpointFromNbl_status:
  assumes wf: "wf_datagram Data"
  shows "\<exists>Status E. SocketEndpointFromNbl GenV4 GenV6 E0 Data = Some (Status, E)
     \<and> (Status = STATUS_SUCCESS \<or> Status = STATUS_INVALID_ADDRESS)
     \<and> (Status = STATUS_INVALID_ADDRESS \<longleftrightarrow>
          (si_family (RemoteAddress Data) \<noteq> AF_INET \<and> si_family (RemoteAddress Data) \<noteq> AF_INET6)
        \<or> (si_family (RemoteAddress Data) = AF_INET \<and> \<not> HasCmsg Data IPPROTO_IP IP_PKTINFO)
        \<or> (si_family (RemoteAddress Data) = AF_INET6 \<and> \<not> HasCmsg Data IPPROTO_IPV6 IPV6_PKTINFO))"
proof -
  consider (v4) "si_family (RemoteAddress Data) = AF_INET"
    | (v6) "si_family (RemoteAddress Data) = AF_INET6"
    | (other) "si_family (RemoteAddress Data) \<noteq> AF_INET" "si_family (RemoteAddress Data) \<noteq> AF_INET6"
    by blast
  then show ?thesis
  proof cases
    case v4
    show ?thesis
    proof (cases "HasCmsg Data IPPROTO_IP IP_PKTINFO")
      case False
      then have "FindInCmsgHdr Data IPPROTO_IP IP_PKTINFO = Some None"
        using wf by (simp add: FindInCmsgHdr_None_iff)
      with v4 False show ?thesis
        by (simp add: SocketEndpointFromNbl_def Let_def AF_INET_not_AF_INET6)
    next
      case True
      then have "FindInCmsgHdr Data IPPROTO_IP IP_PKTINFO \<noteq> Some None"
        using wf by (simp add: FindInCmsgHdr_None_iff)
      then obtain m where m: "FindInCmsgHdr Data IPPROTO_IP IP_PKTINFO = Some (Some m)"
        using FindInCmsgHdr_wf [OF wf, of IPPROTO_IP IP_PKTINFO] by (cases "FindInCmsgHdr Data IPPROTO_IP IP_PKTINFO") auto
      from FindInCmsgHdr_Some [OF wf m] obtain p where "read_IN_PKTINFO (CmsgData m) = Some p"
        using read_IN_PKTINFO_Some by blast
      with v4 True m show ?thesis
        by (simp add: SocketEndpointFromNbl_def Let_def AF_INET_not_AF_INET6
            STATUS_SUCCESS_not_INVALID_ADDRESS)
    qed
  next
    case v6
    then have n4: "si_family (RemoteAddress Data) \<noteq> AF_INET"
      using AF_INET_not_AF_INET6 by simp
    show ?thesis
    proof (cases "HasCmsg Data IPPROTO_IPV6 IPV6_PKTINFO")
      case False
      then have "FindInCmsgHdr Data IPPROTO_IPV6 IPV6_PKTINFO = Some None"
        using wf by (simp add: FindInCmsgHdr_None_iff)
      with v6 n4 False show ?thesis
        by (simp add: SocketEndpointFromNbl_def Let_def)
    next
      case True
      then have "FindInCmsgHdr Data IPPROTO_IPV6 IPV6_PKTINFO \<noteq> Some None"
        using wf by (simp add: FindInCmsgHdr_None_iff)
      then obtain m where m: "FindInCmsgHdr Data IPPROTO_IPV6 IPV6_PKTINFO = Some (Some m)"
        using FindInCmsgHdr_wf [OF wf, of IPPROTO_IPV6 IPV6_PKTINFO]
        by (cases "FindInCmsgHdr Data IPPROTO_IPV6 IPV6_PKTINFO") auto
      from FindInCmsgHdr_Some [OF wf m] obtain p where "read_IN6_PKTINFO (CmsgData m) = Some p"
        using read_IN6_PKTINFO_Some by blast
      with v6 n4 True m show ?thesis
        by (simp add: SocketEndpointFromNbl_def Let_def STATUS_SUCCESS_not_INVALID_ADDRESS)
    qed
  next
    case other
    then show ?thesis
      by (simp add: SocketEndpointFromNbl_def Let_def)
  qed
qed

text \<open>
  C8. \<open>SocketEndpointFromNbl\<close> is idempotent: for fixed global counters and a fixed
  datagram the result does not depend on what the output structure held before, so
  applying it again to its own output gives the same status and the same endpoint
  (every byte of which was zeroed or written by the call). For a datagram as the kernel
  delivers it the call returns, the status is \<open>STATUS_SUCCESS\<close> or
  \<open>STATUS_INVALID_ADDRESS\<close>, and it is \<open>STATUS_INVALID_ADDRESS\<close> exactly when the
  family is neither IPv4 nor IPv6 or the pkt-info message of the family is not in the
  control buffer.
\<close>

theorem SocketEndpointFromNbl_idempotent:
  "SocketEndpointFromNbl GenV4 GenV6 E0 Data = SocketEndpointFromNbl GenV4 GenV6 E1 Data
   \<and> (wf_datagram Data \<longrightarrow>
       (\<exists>Status E. SocketEndpointFromNbl GenV4 GenV6 E0 Data = Some (Status, E)
          \<and> SocketEndpointFromNbl GenV4 GenV6 E Data = Some (Status, E)
          \<and> (Status = STATUS_SUCCESS \<or> Status = STATUS_INVALID_ADDRESS)
          \<and> (Status = STATUS_INVALID_ADDRESS \<longleftrightarrow>
               (si_family (RemoteAddress Data) \<noteq> AF_INET \<and>
                si_family (RemoteAddress Data) \<noteq> AF_INET6)
             \<or> (si_family (RemoteAddress Data) = AF_INET \<and>
                \<not> HasCmsg Data IPPROTO_IP IP_PKTINFO)
             \<or> (si_family (RemoteAddress Data) = AF_INET6 \<and>
                \<not> HasCmsg Data IPPROTO_IPV6 IPV6_PKTINFO))))"
proof (intro conjI impI)
  show "SocketEndpointFromNbl GenV4 GenV6 E0 Data = SocketEndpointFromNbl GenV4 GenV6 E1 Data"
    by (rule SocketEndpointFromNbl_prior)
next
  assume wf: "wf_datagram Data"
  from SocketEndpointFromNbl_status [OF wf, of GenV4 GenV6 E0]
  obtain Status E where r: "SocketEndpointFromNbl GenV4 GenV6 E0 Data = Some (Status, E)"
    and s: "Status = STATUS_SUCCESS \<or> Status = STATUS_INVALID_ADDRESS"
    and i: "Status = STATUS_INVALID_ADDRESS \<longleftrightarrow>
          (si_family (RemoteAddress Data) \<noteq> AF_INET \<and> si_family (RemoteAddress Data) \<noteq> AF_INET6)
        \<or> (si_family (RemoteAddress Data) = AF_INET \<and> \<not> HasCmsg Data IPPROTO_IP IP_PKTINFO)
        \<or> (si_family (RemoteAddress Data) = AF_INET6 \<and> \<not> HasCmsg Data IPPROTO_IPV6 IPV6_PKTINFO)"
    by blast
  from r have r': "SocketEndpointFromNbl GenV4 GenV6 E Data = Some (Status, E)"
    using SocketEndpointFromNbl_prior [of GenV4 GenV6 E Data E0] by simp
  from r r' s i show "\<exists>Status E. SocketEndpointFromNbl GenV4 GenV6 E0 Data = Some (Status, E)
          \<and> SocketEndpointFromNbl GenV4 GenV6 E Data = Some (Status, E)
          \<and> (Status = STATUS_SUCCESS \<or> Status = STATUS_INVALID_ADDRESS)
          \<and> (Status = STATUS_INVALID_ADDRESS \<longleftrightarrow>
               (si_family (RemoteAddress Data) \<noteq> AF_INET \<and>
                si_family (RemoteAddress Data) \<noteq> AF_INET6)
             \<or> (si_family (RemoteAddress Data) = AF_INET \<and>
                \<not> HasCmsg Data IPPROTO_IP IP_PKTINFO)
             \<or> (si_family (RemoteAddress Data) = AF_INET6 \<and>
                \<not> HasCmsg Data IPPROTO_IPV6 IPV6_PKTINFO))"
    by blast
qed

lemma wf_datagram_scenario1: "wf_datagram datagram_scenario1"
  by code_simp

lemma SocketEndpointFromNbl_scenario1:
  "SocketEndpointFromNbl 7 1 endpoint_unset datagram_scenario1 = Some (STATUS_SUCCESS, endpoint_scenario1)"
  by code_simp

theorem SocketEndpointFromNbl_idempotent_witness:
  "wf_datagram datagram_scenario1
   \<and> SocketEndpointFromNbl 7 1 endpoint_unset datagram_scenario1 = Some (STATUS_SUCCESS, endpoint_scenario1)
   \<and> SocketEndpointFromNbl 7 1 endpoint_scenario1 datagram_scenario1 = Some (STATUS_SUCCESS, endpoint_scenario1)
   \<and> HasCmsg datagram_scenario1 IPPROTO_IP IP_PKTINFO"
proof -
  from SocketEndpointFromNbl_idempotent [of 7 1 endpoint_unset datagram_scenario1 endpoint_scenario1]
  have "SocketEndpointFromNbl 7 1 endpoint_scenario1 datagram_scenario1 =
        SocketEndpointFromNbl 7 1 endpoint_unset datagram_scenario1"
    by simp
  moreover have "HasCmsg datagram_scenario1 IPPROTO_IP IP_PKTINFO" by code_simp
  ultimately show ?thesis
    by (simp add: wf_datagram_scenario1 SocketEndpointFromNbl_scenario1)
qed

section \<open>The routing generation counters are odd\<close>

subsection \<open>Only the route notification writes the counters\<close>

lemma gens_emit [simp]:
  "RoutingGenerationV4 (emit evs w) = RoutingGenerationV4 w"
  "RoutingGenerationV6 (emit evs w) = RoutingGenerationV6 w"
  by (simp_all add: emit_def)

lemma gens_locks [simp]:
  "RoutingGenerationV4 (ExAcquireSpinLockShared w) = RoutingGenerationV4 w"
  "RoutingGenerationV6 (ExAcquireSpinLockShared w) = RoutingGenerationV6 w"
  "RoutingGenerationV4 (ExAcquireSpinLockExclusive w) = RoutingGenerationV4 w"
  "RoutingGenerationV6 (ExAcquireSpinLockExclusive w) = RoutingGenerationV6 w"
  "RoutingGenerationV4 (ExReleaseSpinLockShared w) = RoutingGenerationV4 w"
  "RoutingGenerationV6 (ExReleaseSpinLockShared w) = RoutingGenerationV6 w"
  "RoutingGenerationV4 (ExReleaseSpinLockExclusive w) = RoutingGenerationV4 w"
  "RoutingGenerationV6 (ExReleaseSpinLockExclusive w) = RoutingGenerationV6 w"
  by (simp_all add: ExAcquireSpinLockShared_def ExAcquireSpinLockExclusive_def
      ExReleaseSpinLockShared_def ExReleaseSpinLockExclusive_def)

lemma gens_OtherThreads [simp]:
  "RoutingGenerationV4 (OtherThreads w) = RoutingGenerationV4 w"
  "RoutingGenerationV6 (OtherThreads w) = RoutingGenerationV6 w"
  by (simp_all add: OtherThreads_def split: list.splits)







lemma gens_SendComplete [simp]:
  "RoutingGenerationV4 (SendComplete Ctx w) = RoutingGenerationV4 w"
  "RoutingGenerationV6 (SendComplete Ctx w) = RoutingGenerationV6 w"
  by (simp_all add: SendComplete_def)

lemma gens_SocketSetPeerEndpoint [simp]:
  "RoutingGenerationV4 (SocketSetPeerEndpoint e w) = RoutingGenerationV4 w"
  "RoutingGenerationV6 (SocketSetPeerEndpoint e w) = RoutingGenerationV6 w"
  by (simp_all add: SocketSetPeerEndpoint_def Let_def)


lemma gens_SocketClearPeerEndpointSrc [simp]:
  "RoutingGenerationV4 (SocketClearPeerEndpointSrc w) = RoutingGenerationV4 w"
  "RoutingGenerationV6 (SocketClearPeerEndpointSrc w) = RoutingGenerationV6 w"
  by (simp_all add: SocketClearPeerEndpointSrc_def Let_def)

subsection \<open>The invariant\<close>



section \<open>What the resolver leaves alone\<close>

lemma emit_emit: "emit a (emit b w) = emit (b @ a) w"
  by (simp add: emit_def)

lemma emit_Nil: "emit [] w = w"
  by (simp add: emit_def)

lemma FreedChains_append: "FreedChains (xs @ ys) = FreedChains xs @ FreedChains ys"
  by (induction xs rule: FreedChains.induct) simp_all

lemma BestRouteCalls_append: "BestRouteCalls (xs @ ys) = BestRouteCalls xs @ BestRouteCalls ys"
  by (induction xs rule: BestRouteCalls.induct) simp_all

lemma FreedChains_resolver_events: "list_all resolver_event evs \<Longrightarrow> FreedChains evs = []"
  by (induction evs rule: FreedChains.induct) simp_all

lemma RouteScanBody_events:
  "RouteScanBody os Luid A Row b = Some (b', evs) \<Longrightarrow>
     list_all resolver_event evs \<and> BestRouteCalls evs = []"
  by (auto simp add: RouteScanBody_def Let_def split: if_splits option.splits)

lemma RouteScan_events:
  "RouteScan os Luid A Rows b = Some (b', evs) \<Longrightarrow>
     list_all resolver_event evs \<and> BestRouteCalls evs = []"
proof (induction Rows arbitrary: b b' evs)
  case Nil
  then show ?case by simp
next
  case (Cons Row Rows)
  from Cons.prems obtain b1 e1 b2 e2 where 1: "RouteScanBody os Luid A Row b = Some (b1, e1)"
    and 2: "RouteScan os Luid A Rows b1 = Some (b2, e2)" and 3: "b' = b2" "evs = e1 @ e2"
    by (auto split: option.splits)
  from RouteScanBody_events [OF 1] Cons.IH [OF 2] 3 show ?case
    by (simp add: BestRouteCalls_append)
qed

text \<open>The part without the lock only adds events to the trace.\<close>

lemma ResolveLookup_emits:
  assumes "ResolveLookup os w = Some r"
  shows "\<exists>evs. list_all resolver_event evs \<and>
     (case r of Inl (Status, w') \<Rightarrow> w' = emit evs w | Inr (b, a, w') \<Rightarrow> w' = emit evs w)"
proof (cases "\<not> NT_SUCCESS (fst (GetIpForwardTable2 os (si_family (Addr (Peer_Endpoint w)))))
              \<or> \<not> MemAllocate os")
  case True
  show ?thesis
  proof (cases "NT_SUCCESS (fst (GetIpForwardTable2 os (si_family (Addr (Peer_Endpoint w)))))")
    case False
    with assms have "r = Inl (fst (GetIpForwardTable2 os (si_family (Addr (Peer_Endpoint w)))),
        emit [Ev_GetIpForwardTable2 (si_family (Addr (Peer_Endpoint w)))] w)"
      by (simp add: ResolveLookup_def Let_def)
    then show ?thesis
      by (intro exI [of _ "[Ev_GetIpForwardTable2 (si_family (Addr (Peer_Endpoint w)))]"]) simp
  next
    case s: True
    with True assms have "r = Inl (STATUS_INSUFFICIENT_RESOURCES,
        emit [Ev_GetIpForwardTable2 (si_family (Addr (Peer_Endpoint w))), Ev_MemAllocate] w)"
      by (simp add: ResolveLookup_def Let_def emit_emit)
    then show ?thesis
      by (intro exI [of _ "[Ev_GetIpForwardTable2 (si_family (Addr (Peer_Endpoint w))), Ev_MemAllocate]"])
         simp
  qed
next
  case False
  let ?A = "Addr (Peer_Endpoint w)"
  let ?T = "snd (GetIpForwardTable2 os (si_family ?A))"
  from assms False obtain b evs where
    sc: "RouteScan os (Device_InterfaceLuid w) ?A ?T BestInit = Some (b, evs)"
    by (auto simp add: ResolveLookup_def Let_def split: option.splits)
  from RouteScan_events [OF sc] have ev: "list_all resolver_event evs" by simp
  let ?pre = "[Ev_GetIpForwardTable2 (si_family ?A), Ev_MemAllocate] @ evs @ [Ev_MemFree]"
  show ?thesis
  proof (cases "?T \<noteq> [] \<and> BestIndex b \<noteq> 0")
    case True
    have "list_all resolver_event (?pre @ [Ev_GetBestRoute2 (BestIndex b) ?A, Ev_FreeMibTable])"
      using ev by simp
    moreover from assms False sc True
    have "case r of Inl (Status, w') \<Rightarrow>
              w' = emit (?pre @ [Ev_GetBestRoute2 (BestIndex b) ?A, Ev_FreeMibTable]) w
          | Inr (i, a, w') \<Rightarrow>
              w' = emit (?pre @ [Ev_GetBestRoute2 (BestIndex b) ?A, Ev_FreeMibTable]) w"
      by (auto simp add: ResolveLookup_def Let_def emit_emit split: if_splits)
    ultimately show ?thesis by blast
  next
    case F: False
    have "list_all resolver_event (?pre @ [Ev_FreeMibTable])"
      using ev by simp
    moreover from assms False sc F
    have "case r of Inl (Status, w') \<Rightarrow> w' = emit (?pre @ [Ev_FreeMibTable]) w
          | Inr (i, a, w') \<Rightarrow> w' = emit (?pre @ [Ev_FreeMibTable]) w"
      by (auto simp add: ResolveLookup_def Let_def emit_emit split: if_splits)
    ultimately show ?thesis by blast
  qed
qed

lemma trace_locks:
  "Trace (ExAcquireSpinLockShared w) = Trace w @ [Ev_ExAcquireSpinLockShared]"
  "Trace (ExAcquireSpinLockExclusive w) = Trace w @ [Ev_ExAcquireSpinLockExclusive]"
  "Trace (ExReleaseSpinLockShared w) = Trace w @ [Ev_ExReleaseSpinLockShared]"
  "Trace (ExReleaseSpinLockExclusive w) = Trace w @ [Ev_ExReleaseSpinLockExclusive]"
  "Trace (OtherThreads w) = Trace w"
  "Trace (emit evs w) = Trace w @ evs"
  by (simp_all add: ExAcquireSpinLockShared_def ExAcquireSpinLockExclusive_def
      ExReleaseSpinLockShared_def ExReleaseSpinLockExclusive_def OtherThreads_def emit_def
      split: list.splits)

lemma ResolveCommit_trace:
  "\<exists>evs. list_all resolver_event evs \<and> Trace (snd (ResolveCommit s b a w)) = Trace w @ evs"
  by (simp add: ResolveCommit_def Let_def trace_locks)

lemma ResolvePass_trace:
  assumes "ResolvePass os w = Some (p, w')"
  shows "\<exists>evs. list_all resolver_event evs \<and> Trace w' = Trace w @ evs"
proof (cases "ResolveFastPath (ExAcquireSpinLockShared w)")
  case True
  with assms show ?thesis by (auto simp add: ResolvePass_def Let_def trace_locks)
next
  case False
  let ?w1 = "OtherThreads (ExReleaseSpinLockShared (ExAcquireSpinLockShared w))"
  have t1: "Trace ?w1 = Trace w @ [Ev_ExAcquireSpinLockShared, Ev_ExReleaseSpinLockShared]"
    by (simp add: trace_locks)
  from assms False obtain r where r: "ResolveLookup os ?w1 = Some r"
    by (auto simp add: ResolvePass_def Let_def split: option.splits)
  from ResolveLookup_emits [OF r] obtain evs where ev: "list_all resolver_event evs"
    and rw: "case r of Inl (Status, w') \<Rightarrow> w' = emit evs ?w1 | Inr (b, a, w') \<Rightarrow> w' = emit evs ?w1"
    by blast
  show ?thesis
  proof (cases r)
    case (Inl sw)
    with assms False r rw have "w' = emit evs ?w1"
      by (auto simp add: ResolvePass_def Let_def split: prod.splits)
    then have "Trace w' = Trace w @ ([Ev_ExAcquireSpinLockShared, Ev_ExReleaseSpinLockShared] @ evs)"
      using t1 by (simp add: trace_locks)
    moreover have "list_all resolver_event ([Ev_ExAcquireSpinLockShared, Ev_ExReleaseSpinLockShared] @ evs)"
      using ev by simp
    ultimately show ?thesis by blast
  next
    case (Inr x)
    obtain b a w2 where x: "x = (b, a, w2)" by (cases x) auto
    with Inr rw have w2: "w2 = emit evs ?w1" by simp
    from assms False r Inr x
    have "(p, w') = ResolveCommit (UpdateGeneration (Peer_Endpoint (ExAcquireSpinLockShared w))) b a w2"
      by (auto simp add: ResolvePass_def Let_def)
    then have "w' = snd (ResolveCommit (UpdateGeneration (Peer_Endpoint (ExAcquireSpinLockShared w))) b a w2)"
      by (metis snd_conv)
    with ResolveCommit_trace obtain evs2 where ev2: "list_all resolver_event evs2"
      and "Trace w' = Trace w2 @ evs2" by blast
    then have "Trace w' = Trace w @ ([Ev_ExAcquireSpinLockShared, Ev_ExReleaseSpinLockShared] @ evs @ evs2)"
      using w2 t1 by (simp add: trace_locks)
    moreover have "list_all resolver_event ([Ev_ExAcquireSpinLockShared, Ev_ExReleaseSpinLockShared] @ evs @ evs2)"
      using ev ev2 by simp
    ultimately show ?thesis by blast
  qed
qed

lemma SocketResolvePeerEndpointSrc_trace:
  "SocketResolvePeerEndpointSrc fuel os w = Some (Status, w') \<Longrightarrow>
     \<exists>evs. list_all resolver_event evs \<and> Trace w' = Trace w @ evs"
proof (induction fuel arbitrary: w)
  case 0
  then show ?case by simp
next
  case (Suc fuel)
  from Suc.prems obtain p w1 where p: "ResolvePass os w = Some (p, w1)"
    by (cases "ResolvePass os w") auto
  from ResolvePass_trace [OF p] obtain e1 where e1: "list_all resolver_event e1"
    "Trace w1 = Trace w @ e1" by blast
  show ?case
  proof (cases p)
    case (Return s)
    with Suc.prems p e1 show ?thesis by auto
  next
    case GotoRetry
    with Suc.prems p have "SocketResolvePeerEndpointSrc fuel os w1 = Some (Status, w')" by simp
    from Suc.IH [OF this] obtain e2 where "list_all resolver_event e2" "Trace w' = Trace w1 @ e2"
      by blast
    with e1 have "list_all resolver_event (e1 @ e2) \<and> Trace w' = Trace w @ (e1 @ e2)" by simp
    then show ?thesis by blast
  qed
qed

lemma SocketResolvePeerEndpointSrc_FreedChains:
  assumes "SocketResolvePeerEndpointSrc fuel os w = Some (Status, w')"
  shows "FreedChains (Trace w') = FreedChains (Trace w)"
  using SocketResolvePeerEndpointSrc_trace [OF assms]
  by (auto simp add: FreedChains_append FreedChains_resolver_events)

section \<open>The resolver returns\<close>

lemma RouteCidrMatch_defined:
  "wf_row (si_family A) Row \<Longrightarrow> \<exists>m. RouteCidrMatch A (DestinationPrefix Row) = Some m"
proof -
  assume wf: "wf_row (si_family A) Row"
  have "PrefixLength (DestinationPrefix Row) \<le> 128 \<Longrightarrow>
        \<not> 4 < PrefixLength (DestinationPrefix Row) div 32"
    by simp
  with wf show ?thesis
    by (auto simp add: RouteCidrMatch_def wf_row_def CidrMaskMatchV4_def CidrMaskMatchV6_def Let_def)
qed

lemma RouteScanBody_defined:
  assumes "wf_row (si_family A) Row"
  shows "\<exists>r. RouteScanBody os Luid A Row b = Some r"
proof -
  from RouteCidrMatch_defined [OF assms] obtain m where
    "RouteCidrMatch A (DestinationPrefix Row) = Some m" ..
  then show ?thesis by (simp add: RouteScanBody_def Let_def)
qed

lemma RouteScan_defined:
  "list_all (wf_row (si_family A)) Rows \<Longrightarrow> \<exists>r. RouteScan os Luid A Rows b = Some r"
proof (induction Rows arbitrary: b)
  case Nil
  then show ?case by simp
next
  case (Cons Row Rows)
  from Cons.prems have 1: "wf_row (si_family A) Row" and 2: "list_all (wf_row (si_family A)) Rows"
    by simp_all
  from RouteScanBody_defined [OF 1] obtain b1 e1 where "RouteScanBody os Luid A Row b = Some (b1, e1)"
    by fastforce
  moreover from Cons.IH [OF 2] obtain b2 e2 where "RouteScan os Luid A Rows b1 = Some (b2, e2)"
    by fastforce
  ultimately show ?case by simp
qed

lemma wf_os_table:
  assumes "wf_os os"
  shows "list_all (wf_row Family) (snd (GetIpForwardTable2 os Family))"
proof -
  consider "Family = AF_INET" | "Family = AF_INET6" | "Family \<noteq> AF_INET" "Family \<noteq> AF_INET6"
    by blast
  then show ?thesis
  proof cases
    case 1 with assms show ?thesis by (simp add: wf_os_def)
  next
    case 2 with assms show ?thesis by (simp add: wf_os_def)
  next
    case 3 then show ?thesis by (simp add: wf_row_def list_all_iff)
  qed
qed

lemma ResolveLookup_defined:
  assumes "wf_os os"
  shows "\<exists>r. ResolveLookup os w = Some r"
proof -
  from RouteScan_defined [OF wf_os_table [OF assms]]
  obtain b evs where "RouteScan os (Device_InterfaceLuid w) (Addr (Peer_Endpoint w))
      (snd (GetIpForwardTable2 os (si_family (Addr (Peer_Endpoint w))))) BestInit = Some (b, evs)"
    by fastforce
  then show ?thesis by (simp add: ResolveLookup_def Let_def)
qed

lemma ResolvePass_defined:
  assumes "wf_os os"
  shows "\<exists>p w'. ResolvePass os w = Some (p, w')"
proof -
  obtain r where "ResolveLookup os (OtherThreads (ExReleaseSpinLockShared (ExAcquireSpinLockShared w))) = Some r"
    using ResolveLookup_defined [OF assms] by blast
  then show ?thesis
    by (cases r) (auto simp add: ResolvePass_def Let_def split: prod.splits intro: prod.exhaust)
qed

lemma others_simps:
  "Others (emit evs w) = Others w"
  "Others (ExAcquireSpinLockShared w) = Others w"
  "Others (ExAcquireSpinLockExclusive w) = Others w"
  "Others (ExReleaseSpinLockShared w) = Others w"
  "Others (ExReleaseSpinLockExclusive w) = Others w"
  "length (Others (OtherThreads w)) = length (Others w) - 1"
  by (simp_all add: emit_def ExAcquireSpinLockShared_def ExAcquireSpinLockExclusive_def
      ExReleaseSpinLockShared_def ExReleaseSpinLockExclusive_def OtherThreads_def
      split: list.splits)

lemma endpoint_simps:
  "Peer_Endpoint (emit evs w) = Peer_Endpoint w"
  "Peer_Endpoint (ExAcquireSpinLockShared w) = Peer_Endpoint w"
  "Peer_Endpoint (ExAcquireSpinLockExclusive w) = Peer_Endpoint w"
  "Peer_Endpoint (ExReleaseSpinLockShared w) = Peer_Endpoint w"
  "Peer_Endpoint (ExReleaseSpinLockExclusive w) = Peer_Endpoint w"
  "Others w = [] \<Longrightarrow> OtherThreads w = w"
  by (simp_all add: emit_def ExAcquireSpinLockShared_def ExAcquireSpinLockExclusive_def
      ExReleaseSpinLockShared_def ExReleaseSpinLockExclusive_def OtherThreads_def)

lemma OtherThreads_changes:
  "Peer_Endpoint (OtherThreads w) \<noteq> Peer_Endpoint w \<Longrightarrow> Others w \<noteq> []"
  by (auto simp add: endpoint_simps)

lemma ResolveStore_UpdateGeneration:
  "UpdateGeneration (fst (ResolveStore b a w)) = UpdateGeneration (Peer_Endpoint w)"
  by (simp add: ResolveStore_def Let_def Src4_assign_def)

lemma ResolveCommit_others_le:
  "length (Others (snd (ResolveCommit s b a w))) \<le> length (Others w)"
  by (simp add: ResolveCommit_def Let_def others_simps)

lemma ResolveCommit_retry_consumes:
  assumes "fst (ResolveCommit s b a w) = GotoRetry"
    and "UpdateGeneration (Peer_Endpoint w) = s"
  shows "length (Others (snd (ResolveCommit s b a w))) < length (Others w)"
proof -
  let ?w = "ExAcquireSpinLockExclusive w"
  let ?E = "fst (ResolveStore b a ?w)"
  let ?w1 = "ExReleaseSpinLockExclusive (?w\<lparr>Peer_Endpoint := ?E\<lparr>UpdateGeneration := UpdateGeneration ?E + 1\<rparr>\<rparr>)"
  have o1: "Others ?w1 = Others w"
    by (simp add: ExReleaseSpinLockExclusive_def ExAcquireSpinLockExclusive_def emit_def)
  have u1: "UpdateGeneration (Peer_Endpoint ?w1) = s + 1"
    using assms(2)
    by (simp add: ExReleaseSpinLockExclusive_def emit_def ResolveStore_UpdateGeneration endpoint_simps)
  from assms have r: "snd (ResolveStore b a ?w) \<noteq> 0"
    and c: "UpdateGeneration (Peer_Endpoint (ExAcquireSpinLockShared (OtherThreads ?w1))) \<noteq> s + 1"
    and res: "snd (ResolveCommit s b a w) = OtherThreads (ExReleaseSpinLockShared (ExAcquireSpinLockShared (OtherThreads ?w1)))"
    by (auto simp add: ResolveCommit_def Let_def endpoint_simps split: if_splits)
  from c u1 have "Peer_Endpoint (OtherThreads ?w1) \<noteq> Peer_Endpoint ?w1"
    by (auto simp add: endpoint_simps)
  then have "Others ?w1 \<noteq> []" by (rule OtherThreads_changes)
  with o1 have "0 < length (Others w)" by simp
  moreover have "length (Others (snd (ResolveCommit s b a w))) \<le> length (Others w) - 1"
    unfolding res using o1 by (simp add: others_simps)
  ultimately show ?thesis by linarith
qed

lemma ResolvePass_retry_consumes:
  assumes "ResolvePass os w = Some (GotoRetry, w')"
  shows "length (Others w') < length (Others w)"
proof -
  let ?wa = "ExAcquireSpinLockShared w"
  let ?w1 = "OtherThreads (ExReleaseSpinLockShared ?wa)"
  let ?s = "UpdateGeneration (Peer_Endpoint ?wa)"
  from assms have nf: "\<not> ResolveFastPath ?wa"
    by (auto simp add: ResolvePass_def Let_def)
  with assms obtain r where r: "ResolveLookup os ?w1 = Some r"
    by (auto simp add: ResolvePass_def Let_def split: option.splits)
  from assms nf r obtain b a w2 where x: "r = Inr (b, a, w2)"
    and c: "ResolveCommit ?s b a w2 = (GotoRetry, w')"
    by (cases r) (auto simp add: ResolvePass_def Let_def split: prod.splits)
  from ResolveLookup_emits [OF r] x obtain evs where w2: "w2 = emit evs ?w1" by auto
  have le1: "length (Others w2) \<le> length (Others w)"
    by (simp add: w2 others_simps)
  show ?thesis
  proof (cases "UpdateGeneration (Peer_Endpoint w2) = ?s")
    case True
    from c have "fst (ResolveCommit ?s b a w2) = GotoRetry" by simp
    from ResolveCommit_retry_consumes [OF this True] c le1 show ?thesis by simp
  next
    case False
    then have "Peer_Endpoint (OtherThreads (ExReleaseSpinLockShared ?wa)) \<noteq>
               Peer_Endpoint (ExReleaseSpinLockShared ?wa)"
      by (auto simp add: w2 endpoint_simps)
    then have "Others (ExReleaseSpinLockShared ?wa) \<noteq> []" by (rule OtherThreads_changes)
    then have "0 < length (Others w)" by (simp add: others_simps)
    moreover have "length (Others w2) \<le> length (Others w) - 1"
      by (simp add: w2 others_simps)
    moreover have "length (Others w') \<le> length (Others w2)"
      using ResolveCommit_others_le [of ?s b a w2] c by simp
    ultimately show ?thesis by linarith
  qed
qed

text \<open>
  With well-formed tables the resolver returns, as soon as the fuel exceeds the number
  of writes of other threads still to come: each \<open>goto retry\<close> needs one of them.
\<close>

lemma SocketResolvePeerEndpointSrc_returns:
  "wf_os os \<Longrightarrow> length (Others w) < fuel \<Longrightarrow>
     \<exists>Status w'. SocketResolvePeerEndpointSrc fuel os w = Some (Status, w')"
proof (induction fuel arbitrary: w)
  case 0
  then show ?case by simp
next
  case (Suc fuel)
  from ResolvePass_defined [OF Suc.prems(1)] obtain p w1 where p: "ResolvePass os w = Some (p, w1)"
    by blast
  show ?case
  proof (cases p)
    case (Return s)
    with p show ?thesis by simp
  next
    case GotoRetry
    with p ResolvePass_retry_consumes have "length (Others w1) < length (Others w)" by blast
    with Suc.prems(2) have "length (Others w1) < fuel" by linarith
    from Suc.IH [OF Suc.prems(1) this] p GotoRetry show ?thesis by simp
  qed
qed

section \<open>C5: sending a chain\<close>

lemma NT_SUCCESS_simps:
  "NT_SUCCESS STATUS_SUCCESS"
  "NT_SUCCESS STATUS_ALREADY_COMPLETE"
  "\<not> NT_SUCCESS STATUS_INSUFFICIENT_RESOURCES"
  "\<not> NT_SUCCESS STATUS_NETWORK_UNREACHABLE"
  "\<not> NT_SUCCESS STATUS_BAD_NETWORK_PATH"
  "\<not> NT_SUCCESS STATUS_INVALID_PARAMETER"
  "\<not> NT_SUCCESS STATUS_INVALID_ADDRESS"
  by (simp_all add: NT_SUCCESS_def STATUS_SUCCESS_def STATUS_ALREADY_COMPLETE_def
      STATUS_INSUFFICIENT_RESOURCES_def STATUS_NETWORK_UNREACHABLE_def
      STATUS_BAD_NETWORK_PATH_def STATUS_INVALID_PARAMETER_def STATUS_INVALID_ADDRESS_def)

lemma SumNetBuffers_eq:
  "SumNetBuffers K Nbs (d, p, a) =
     (d + sum_list (map (\<lambda>Nb. ucast (DataLength Nb)) Nbs), p + of_nat (length Nbs),
      a \<and> list_all (IsKeepalive K) Nbs)"
  by (induction Nbs arbitrary: d p a) (auto simp add: IsKeepalive_def algebra_simps)

lemma SumNetBufferLists_eq:
  "SumNetBufferLists K Nbls (d, p, a) =
     (d + sum_list (map (\<lambda>Nb. ucast (DataLength Nb)) (concat Nbls)),
      p + of_nat (length (concat Nbls)),
      a \<and> list_all (IsKeepalive K) (concat Nbls))"
  by (induction Nbls arbitrary: d p a) (auto simp add: SumNetBuffers_eq algebra_simps)

lemma SendAsync_outcome:
  assumes "SendAsync Ctx w = Some (Status, w')"
  shows "(Status = STATUS_NETWORK_UNREACHABLE \<and> w' = w) \<or>
         (Status = STATUS_SUCCESS \<and> FreedChains (Trace w') = FreedChains (Trace w))"
  using assms
  by (auto simp add: SendAsync_def Let_def trace_locks FreedChains_append
      split: if_splits list.splits)

lemma SocketSendNblsToPeer_partial:
  assumes ne: "First \<noteq> []"
    and r: "SocketSendNblsToPeer K fuel os w First a = Some (Status, a', w')"
  shows "(NT_SUCCESS Status \<and> (a' \<longleftrightarrow> list_all (IsKeepalive K) (concat First))
            \<and> FreedChains (Trace w') = FreedChains (Trace w))
       \<or> (\<not> NT_SUCCESS Status \<and> FreedChains (Trace w') = FreedChains (Trace w) @ [First])"
proof (cases "ExAllocateFromLookasideListEx os")
  case False
  with ne r show ?thesis
    by (auto simp add: SocketSendNblsToPeer_def trace_locks FreedChains_append NT_SUCCESS_simps)
next
  case True
  let ?w0 = "emit [Ev_ExAllocateFromLookasideListEx] w"
  from ne r True obtain s1 w1 where rs: "SocketResolvePeerEndpointSrc fuel os ?w0 = Some (s1, w1)"
    by (auto simp add: SocketSendNblsToPeer_def split: option.splits)
  from SocketResolvePeerEndpointSrc_FreedChains [OF rs]
  have f1: "FreedChains (Trace w1) = FreedChains (Trace w)"
    by (simp add: trace_locks FreedChains_append)
  show ?thesis
  proof (cases "NT_SUCCESS s1")
    case False
    with ne r True rs f1 show ?thesis
      by (auto simp add: SocketSendNblsToPeer_def trace_locks FreedChains_append)
  next
    case s: True
    let ?Ctx = "\<lparr>Ctx_Endpoint = Peer_Endpoint w1, Ctx_FirstNbl = First,
                  Ctx_Buffer = \<lparr>Mdl = 0, Offset = 0, Length = 0\<rparr>, Ctx_IsNbl = True\<rparr>"
    let ?w2 = "ExReleaseSpinLockShared w1"
    from ne r True rs s obtain s3 w3 where sa: "SendAsync ?Ctx ?w2 = Some (s3, w3)"
      by (auto simp add: SocketSendNblsToPeer_def Let_def split: option.splits)
    have f2: "FreedChains (Trace ?w2) = FreedChains (Trace w)"
      using f1 by (simp add: trace_locks FreedChains_append)
    have flag: "snd (snd (SumNetBufferLists K First (0, 0, True))) = list_all (IsKeepalive K) (concat First)"
      by (simp add: SumNetBufferLists_eq)
    from SendAsync_outcome [OF sa] show ?thesis
    proof
      assume "s3 = STATUS_NETWORK_UNREACHABLE \<and> w3 = ?w2"
      with ne r True rs s sa f2 show ?thesis
        by (auto simp add: SocketSendNblsToPeer_def Let_def trace_locks FreedChains_append
            NT_SUCCESS_simps)
    next
      assume "s3 = STATUS_SUCCESS \<and> FreedChains (Trace w3) = FreedChains (Trace ?w2)"
      with ne r True rs s sa f2 flag show ?thesis
        by (auto simp add: SocketSendNblsToPeer_def Let_def NT_SUCCESS_simps)
    qed
  qed
qed

lemma SocketSendNblsToPeer_returns:
  assumes ne: "First \<noteq> []" and nb: "hd First \<noteq> []"
    and wf: "wf_os os" and fuel: "length (Others w) < fuel"
  shows "\<exists>r. SocketSendNblsToPeer K fuel os w First a = Some r"
proof (cases "ExAllocateFromLookasideListEx os")
  case False
  with ne show ?thesis by (simp add: SocketSendNblsToPeer_def)
next
  case True
  let ?w0 = "emit [Ev_ExAllocateFromLookasideListEx] w"
  from fuel have "length (Others ?w0) < fuel" by (simp add: others_simps)
  from SocketResolvePeerEndpointSrc_returns [OF wf this]
  obtain s1 w1 where rs: "SocketResolvePeerEndpointSrc fuel os ?w0 = Some (s1, w1)" by blast
  from ne nb obtain Nb Nbs Nbls where F: "First = (Nb # Nbs) # Nbls"
    by (cases First; cases "hd First") auto
  show ?thesis
  proof (cases "NT_SUCCESS s1")
    case False
    with ne True rs show ?thesis by (simp add: SocketSendNblsToPeer_def)
  next
    case s: True
    let ?Ctx = "\<lparr>Ctx_Endpoint = Peer_Endpoint w1, Ctx_FirstNbl = First,
                  Ctx_Buffer = \<lparr>Mdl = 0, Offset = 0, Length = 0\<rparr>, Ctx_IsNbl = True\<rparr>"
    have "\<exists>s3 w3. SendAsync ?Ctx (ExReleaseSpinLockShared w1) = Some (s3, w3)"
      by (simp add: SendAsync_def Let_def F)
    then obtain s3 w3 where "SendAsync ?Ctx (ExReleaseSpinLockShared w1) = Some (s3, w3)" by blast
    with ne True rs s show ?thesis by (simp add: SocketSendNblsToPeer_def Let_def)
  qed
qed

text \<open>
  C5, as amended. For any chain that is not empty, whenever
  \<open>SocketSendNblsToPeer\<close> returns it either succeeds, and then the flag it leaves in
  \<open>*AllKeepalive\<close> is true if and only if every packet of the chain has exactly the
  keepalive length, and the chain has not been freed; or it fails, and then the chain
  has been passed to \<open>FreeSendNetBufferList\<close> exactly once, and nothing else has. And it
  does return when the first \<open>NET_BUFFER_LIST\<close> holds a packet, the forwarding tables
  are well-formed, and the fuel exceeds the number of concurrent writes to come. For
  the empty chain it returns \<open>STATUS_ALREADY_COMPLETE\<close>, leaves the flag as the caller had
  it and the state as it was, so that nothing is freed.
\<close>

theorem SocketSendNblsToPeer_outcome:
  "(First \<noteq> [] \<longrightarrow> SocketSendNblsToPeer K fuel os w First a = Some (Status, a', w') \<longrightarrow>
      (NT_SUCCESS Status \<and> (a' \<longleftrightarrow> list_all (IsKeepalive K) (concat First))
         \<and> FreedChains (Trace w') = FreedChains (Trace w))
      \<or> (\<not> NT_SUCCESS Status \<and> FreedChains (Trace w') = FreedChains (Trace w) @ [First]))
   \<and> (First \<noteq> [] \<longrightarrow> hd First \<noteq> [] \<longrightarrow> wf_os os \<longrightarrow> length (Others w) < fuel \<longrightarrow>
        (\<exists>r. SocketSendNblsToPeer K fuel os w First a = Some r))
   \<and> SocketSendNblsToPeer K fuel os w [] a = Some (STATUS_ALREADY_COMPLETE, a, w)"
proof -
  have "SocketSendNblsToPeer K fuel os w [] a = Some (STATUS_ALREADY_COMPLETE, a, w)"
    by (simp add: SocketSendNblsToPeer_def)
  with SocketSendNblsToPeer_partial [of First K fuel os w a Status a' w']
    SocketSendNblsToPeer_returns [of First os w fuel K a]
  show ?thesis by blast
qed

lemma wf_os_scenario2: "wf_os os_scenario2"
  by (simp add: wf_os_def os_scenario2_def wf_row_def row_default_if2_def row_slash24_if4_def
      AF_INET_def AF_INET6_def)

lemma ResolveFastPath_scenario1:
  "ResolveFastPath (ExAcquireSpinLockShared (emit evs (world_scenario1\<lparr>Device_Sock4 := s\<rparr>)))"
  by (simp add: ResolveFastPath_def ExAcquireSpinLockShared_def emit_def world_scenario1_def
      endpoint_scenario1_def Src4_def zero_SOCKADDR_INET_def zero_IN6_PKTINFO_def zero_IN6_ADDR_def)

lemma family_scenario1: "si_family (Addr endpoint_scenario1) = AF_INET"
  by (simp add: endpoint_scenario1_def zero_SOCKADDR_INET_def)

lemma send_keepalive_scenario1:
  "\<exists>w'. SocketSendNblsToPeer 32 1 os_scenario2 world_scenario1 chain_keepalive False
          = Some (STATUS_SUCCESS, True, w')"
proof -
  have "ResolvePass os_scenario2 (emit [Ev_ExAllocateFromLookasideListEx] world_scenario1)
      = Some (Return STATUS_SUCCESS,
              ExAcquireSpinLockShared (emit [Ev_ExAllocateFromLookasideListEx] world_scenario1))"
    using ResolveFastPath_scenario1 [of "[Ev_ExAllocateFromLookasideListEx]" True]
    by (simp add: ResolvePass_def Let_def world_scenario1_def)
  then show ?thesis
    by (simp add: SocketSendNblsToPeer_def chain_keepalive_def os_scenario2_def NT_SUCCESS_simps
        Let_def SendAsync_def endpoint_simps ExReleaseSpinLockShared_def emit_def
        ExAcquireSpinLockShared_def family_scenario1 world_scenario1_def)
qed

lemma send_data_no_socket:
  "\<exists>w'. SocketSendNblsToPeer 32 1 os_scenario2 world_no_socket chain_data True
          = Some (STATUS_NETWORK_UNREACHABLE, False, w')"
proof -
  have "ResolvePass os_scenario2 (emit [Ev_ExAllocateFromLookasideListEx] world_no_socket)
      = Some (Return STATUS_SUCCESS,
              ExAcquireSpinLockShared (emit [Ev_ExAllocateFromLookasideListEx] world_no_socket))"
    using ResolveFastPath_scenario1 [of "[Ev_ExAllocateFromLookasideListEx]" False]
    by (simp add: ResolvePass_def Let_def world_no_socket_def)
  then show ?thesis
    by (simp add: SocketSendNblsToPeer_def chain_data_def os_scenario2_def NT_SUCCESS_simps
        Let_def SendAsync_def endpoint_simps ExReleaseSpinLockShared_def emit_def
        ExAcquireSpinLockShared_def family_scenario1 world_scenario1_def world_no_socket_def)
qed

text \<open>
  A keepalive sent on the fast path of scenario 1 succeeds with the flag set; a data
  packet sent with no IPv4 socket fails, and its chain is the one chain freed.
\<close>

theorem SocketSendNblsToPeer_outcome_witness:
  "(\<exists>w'. SocketSendNblsToPeer 32 1 os_scenario2 world_scenario1 chain_keepalive False
            = Some (STATUS_SUCCESS, True, w')
          \<and> FreedChains (Trace w') = [])
   \<and> list_all (IsKeepalive 32) (concat chain_keepalive)
   \<and> (\<exists>w'. SocketSendNblsToPeer 32 1 os_scenario2 world_no_socket chain_data True
            = Some (STATUS_NETWORK_UNREACHABLE, False, w')
          \<and> FreedChains (Trace w') = [chain_data])"
proof -
  have t: "FreedChains (Trace world_scenario1) = []" "FreedChains (Trace world_no_socket) = []"
    by (simp_all add: world_scenario1_def world_no_socket_def)
  from send_keepalive_scenario1 obtain w1 where
    1: "SocketSendNblsToPeer 32 1 os_scenario2 world_scenario1 chain_keepalive False
          = Some (STATUS_SUCCESS, True, w1)" ..
  from send_data_no_socket obtain w2 where
    2: "SocketSendNblsToPeer 32 1 os_scenario2 world_no_socket chain_data True
          = Some (STATUS_NETWORK_UNREACHABLE, False, w2)" ..
  have ne: "chain_keepalive \<noteq> []" "chain_data \<noteq> []"
    by (simp_all add: chain_keepalive_def chain_data_def)
  from SocketSendNblsToPeer_outcome
    [of chain_keepalive 32 1 os_scenario2 world_scenario1 False STATUS_SUCCESS True w1] ne 1 t
  have a: "list_all (IsKeepalive 32) (concat chain_keepalive) \<and> FreedChains (Trace w1) = []"
    by (simp add: NT_SUCCESS_simps)
  from SocketSendNblsToPeer_outcome
    [of chain_data 32 1 os_scenario2 world_no_socket True STATUS_NETWORK_UNREACHABLE False w2] ne 2 t
  have b: "FreedChains (Trace w2) = [chain_data]"
    by (simp add: NT_SUCCESS_simps)
  from 1 2 a b show ?thesis by blast
qed

text \<open>
  C5 as stated fails for the empty chain: the call succeeds with
  \<open>STATUS_ALREADY_COMPLETE\<close>, every packet of the chain (there is none) has the
  keepalive length, but the flag is not written: it is still false if it was false.
  And nothing has been freed.
\<close>

theorem SocketSendNblsToPeer_empty_chain_counterexample:
  "SocketSendNblsToPeer 32 1 os_scenario2 world_scenario1 [] False
     = Some (STATUS_ALREADY_COMPLETE, False, world_scenario1)
   \<and> NT_SUCCESS STATUS_ALREADY_COMPLETE
   \<and> list_all (IsKeepalive 32) (concat ([] :: NET_BUFFER_LIST list))
   \<and> FreedChains (Trace world_scenario1) = []"
  by (simp add: SocketSendNblsToPeer_def NT_SUCCESS_simps world_scenario1_def)

section \<open>The invariant of the scan\<close>

lemma NotWorse_refl: "NotWorse os A R R"
  by (simp add: NotWorse_def)

lemma NotWorse_trans: "NotWorse os A R1 R2 \<Longrightarrow> NotWorse os A R2 R3 \<Longrightarrow> NotWorse os A R1 R3"
  by (auto simp add: NotWorse_def)

lemma Better_NotWorse: "Better os A R1 R2 \<Longrightarrow> NotWorse os A R1 R2"
  by (auto simp add: NotWorse_def Better_def)

lemma not_NotWorse_iff: "\<not> NotWorse os A R1 R2 \<longleftrightarrow> Better os A R2 R1"
  by (auto simp add: NotWorse_def Better_def)

lemma NotWorse_Better_trans: "NotWorse os A R1 R2 \<Longrightarrow> Better os A R2 R3 \<Longrightarrow> Better os A R1 R3"
  by (auto simp add: NotWorse_def Better_def)

lemma Winner_iff:
  "Winner os Luid A Table i \<longleftrightarrow>
     i < length Table \<and> Eligible os Luid A (Table ! i) \<and>
     (\<forall>j<length Table. Eligible os Luid A (Table ! j) \<longrightarrow> NotWorse os A (Table ! i) (Table ! j)) \<and>
     (\<forall>j<length Table. i < j \<longrightarrow> Eligible os Luid A (Table ! j) \<longrightarrow>
         Better os A (Table ! i) (Table ! j))"
  by (auto simp add: Winner_def list_all_iff)

lemma Winner_unique:
  assumes "Winner os Luid A Table i" and "Winner os Luid A Table j"
  shows "i = j"
proof (rule ccontr)
  assume "i \<noteq> j"
  then consider "i < j" | "j < i" by linarith
  then show False
  proof cases
    case 1
    with assms have "Better os A (Table ! i) (Table ! j)" "NotWorse os A (Table ! j) (Table ! i)"
      by (auto simp add: Winner_iff)
    then show False using not_NotWorse_iff by blast
  next
    case 2
    with assms have "Better os A (Table ! j) (Table ! i)" "NotWorse os A (Table ! i) (Table ! j)"
      by (auto simp add: Winner_iff)
    then show False using not_NotWorse_iff by blast
  qed
qed

text \<open>One turn of the loop takes the row when it is eligible and not beaten by the best.\<close>

lemma RouteScanBody_fst:
  assumes "wf_row (si_family A) Row"
  shows "\<exists>evs. RouteScanBody os Luid A Row b =
     Some (if Eligible os Luid A Row
              \<and> \<not> PrefixLength (DestinationPrefix Row) < BestCidr b
              \<and> \<not> (PrefixLength (DestinationPrefix Row) = BestCidr b
                    \<and> BestMetric b < TotalMetric os A Row)
           then BestOf os A Row else b, evs)"
proof -
  from RouteCidrMatch_defined [OF assms] obtain m where
    m: "RouteCidrMatch A (DestinationPrefix Row) = Some m" ..
  then show ?thesis
    by (cases m) (auto simp add: RouteScanBody_def Let_def Eligible_def BestOf_def TotalMetric_def)
qed

lemma RouteScan_append:
  "RouteScan os Luid A (xs @ ys) b =
     (case RouteScan os Luid A xs b of
        None \<Rightarrow> None
      | Some (b', evs) \<Rightarrow>
          (case RouteScan os Luid A ys b' of
             None \<Rightarrow> None
           | Some (b'', evs') \<Rightarrow> Some (b'', evs @ evs')))"
  by (induction xs arbitrary: b) (auto split: option.splits)

text \<open>
  The invariant of the loop: the best entry is the initial one while no row seen so
  far is eligible, and otherwise it is the record of the winner among the rows seen so
  far.
\<close>

lemma RouteScan_invariant:
  assumes "list_all (wf_row (si_family A)) Table"
  shows "\<exists>b evs. RouteScan os Luid A Table BestInit = Some (b, evs) \<and>
     ((\<forall>j<length Table. \<not> Eligible os Luid A (Table ! j)) \<and> b = BestInit
      \<or> (\<exists>i. Winner os Luid A Table i \<and> b = BestOf os A (Table ! i)))"
  using assms
proof (induction Table rule: rev_induct)
  case Nil
  then show ?case by simp
next
  case (snoc x xs)
  from snoc.prems have wfx: "wf_row (si_family A) x" and wfxs: "list_all (wf_row (si_family A)) xs"
    by simp_all
  from snoc.IH [OF wfxs] obtain b evs where sc: "RouteScan os Luid A xs BestInit = Some (b, evs)"
    and inv: "(\<forall>j<length xs. \<not> Eligible os Luid A (xs ! j)) \<and> b = BestInit
      \<or> (\<exists>i. Winner os Luid A xs i \<and> b = BestOf os A (xs ! i))"
    by blast
  let ?take = "Eligible os Luid A x
              \<and> \<not> PrefixLength (DestinationPrefix x) < BestCidr b
              \<and> \<not> (PrefixLength (DestinationPrefix x) = BestCidr b
                    \<and> BestMetric b < TotalMetric os A x)"
  from RouteScanBody_fst [OF wfx, of os Luid b] obtain e1 where
    body: "RouteScanBody os Luid A x b = Some (if ?take then BestOf os A x else b, e1)"
    by blast
  let ?b' = "if ?take then BestOf os A x else b"
  have res: "RouteScan os Luid A (xs @ [x]) BestInit = Some (?b', evs @ e1)"
    using sc body by (simp add: RouteScan_append)
  have nth_old: "\<And>j. j < length xs \<Longrightarrow> (xs @ [x]) ! j = xs ! j"
    by (simp add: nth_append)
  have nth_new: "(xs @ [x]) ! length xs = x" by simp
  have split: "\<And>P. (\<forall>j<Suc (length xs). P j) \<longleftrightarrow> (\<forall>j<length xs. P j) \<and> P (length xs)"
    by (auto simp add: less_Suc_eq)
  from inv have "(\<forall>j<length (xs @ [x]). \<not> Eligible os Luid A ((xs @ [x]) ! j)) \<and> ?b' = BestInit
      \<or> (\<exists>i. Winner os Luid A (xs @ [x]) i \<and> ?b' = BestOf os A ((xs @ [x]) ! i))"
  proof
    assume none: "(\<forall>j<length xs. \<not> Eligible os Luid A (xs ! j)) \<and> b = BestInit"
    show ?thesis
    proof (cases "Eligible os Luid A x")
      case False
      with none show ?thesis by (auto simp add: split nth_old)
    next
      case True
      with none have take: ?take by (simp add: BestInit_def)
      have "Winner os Luid A (xs @ [x]) (length xs)"
        unfolding Winner_iff using none True
        by (auto simp add: split nth_old NotWorse_refl)
      with take show ?thesis by (intro disjI2 exI [of _ "length xs"]) simp
    qed
  next
    assume "\<exists>i. Winner os Luid A xs i \<and> b = BestOf os A (xs ! i)"
    then obtain i where w: "Winner os Luid A xs i" and b: "b = BestOf os A (xs ! i)" by blast
    from w have i: "i < length xs" and ei: "Eligible os Luid A (xs ! i)"
      and nw: "\<forall>j<length xs. Eligible os Luid A (xs ! j) \<longrightarrow> NotWorse os A (xs ! i) (xs ! j)"
      and bt: "\<forall>j<length xs. i < j \<longrightarrow> Eligible os Luid A (xs ! j) \<longrightarrow> Better os A (xs ! i) (xs ! j)"
      by (simp_all add: Winner_iff)
    have beat: "(\<not> PrefixLength (DestinationPrefix x) < BestCidr b
                 \<and> \<not> (PrefixLength (DestinationPrefix x) = BestCidr b
                       \<and> BestMetric b < TotalMetric os A x))
               \<longleftrightarrow> NotWorse os A x (xs ! i)"
      by (auto simp add: b BestOf_def NotWorse_def)
    show ?thesis
    proof (cases ?take)
      case True
      then have ex: "Eligible os Luid A x" and nx: "NotWorse os A x (xs ! i)"
        using beat by blast+
      have "Winner os Luid A (xs @ [x]) (length xs)"
        unfolding Winner_iff using ex nx nw
        by (auto simp add: split nth_old NotWorse_refl intro: NotWorse_trans)
      with True show ?thesis by (intro disjI2 exI [of _ "length xs"]) simp
    next
      case False
      then have worse: "Eligible os Luid A x \<longrightarrow> Better os A (xs ! i) x"
        using beat not_NotWorse_iff by blast
      have "Winner os Luid A (xs @ [x]) i"
        unfolding Winner_iff using i ei nw bt worse
        by (auto simp add: split nth_old intro: Better_NotWorse)
      moreover from False have "?b' = b" by (simp only: if_False)
      moreover have "(xs @ [x]) ! i = xs ! i" using i by (rule nth_old)
      ultimately have "Winner os Luid A (xs @ [x]) i \<and> ?b' = BestOf os A ((xs @ [x]) ! i)"
        using b by (simp only:)
      then show ?thesis by blast
    qed
  qed
  with res show ?case by blast
qed

lemma RouteScan_winner:
  assumes wf: "list_all (wf_row (si_family A)) Table"
    and w: "Winner os Luid A Table i"
  shows "\<exists>evs. RouteScan os Luid A Table BestInit = Some (BestOf os A (Table ! i), evs)"
proof -
  from RouteScan_invariant [OF wf, of os Luid] obtain b evs where
    sc: "RouteScan os Luid A Table BestInit = Some (b, evs)"
    and inv: "(\<forall>j<length Table. \<not> Eligible os Luid A (Table ! j)) \<and> b = BestInit
      \<or> (\<exists>i. Winner os Luid A Table i \<and> b = BestOf os A (Table ! i))"
    by blast
  from w have "i < length Table" "Eligible os Luid A (Table ! i)" by (simp_all add: Winner_iff)
  with inv obtain j where "Winner os Luid A Table j" "b = BestOf os A (Table ! j)" by blast
  with Winner_unique [OF w] sc show ?thesis by auto
qed

lemma RouteScan_no_winner:
  assumes wf: "list_all (wf_row (si_family A)) Table"
    and none: "\<forall>Row\<in>set Table. \<not> Eligible os Luid A Row"
  shows "\<exists>evs. RouteScan os Luid A Table BestInit = Some (BestInit, evs)"
proof -
  from RouteScan_invariant [OF wf, of os Luid] obtain b evs where
    sc: "RouteScan os Luid A Table BestInit = Some (b, evs)"
    and inv: "(\<forall>j<length Table. \<not> Eligible os Luid A (Table ! j)) \<and> b = BestInit
      \<or> (\<exists>i. Winner os Luid A Table i \<and> b = BestOf os A (Table ! i))"
    by blast
  from none have "\<not> (\<exists>i. Winner os Luid A Table i)" by (auto simp add: Winner_iff)
  with inv sc show ?thesis by auto
qed

lemma Winner_exists:
  assumes wf: "list_all (wf_row (si_family A)) Table"
    and some: "\<exists>Row\<in>set Table. Eligible os Luid A Row"
  shows "\<exists>i. Winner os Luid A Table i"
proof -
  from RouteScan_invariant [OF wf, of os Luid] obtain b where
    inv: "(\<forall>j<length Table. \<not> Eligible os Luid A (Table ! j)) \<and> b = BestInit
      \<or> (\<exists>i. Winner os Luid A Table i \<and> b = BestOf os A (Table ! i))"
    by blast
  from some obtain j where "j < length Table" "Eligible os Luid A (Table ! j)"
    by (auto simp add: in_set_conv_nth)
  with inv show ?thesis by blast
qed

section \<open>The resolver with no concurrent writer\<close>



lemma ResolveLookup_scanned:
  assumes "NT_SUCCESS (fst (GetIpForwardTable2 os (si_family (Addr (Peer_Endpoint w)))))"
    and "MemAllocate os"
    and "RouteScan os (Device_InterfaceLuid w) (Addr (Peer_Endpoint w))
           (snd (GetIpForwardTable2 os (si_family (Addr (Peer_Endpoint w))))) BestInit = Some (b, evs)"
  shows "ResolveLookup os w =
     Some (if snd (GetIpForwardTable2 os (si_family (Addr (Peer_Endpoint w)))) \<noteq> [] \<and> BestIndex b \<noteq> 0
           then
             (if \<not> NT_SUCCESS (fst (GetBestRoute2 os (BestIndex b) (Addr (Peer_Endpoint w))))
              then Inl (fst (GetBestRoute2 os (BestIndex b) (Addr (Peer_Endpoint w))),
                        emit ([Ev_GetIpForwardTable2 (si_family (Addr (Peer_Endpoint w))), Ev_MemAllocate]
                              @ evs @ [Ev_MemFree,
                                       Ev_GetBestRoute2 (BestIndex b) (Addr (Peer_Endpoint w)),
                                       Ev_FreeMibTable]) w)
              else Inr (BestIndex b, snd (GetBestRoute2 os (BestIndex b) (Addr (Peer_Endpoint w))),
                        emit ([Ev_GetIpForwardTable2 (si_family (Addr (Peer_Endpoint w))), Ev_MemAllocate]
                              @ evs @ [Ev_MemFree,
                                       Ev_GetBestRoute2 (BestIndex b) (Addr (Peer_Endpoint w)),
                                       Ev_FreeMibTable]) w))
           else Inr (BestIndex b, zero_SOCKADDR_INET,
                     emit ([Ev_GetIpForwardTable2 (si_family (Addr (Peer_Endpoint w))), Ev_MemAllocate]
                           @ evs @ [Ev_MemFree, Ev_FreeMibTable]) w))"
  using assms by (simp add: ResolveLookup_def Let_def emit_emit)

lemma ResolveCommit_sequential:
  assumes "Others w = []" and "UpdateGeneration (Peer_Endpoint w) = s"
  shows "ResolveCommit s b a w =
     (if snd (ResolveStore b a (ExAcquireSpinLockExclusive w)) = 0
      then (Return STATUS_BAD_NETWORK_PATH,
            ExReleaseSpinLockExclusive ((ExAcquireSpinLockExclusive w)
              \<lparr>Peer_Endpoint := (fst (ResolveStore b a (ExAcquireSpinLockExclusive w)))
                 \<lparr>UpdateGeneration := s + 1\<rparr>\<rparr>))
      else (Return STATUS_SUCCESS,
            ExAcquireSpinLockShared (ExReleaseSpinLockExclusive ((ExAcquireSpinLockExclusive w)
              \<lparr>Peer_Endpoint := (fst (ResolveStore b a (ExAcquireSpinLockExclusive w)))
                 \<lparr>UpdateGeneration := s + 1\<rparr>\<rparr>))))"
proof -
  let ?wx = "ExAcquireSpinLockExclusive w"
  let ?E = "fst (ResolveStore b a ?wx)"
  let ?w1 = "ExReleaseSpinLockExclusive (?wx\<lparr>Peer_Endpoint := ?E\<lparr>UpdateGeneration := UpdateGeneration ?E + 1\<rparr>\<rparr>)"
  have ug: "UpdateGeneration ?E = s"
    using assms(2) by (simp add: ResolveStore_UpdateGeneration endpoint_simps)
  have o1: "Others ?w1 = []"
    using assms(1) by (simp add: ExReleaseSpinLockExclusive_def ExAcquireSpinLockExclusive_def emit_def)
  then have ot: "OtherThreads ?w1 = ?w1" by (rule endpoint_simps)
  have u1: "UpdateGeneration (Peer_Endpoint (ExAcquireSpinLockShared ?w1)) = s + 1"
    using ug by (simp add: ExReleaseSpinLockExclusive_def ExAcquireSpinLockShared_def emit_def)
  have x: "UpdateGeneration (Peer_Endpoint ?wx) = s"
    using assms(2) by (simp add: endpoint_simps)
  show ?thesis
    unfolding ResolveCommit_def Let_def ot using u1 x ug by simp
qed

lemma resolver_sequential:
  assumes seq: "Others w = []" and nf: "\<not> ResolveFastPath w"
  shows "SocketResolvePeerEndpointSrc (Suc fuel) os w =
     (case ResolveLookup os (ExReleaseSpinLockShared (ExAcquireSpinLockShared w)) of
        None \<Rightarrow> None
      | Some (Inl (Status, w')) \<Rightarrow> Some (Status, w')
      | Some (Inr (BestIndex', SrcAddr, w')) \<Rightarrow>
          (if snd (ResolveStore BestIndex' SrcAddr (ExAcquireSpinLockExclusive w')) = 0
           then Some (STATUS_BAD_NETWORK_PATH,
                  ExReleaseSpinLockExclusive ((ExAcquireSpinLockExclusive w')
                    \<lparr>Peer_Endpoint :=
                       (fst (ResolveStore BestIndex' SrcAddr (ExAcquireSpinLockExclusive w')))
                         \<lparr>UpdateGeneration := UpdateGeneration (Peer_Endpoint w) + 1\<rparr>\<rparr>))
           else Some (STATUS_SUCCESS,
                  ExAcquireSpinLockShared (ExReleaseSpinLockExclusive ((ExAcquireSpinLockExclusive w')
                    \<lparr>Peer_Endpoint :=
                       (fst (ResolveStore BestIndex' SrcAddr (ExAcquireSpinLockExclusive w')))
                         \<lparr>UpdateGeneration := UpdateGeneration (Peer_Endpoint w) + 1\<rparr>\<rparr>)))))"
proof -
  let ?wa = "ExAcquireSpinLockShared w"
  let ?w1 = "ExReleaseSpinLockShared ?wa"
  have nf': "\<not> ResolveFastPath ?wa"
    using nf by (simp add: ResolveFastPath_def ExAcquireSpinLockShared_def emit_def)
  have "Others ?w1 = []" using seq by (simp add: others_simps)
  then have ot: "OtherThreads ?w1 = ?w1" by (rule endpoint_simps)
  have s: "UpdateGeneration (Peer_Endpoint ?wa) = UpdateGeneration (Peer_Endpoint w)"
    by (simp add: endpoint_simps)
  show ?thesis
  proof (cases "ResolveLookup os ?w1")
    case None
    with nf' ot show ?thesis by (simp add: ResolvePass_def Let_def)
  next
    case (Some r)
    from ResolveLookup_emits [OF Some] obtain evs where
      rw: "case r of Inl (Status, w') \<Rightarrow> w' = emit evs ?w1 | Inr (b, a, w') \<Rightarrow> w' = emit evs ?w1"
      by blast
    show ?thesis
    proof (cases r)
      case (Inl sw)
      with Some nf' ot show ?thesis
        by (cases sw) (simp add: ResolvePass_def Let_def)
    next
      case (Inr x)
      obtain b a w2 where x: "x = (b, a, w2)" by (cases x) auto
      with Inr rw have w2: "w2 = emit evs ?w1" by simp
      have o2: "Others w2 = []" using seq by (simp add: w2 others_simps)
      have u2: "UpdateGeneration (Peer_Endpoint w2) = UpdateGeneration (Peer_Endpoint w)"
        by (simp add: w2 endpoint_simps)
      from Some Inr x nf' ot s
      have "ResolvePass os w = Some (ResolveCommit (UpdateGeneration (Peer_Endpoint w)) b a w2)"
        by (simp add: ResolvePass_def Let_def)
      then show ?thesis
        using Some Inr x by (simp add: ResolveCommit_sequential [OF o2 u2])
    qed
  qed
qed

lemma luid_simps:
  "Device_InterfaceLuid (emit evs w) = Device_InterfaceLuid w"
  "Device_InterfaceLuid (ExAcquireSpinLockShared w) = Device_InterfaceLuid w"
  "Device_InterfaceLuid (ExReleaseSpinLockShared w) = Device_InterfaceLuid w"
  by (simp_all add: emit_def ExAcquireSpinLockShared_def ExReleaseSpinLockShared_def)

lemma ResolveStore_v4:
  "si_family (Addr (Peer_Endpoint w)) = AF_INET \<Longrightarrow>
     snd (ResolveStore b a w) = b \<and>
     Src4 (fst (ResolveStore b a w)) = \<lparr>ipi_addr = sin_addr (Ipv4 a), ipi_ifindex = b\<rparr> \<and>
     RoutingGeneration (fst (ResolveStore b a w)) = RoutingGenerationV4 w \<and>
     Addr (fst (ResolveStore b a w)) = Addr (Peer_Endpoint w)"
  by (simp add: ResolveStore_def Let_def Src4_assign_def Src4_def)

lemma ResolveStore_v6:
  "si_family (Addr (Peer_Endpoint w)) = AF_INET6 \<Longrightarrow>
     snd (ResolveStore b a w) = b \<and>
     Src6 (fst (ResolveStore b a w)) = \<lparr>ipi6_addr = sin6_addr a, ipi6_ifindex = b\<rparr> \<and>
     RoutingGeneration (fst (ResolveStore b a w)) = RoutingGenerationV6 w \<and>
     Addr (fst (ResolveStore b a w)) = Addr (Peer_Endpoint w)"
  using AF_INET_not_AF_INET6 by (simp add: ResolveStore_def Let_def)


lemma resolver_uses_winner:
  assumes seq: "Others w = []" and nf: "\<not> ResolveFastPath w"
    and q: "NT_SUCCESS (fst (GetIpForwardTable2 os (si_family (Addr (Peer_Endpoint w)))))"
    and m: "MemAllocate os"
    and wf: "list_all (wf_row (si_family (Addr (Peer_Endpoint w))))
               (snd (GetIpForwardTable2 os (si_family (Addr (Peer_Endpoint w)))))"
    and win: "Winner os (Device_InterfaceLuid w) (Addr (Peer_Endpoint w))
               (snd (GetIpForwardTable2 os (si_family (Addr (Peer_Endpoint w))))) i"
    and idx: "InterfaceIndex (snd (GetIpForwardTable2 os (si_family (Addr (Peer_Endpoint w)))) ! i) \<noteq> 0"
  shows "\<exists>Status w'. SocketResolvePeerEndpointSrc (Suc fuel) os w = Some (Status, w')
     \<and> BestRouteCalls (Trace w') = BestRouteCalls (Trace w) @
          [(InterfaceIndex (snd (GetIpForwardTable2 os (si_family (Addr (Peer_Endpoint w)))) ! i),
            Addr (Peer_Endpoint w))]
     \<and> (\<not> NT_SUCCESS (fst (GetBestRoute2 os
            (InterfaceIndex (snd (GetIpForwardTable2 os (si_family (Addr (Peer_Endpoint w)))) ! i))
            (Addr (Peer_Endpoint w)))) \<longrightarrow>
         Status = fst (GetBestRoute2 os
            (InterfaceIndex (snd (GetIpForwardTable2 os (si_family (Addr (Peer_Endpoint w)))) ! i))
            (Addr (Peer_Endpoint w))))
     \<and> (NT_SUCCESS (fst (GetBestRoute2 os
            (InterfaceIndex (snd (GetIpForwardTable2 os (si_family (Addr (Peer_Endpoint w)))) ! i))
            (Addr (Peer_Endpoint w)))) \<longrightarrow>
         si_family (Addr (Peer_Endpoint w)) = AF_INET \<longrightarrow>
         Status = STATUS_SUCCESS \<and> Peer_EndpointLock w' = HeldShared \<and>
         Src4 (Peer_Endpoint w') =
           \<lparr>ipi_addr = sin_addr (Ipv4 (snd (GetBestRoute2 os
               (InterfaceIndex (snd (GetIpForwardTable2 os (si_family (Addr (Peer_Endpoint w)))) ! i))
               (Addr (Peer_Endpoint w))))),
            ipi_ifindex = InterfaceIndex (snd (GetIpForwardTable2 os (si_family (Addr (Peer_Endpoint w)))) ! i)\<rparr> \<and>
         RoutingGeneration (Peer_Endpoint w') = RoutingGenerationV4 w \<and>
         UpdateGeneration (Peer_Endpoint w') = UpdateGeneration (Peer_Endpoint w) + 1)
     \<and> (NT_SUCCESS (fst (GetBestRoute2 os
            (InterfaceIndex (snd (GetIpForwardTable2 os (si_family (Addr (Peer_Endpoint w)))) ! i))
            (Addr (Peer_Endpoint w)))) \<longrightarrow>
         si_family (Addr (Peer_Endpoint w)) = AF_INET6 \<longrightarrow>
         Status = STATUS_SUCCESS \<and> Peer_EndpointLock w' = HeldShared \<and>
         Src6 (Peer_Endpoint w') =
           \<lparr>ipi6_addr = sin6_addr (snd (GetBestRoute2 os
               (InterfaceIndex (snd (GetIpForwardTable2 os (si_family (Addr (Peer_Endpoint w)))) ! i))
               (Addr (Peer_Endpoint w)))),
            ipi6_ifindex = InterfaceIndex (snd (GetIpForwardTable2 os (si_family (Addr (Peer_Endpoint w)))) ! i)\<rparr> \<and>
         RoutingGeneration (Peer_Endpoint w') = RoutingGenerationV6 w \<and>
         UpdateGeneration (Peer_Endpoint w') = UpdateGeneration (Peer_Endpoint w) + 1)"
proof -
  define A where "A = Addr (Peer_Endpoint w)"
  define Table where "Table = snd (GetIpForwardTable2 os (si_family A))"
  define n where "n = InterfaceIndex (Table ! i)"
  define BR where "BR = GetBestRoute2 os n A"
  let ?w1 = "ExReleaseSpinLockShared (ExAcquireSpinLockShared w)"
  have e1: "Peer_Endpoint ?w1 = Peer_Endpoint w" by (simp add: endpoint_simps)
  have l1: "Device_InterfaceLuid ?w1 = Device_InterfaceLuid w" by (simp add: luid_simps)
  have t1: "Trace ?w1 = Trace w @ [Ev_ExAcquireSpinLockShared, Ev_ExReleaseSpinLockShared]"
    by (simp add: trace_locks)
  from RouteScan_winner [OF wf win] obtain evs where
    sc: "RouteScan os (Device_InterfaceLuid w) A Table BestInit = Some (BestOf os A (Table ! i), evs)"
    unfolding A_def Table_def by blast
  from RouteScan_events [OF sc] have bev: "BestRouteCalls evs = []" by simp
  from win have "Table \<noteq> []" unfolding A_def Table_def by (auto simp add: Winner_iff)
  moreover have bi: "BestIndex (BestOf os A (Table ! i)) = n" by (simp add: BestOf_def n_def)
  moreover have "n \<noteq> 0" using idx by (simp add: n_def Table_def A_def)
  ultimately have go: "Table \<noteq> [] \<and> BestIndex (BestOf os A (Table ! i)) \<noteq> 0" by simp
  let ?evs = "[Ev_GetIpForwardTable2 (si_family A), Ev_MemAllocate] @ evs
                @ [Ev_MemFree, Ev_GetBestRoute2 n A, Ev_FreeMibTable]"
  have calls: "BestRouteCalls (Trace (emit ?evs ?w1)) = BestRouteCalls (Trace w) @ [(n, A)]"
    by (simp add: trace_locks t1 BestRouteCalls_append bev)
  have look: "ResolveLookup os ?w1 =
      Some (if \<not> NT_SUCCESS (fst BR) then Inl (fst BR, emit ?evs ?w1)
            else Inr (n, snd BR, emit ?evs ?w1))"
    using ResolveLookup_scanned [of os ?w1 "BestOf os A (Table ! i)" evs] q m sc go
    by (simp add: e1 l1 A_def [symmetric] Table_def [symmetric] bi BR_def)
  have seqr: "SocketResolvePeerEndpointSrc (Suc fuel) os w =
     (case ResolveLookup os ?w1 of
        None \<Rightarrow> None
      | Some (Inl (Status, w')) \<Rightarrow> Some (Status, w')
      | Some (Inr (BestIndex', SrcAddr, w')) \<Rightarrow>
          (if snd (ResolveStore BestIndex' SrcAddr (ExAcquireSpinLockExclusive w')) = 0
           then Some (STATUS_BAD_NETWORK_PATH,
                  ExReleaseSpinLockExclusive ((ExAcquireSpinLockExclusive w')
                    \<lparr>Peer_Endpoint :=
                       (fst (ResolveStore BestIndex' SrcAddr (ExAcquireSpinLockExclusive w')))
                         \<lparr>UpdateGeneration := UpdateGeneration (Peer_Endpoint w) + 1\<rparr>\<rparr>))
           else Some (STATUS_SUCCESS,
                  ExAcquireSpinLockShared (ExReleaseSpinLockExclusive ((ExAcquireSpinLockExclusive w')
                    \<lparr>Peer_Endpoint :=
                       (fst (ResolveStore BestIndex' SrcAddr (ExAcquireSpinLockExclusive w')))
                         \<lparr>UpdateGeneration := UpdateGeneration (Peer_Endpoint w) + 1\<rparr>\<rparr>)))))"
    by (rule resolver_sequential [OF seq nf])
  let ?wx = "ExAcquireSpinLockExclusive (emit ?evs ?w1)"
  have ex: "Peer_Endpoint ?wx = Peer_Endpoint w" by (simp add: endpoint_simps)
  have gx: "RoutingGenerationV4 ?wx = RoutingGenerationV4 w" "RoutingGenerationV6 ?wx = RoutingGenerationV6 w"
    by simp_all
  have px: "Addr (Peer_Endpoint ?wx) = A" using arg_cong [OF ex, of Addr] by (simp only: A_def)
  have tx: "\<And>E. BestRouteCalls (Trace (ExReleaseSpinLockExclusive (?wx\<lparr>Peer_Endpoint := E\<rparr>)))
      = BestRouteCalls (Trace w) @ [(n, A)]"
    using calls
    by (simp add: ExReleaseSpinLockExclusive_def ExAcquireSpinLockExclusive_def emit_def
        BestRouteCalls_append)
  have tx': "\<And>E. BestRouteCalls (Trace (ExAcquireSpinLockShared
        (ExReleaseSpinLockExclusive (?wx\<lparr>Peer_Endpoint := E\<rparr>))))
      = BestRouteCalls (Trace w) @ [(n, A)]"
    using tx by (simp add: trace_locks BestRouteCalls_append)
  have fin: "\<And>E. Peer_Endpoint (ExAcquireSpinLockShared
        (ExReleaseSpinLockExclusive (?wx\<lparr>Peer_Endpoint := E\<rparr>))) = E
      \<and> Peer_EndpointLock (ExAcquireSpinLockShared
        (ExReleaseSpinLockExclusive (?wx\<lparr>Peer_Endpoint := E\<rparr>))) = HeldShared"
    by (simp add: ExAcquireSpinLockShared_def ExReleaseSpinLockExclusive_def emit_def)
  show ?thesis
    unfolding A_def [symmetric] Table_def [symmetric] n_def [symmetric] BR_def [symmetric]
  proof (cases "NT_SUCCESS (fst BR)")
    case False
    with seqr look calls show "\<exists>Status w'. SocketResolvePeerEndpointSrc (Suc fuel) os w = Some (Status, w')
     \<and> BestRouteCalls (Trace w') = BestRouteCalls (Trace w) @ [(n, A)]
     \<and> (\<not> NT_SUCCESS (fst BR) \<longrightarrow> Status = fst BR)
     \<and> (NT_SUCCESS (fst BR) \<longrightarrow> si_family A = AF_INET \<longrightarrow>
         Status = STATUS_SUCCESS \<and> Peer_EndpointLock w' = HeldShared \<and>
         Src4 (Peer_Endpoint w') = \<lparr>ipi_addr = sin_addr (Ipv4 (snd BR)), ipi_ifindex = n\<rparr> \<and>
         RoutingGeneration (Peer_Endpoint w') = RoutingGenerationV4 w \<and>
         UpdateGeneration (Peer_Endpoint w') = UpdateGeneration (Peer_Endpoint w) + 1)
     \<and> (NT_SUCCESS (fst BR) \<longrightarrow> si_family A = AF_INET6 \<longrightarrow>
         Status = STATUS_SUCCESS \<and> Peer_EndpointLock w' = HeldShared \<and>
         Src6 (Peer_Endpoint w') = \<lparr>ipi6_addr = sin6_addr (snd BR), ipi6_ifindex = n\<rparr> \<and>
         RoutingGeneration (Peer_Endpoint w') = RoutingGenerationV6 w \<and>
         UpdateGeneration (Peer_Endpoint w') = UpdateGeneration (Peer_Endpoint w) + 1)"
      by simp
  next
    case True
    have v4: "si_family A = AF_INET \<Longrightarrow>
        snd (ResolveStore n (snd BR) ?wx) = n \<and>
        Src4 (fst (ResolveStore n (snd BR) ?wx)) = \<lparr>ipi_addr = sin_addr (Ipv4 (snd BR)), ipi_ifindex = n\<rparr> \<and>
        RoutingGeneration (fst (ResolveStore n (snd BR) ?wx)) = RoutingGenerationV4 w"
    proof -
      assume f: "si_family A = AF_INET"
      have "si_family (Addr (Peer_Endpoint ?wx)) = AF_INET" unfolding px by (rule f)
      from ResolveStore_v4 [OF this, of n "snd BR", unfolded gx] show ?thesis by blast
    qed
    have v6: "si_family A = AF_INET6 \<Longrightarrow>
        snd (ResolveStore n (snd BR) ?wx) = n \<and>
        Src6 (fst (ResolveStore n (snd BR) ?wx)) = \<lparr>ipi6_addr = sin6_addr (snd BR), ipi6_ifindex = n\<rparr> \<and>
        RoutingGeneration (fst (ResolveStore n (snd BR) ?wx)) = RoutingGenerationV6 w"
    proof -
      assume f: "si_family A = AF_INET6"
      have "si_family (Addr (Peer_Endpoint ?wx)) = AF_INET6" unfolding px by (rule f)
      from ResolveStore_v6 [OF this, of n "snd BR", unfolded gx] show ?thesis by blast
    qed
    from \<open>n \<noteq> 0\<close> True seqr look tx tx' fin v4 v6
    show "\<exists>Status w'. SocketResolvePeerEndpointSrc (Suc fuel) os w = Some (Status, w')
     \<and> BestRouteCalls (Trace w') = BestRouteCalls (Trace w) @ [(n, A)]
     \<and> (\<not> NT_SUCCESS (fst BR) \<longrightarrow> Status = fst BR)
     \<and> (NT_SUCCESS (fst BR) \<longrightarrow> si_family A = AF_INET \<longrightarrow>
         Status = STATUS_SUCCESS \<and> Peer_EndpointLock w' = HeldShared \<and>
         Src4 (Peer_Endpoint w') = \<lparr>ipi_addr = sin_addr (Ipv4 (snd BR)), ipi_ifindex = n\<rparr> \<and>
         RoutingGeneration (Peer_Endpoint w') = RoutingGenerationV4 w \<and>
         UpdateGeneration (Peer_Endpoint w') = UpdateGeneration (Peer_Endpoint w) + 1)
     \<and> (NT_SUCCESS (fst BR) \<longrightarrow> si_family A = AF_INET6 \<longrightarrow>
         Status = STATUS_SUCCESS \<and> Peer_EndpointLock w' = HeldShared \<and>
         Src6 (Peer_Endpoint w') = \<lparr>ipi6_addr = sin6_addr (snd BR), ipi6_ifindex = n\<rparr> \<and>
         RoutingGeneration (Peer_Endpoint w') = RoutingGenerationV6 w \<and>
         UpdateGeneration (Peer_Endpoint w') = UpdateGeneration (Peer_Endpoint w) + 1)"
      by (auto simp add: Src4_def)
  qed
qed

section \<open>C1: the scan selects the entry of the specification\<close>

text \<open>
  On a canonical prefix of the family's width the test of the loop body is the
  reference match, and a total metric that fits 32 bits is the \<open>ULONG\<close> sum.
\<close>

lemma RouteCidrMatch_is_spec:
  assumes fam: "si_family A = AF_INET \<or> si_family A = AF_INET6"
    and wf: "wf_row (si_family A) Row"
    and can: "canonical_row (si_family A) Row"
  shows "RouteCidrMatch A (DestinationPrefix Row) = Some (RouteCidrMatch_spec A (DestinationPrefix Row))"
proof (cases "si_family A = AF_INET")
  case True
  with wf can have "PrefixLength (DestinationPrefix Row) \<le> 32"
    "PrefixLength (DestinationPrefix Row) = 0 \<or> canonical_v4 (DestinationPrefix Row)"
    by (simp_all add: wf_row_def canonical_row_def)
  from CidrMaskMatchV4_spec [OF this] True show ?thesis
    by (simp add: RouteCidrMatch_def RouteCidrMatch_spec_def AF_INET_not_AF_INET6)
next
  case False
  with fam have 6: "si_family A = AF_INET6" by simp
  with wf can have "PrefixLength (DestinationPrefix Row) \<le> 128"
    "PrefixLength (DestinationPrefix Row) = 0 \<or> canonical_v6 (DestinationPrefix Row)"
    by (simp_all add: wf_row_def canonical_row_def)
  from CidrMaskMatchV6_spec [OF this] 6 False show ?thesis
    by (simp add: RouteCidrMatch_def RouteCidrMatch_spec_def)
qed

lemma Eligible_is_spec:
  assumes "si_family A = AF_INET \<or> si_family A = AF_INET6"
    and "wf_row (si_family A) Row"
    and "canonical_row (si_family A) Row"
  shows "Eligible os Luid A Row \<longleftrightarrow> Eligible_spec os Luid A Row"
  by (simp add: Eligible_def Eligible_spec_def RouteCidrMatch_is_spec [OF assms])

lemma TotalMetric_is_spec:
  assumes "metric_fits os A Row"
  shows "unat (TotalMetric os A Row) = TotalMetric_spec os A Row"
proof -
  from assms have "unat (Metric Row)
      + unat (snd (GetIpInterfaceEntry os (si_family A) (InterfaceLuid Row))) < 2 ^ LENGTH(32)"
    by (simp add: metric_fits_def TotalMetric_spec_def)
  then show ?thesis
    by (simp only: TotalMetric_def TotalMetric_spec_def unat_add_lem [THEN iffD1])
qed

lemma NotWorse_is_spec:
  assumes "metric_fits os A R1" and "metric_fits os A R2"
  shows "NotWorse os A R1 R2 \<longleftrightarrow> NotWorse_spec os A R1 R2"
    and "Better os A R1 R2 \<longleftrightarrow> Better_spec os A R1 R2"
  using TotalMetric_is_spec [OF assms(1)] TotalMetric_is_spec [OF assms(2)]
  by (simp_all add: NotWorse_def NotWorse_spec_def Better_def Better_spec_def
      word_le_nat_alt word_less_nat_alt)

lemma Winner_spec_iff:
  "Winner_spec os Luid A Table i \<longleftrightarrow>
     i < length Table \<and> Eligible_spec os Luid A (Table ! i) \<and>
     (\<forall>j<length Table. Eligible_spec os Luid A (Table ! j) \<longrightarrow>
         NotWorse_spec os A (Table ! i) (Table ! j)) \<and>
     (\<forall>j<length Table. i < j \<longrightarrow> Eligible_spec os Luid A (Table ! j) \<longrightarrow>
         Better_spec os A (Table ! i) (Table ! j))"
  by (auto simp add: Winner_spec_def list_all_iff)

lemma Winner_is_spec:
  assumes fam: "si_family A = AF_INET \<or> si_family A = AF_INET6"
    and wf: "list_all (wf_row (si_family A)) Table"
    and can: "list_all (canonical_row (si_family A)) Table"
    and fits: "list_all (metric_fits os A) Table"
  shows "Winner os Luid A Table i \<longleftrightarrow> Winner_spec os Luid A Table i"
proof -
  have e: "Eligible os Luid A (Table ! j) \<longleftrightarrow> Eligible_spec os Luid A (Table ! j)"
    if "j < length Table" for j
    using that wf can by (intro Eligible_is_spec [OF fam]) (simp_all add: list_all_length)
  have n: "NotWorse os A (Table ! i) (Table ! j) \<longleftrightarrow> NotWorse_spec os A (Table ! i) (Table ! j)"
    "Better os A (Table ! i) (Table ! j) \<longleftrightarrow> Better_spec os A (Table ! i) (Table ! j)"
    if "i < length Table" "j < length Table" for j
    using that fits by (simp_all add: NotWorse_is_spec list_all_length)
  show ?thesis
    unfolding Winner_iff Winner_spec_iff using e n by auto
qed

lemma Eligible_rows_is_spec:
  assumes fam: "si_family A = AF_INET \<or> si_family A = AF_INET6"
    and wf: "list_all (wf_row (si_family A)) Table"
    and can: "list_all (canonical_row (si_family A)) Table"
    and row: "Row \<in> set Table"
  shows "Eligible os Luid A Row \<longleftrightarrow> Eligible_spec os Luid A Row"
  using wf can row by (intro Eligible_is_spec [OF fam]) (simp_all add: list_all_iff)

lemma BestOf_is_spec:
  assumes "metric_fits os A Row"
  shows "BestOf os A Row =
     \<lparr>BestIndex = InterfaceIndex Row,
      BestCidr = PrefixLength (DestinationPrefix Row),
      BestMetric = of_nat (TotalMetric_spec os A Row),
      BestLuid = InterfaceLuid Row\<rparr>"
  using TotalMetric_is_spec [OF assms, symmetric] by (simp add: BestOf_def)

text \<open>
  C1, as amended. Let the endpoint be IPv4 or IPv6, and let the forwarding table the
  operating system returns hold prefixes of that family (none longer than the
  family's addresses) that are canonical, with total metrics that fit 32 bits. Then
  the scan of \<open>SocketResolvePeerEndpointSrc\<close> ends with the record of the entry the
  specification describes: the row that is not on the device's own interface, whose
  prefix matches the remote address by the reference CIDR match, whose interface is
  up and can be queried, that has the longest such prefix and among those the lowest
  total metric (route metric plus interface metric), and that is the last in the table
  of the rows tied on both. Such an entry exists as soon as one row is eligible; when
  none is, the scan ends with the initial record, whose interface index is 0. And when
  no other thread writes the endpoint meanwhile, the function passes that entry's
  interface index (if it is not 0), with the remote address, to the best-route
  primitive, in its only call of it, and on success stores the source address obtained
  and that index in the endpoint.
\<close>

theorem RouteScan_selects_winner:
  assumes "si_family A = AF_INET \<or> si_family A = AF_INET6"
    and "list_all (wf_row (si_family A)) Table"
    and "list_all (canonical_row (si_family A)) Table"
    and "list_all (metric_fits os A) Table"
  shows "(Winner_spec os Luid A Table i \<longrightarrow>
            (\<exists>evs. RouteScan os Luid A Table BestInit =
               Some (\<lparr>BestIndex = InterfaceIndex (Table ! i),
                       BestCidr = PrefixLength (DestinationPrefix (Table ! i)),
                       BestMetric = of_nat (TotalMetric_spec os A (Table ! i)),
                       BestLuid = InterfaceLuid (Table ! i)\<rparr>, evs)))
     \<and> ((\<forall>Row\<in>set Table. \<not> Eligible_spec os Luid A Row) \<longrightarrow>
            (\<exists>evs. RouteScan os Luid A Table BestInit = Some (BestInit, evs)))
     \<and> ((\<exists>Row\<in>set Table. Eligible_spec os Luid A Row) \<longrightarrow> (\<exists>k. Winner_spec os Luid A Table k))
     \<and> (Others w = [] \<longrightarrow> \<not> ResolveFastPath w \<longrightarrow>
          A = Addr (Peer_Endpoint w) \<longrightarrow> Luid = Device_InterfaceLuid w \<longrightarrow>
          Table = snd (GetIpForwardTable2 os (si_family A)) \<longrightarrow>
          NT_SUCCESS (fst (GetIpForwardTable2 os (si_family A))) \<longrightarrow> MemAllocate os \<longrightarrow>
          Winner_spec os Luid A Table i \<longrightarrow> InterfaceIndex (Table ! i) \<noteq> 0 \<longrightarrow>
          (\<exists>Status w'. SocketResolvePeerEndpointSrc (Suc fuel) os w = Some (Status, w')
             \<and> BestRouteCalls (Trace w') = BestRouteCalls (Trace w) @ [(InterfaceIndex (Table ! i), A)]
             \<and> (\<not> NT_SUCCESS (fst (GetBestRoute2 os (InterfaceIndex (Table ! i)) A)) \<longrightarrow>
                  Status = fst (GetBestRoute2 os (InterfaceIndex (Table ! i)) A))
             \<and> (NT_SUCCESS (fst (GetBestRoute2 os (InterfaceIndex (Table ! i)) A)) \<longrightarrow>
                  si_family A = AF_INET \<longrightarrow>
                  Status = STATUS_SUCCESS \<and> Peer_EndpointLock w' = HeldShared \<and>
                  Src4 (Peer_Endpoint w') =
                    \<lparr>ipi_addr = sin_addr (Ipv4 (snd (GetBestRoute2 os (InterfaceIndex (Table ! i)) A))),
                     ipi_ifindex = InterfaceIndex (Table ! i)\<rparr> \<and>
                  RoutingGeneration (Peer_Endpoint w') = RoutingGenerationV4 w \<and>
                  UpdateGeneration (Peer_Endpoint w') = UpdateGeneration (Peer_Endpoint w) + 1)
             \<and> (NT_SUCCESS (fst (GetBestRoute2 os (InterfaceIndex (Table ! i)) A)) \<longrightarrow>
                  si_family A = AF_INET6 \<longrightarrow>
                  Status = STATUS_SUCCESS \<and> Peer_EndpointLock w' = HeldShared \<and>
                  Src6 (Peer_Endpoint w') =
                    \<lparr>ipi6_addr = sin6_addr (snd (GetBestRoute2 os (InterfaceIndex (Table ! i)) A)),
                     ipi6_ifindex = InterfaceIndex (Table ! i)\<rparr> \<and>
                  RoutingGeneration (Peer_Endpoint w') = RoutingGenerationV6 w \<and>
                  UpdateGeneration (Peer_Endpoint w') = UpdateGeneration (Peer_Endpoint w) + 1)))"
proof (intro conjI impI)
  assume ws: "Winner_spec os Luid A Table i"
  then have w: "Winner os Luid A Table i"
    by (simp only: Winner_is_spec [OF assms])
  from ws have "i < length Table" by (simp add: Winner_spec_iff)
  with assms(4) have "metric_fits os A (Table ! i)" by (simp add: list_all_length)
  from RouteScan_winner [OF assms(2) w] BestOf_is_spec [OF this]
  show "\<exists>evs. RouteScan os Luid A Table BestInit =
               Some (\<lparr>BestIndex = InterfaceIndex (Table ! i),
                       BestCidr = PrefixLength (DestinationPrefix (Table ! i)),
                       BestMetric = of_nat (TotalMetric_spec os A (Table ! i)),
                       BestLuid = InterfaceLuid (Table ! i)\<rparr>, evs)"
    by simp
next
  assume "\<forall>Row\<in>set Table. \<not> Eligible_spec os Luid A Row"
  then have "\<forall>Row\<in>set Table. \<not> Eligible os Luid A Row"
    using Eligible_rows_is_spec [OF assms(1,2,3)] by blast
  with assms(2) show "\<exists>evs. RouteScan os Luid A Table BestInit = Some (BestInit, evs)"
    by (rule RouteScan_no_winner)
next
  assume "\<exists>Row\<in>set Table. Eligible_spec os Luid A Row"
  then have "\<exists>Row\<in>set Table. Eligible os Luid A Row"
    using Eligible_rows_is_spec [OF assms(1,2,3)] by blast
  with assms(2) have "\<exists>k. Winner os Luid A Table k"
    by (rule Winner_exists)
  then show "\<exists>k. Winner_spec os Luid A Table k"
    by (simp only: Winner_is_spec [OF assms])
next
  assume seq: "Others w = []" and nf: "\<not> ResolveFastPath w"
    and A: "A = Addr (Peer_Endpoint w)" and L: "Luid = Device_InterfaceLuid w"
    and T: "Table = snd (GetIpForwardTable2 os (si_family A))"
    and q: "NT_SUCCESS (fst (GetIpForwardTable2 os (si_family A)))" and m: "MemAllocate os"
    and ws: "Winner_spec os Luid A Table i" and idx: "InterfaceIndex (Table ! i) \<noteq> 0"
  from ws have win: "Winner os Luid A Table i"
    by (simp only: Winner_is_spec [OF assms])
  have 1: "list_all (wf_row (si_family (Addr (Peer_Endpoint w))))
          (snd (GetIpForwardTable2 os (si_family (Addr (Peer_Endpoint w)))))"
    using assms(2) unfolding T A L .
  have 2: "NT_SUCCESS (fst (GetIpForwardTable2 os (si_family (Addr (Peer_Endpoint w)))))"
    using q unfolding T A L .
  have 3: "Winner os (Device_InterfaceLuid w) (Addr (Peer_Endpoint w))
          (snd (GetIpForwardTable2 os (si_family (Addr (Peer_Endpoint w))))) i"
    using win unfolding T A L .
  have 4: "InterfaceIndex (snd (GetIpForwardTable2 os (si_family (Addr (Peer_Endpoint w)))) ! i) \<noteq> 0"
    using idx unfolding T A L .
  from resolver_uses_winner [OF seq nf 2 m 1 3 4, of fuel]
  show "\<exists>Status w'. SocketResolvePeerEndpointSrc (Suc fuel) os w = Some (Status, w')
             \<and> BestRouteCalls (Trace w') = BestRouteCalls (Trace w) @ [(InterfaceIndex (Table ! i), A)]
             \<and> (\<not> NT_SUCCESS (fst (GetBestRoute2 os (InterfaceIndex (Table ! i)) A)) \<longrightarrow>
                  Status = fst (GetBestRoute2 os (InterfaceIndex (Table ! i)) A))
             \<and> (NT_SUCCESS (fst (GetBestRoute2 os (InterfaceIndex (Table ! i)) A)) \<longrightarrow>
                  si_family A = AF_INET \<longrightarrow>
                  Status = STATUS_SUCCESS \<and> Peer_EndpointLock w' = HeldShared \<and>
                  Src4 (Peer_Endpoint w') =
                    \<lparr>ipi_addr = sin_addr (Ipv4 (snd (GetBestRoute2 os (InterfaceIndex (Table ! i)) A))),
                     ipi_ifindex = InterfaceIndex (Table ! i)\<rparr> \<and>
                  RoutingGeneration (Peer_Endpoint w') = RoutingGenerationV4 w \<and>
                  UpdateGeneration (Peer_Endpoint w') = UpdateGeneration (Peer_Endpoint w) + 1)
             \<and> (NT_SUCCESS (fst (GetBestRoute2 os (InterfaceIndex (Table ! i)) A)) \<longrightarrow>
                  si_family A = AF_INET6 \<longrightarrow>
                  Status = STATUS_SUCCESS \<and> Peer_EndpointLock w' = HeldShared \<and>
                  Src6 (Peer_Endpoint w') =
                    \<lparr>ipi6_addr = sin6_addr (snd (GetBestRoute2 os (InterfaceIndex (Table ! i)) A)),
                     ipi6_ifindex = InterfaceIndex (Table ! i)\<rparr> \<and>
                  RoutingGeneration (Peer_Endpoint w') = RoutingGenerationV6 w \<and>
                  UpdateGeneration (Peer_Endpoint w') = UpdateGeneration (Peer_Endpoint w) + 1)"
    unfolding T A L .
qed

lemma scenario2_facts:
  "Others world_scenario2 = []"
  "\<not> ResolveFastPath world_scenario2"
  "si_family (Addr (Peer_Endpoint world_scenario2)) = AF_INET"
  "GetIpForwardTable2 os_scenario2 AF_INET = (STATUS_SUCCESS, [row_default_if2, row_slash24_if4])"
  "MemAllocate os_scenario2"
  "GetBestRoute2 os_scenario2 n a =
     (STATUS_SUCCESS, zero_SOCKADDR_INET\<lparr>si_family := AF_INET, sin6_flowinfo := 0x0500000A\<rparr>)"
  "RoutingGenerationV4 world_scenario2 = 5"
  "UpdateGeneration (Peer_Endpoint world_scenario2) = 0"
  "Trace world_scenario2 = []"
  by (simp_all add: world_scenario2_def world_scenario1_def endpoint_scenario2_def
      ResolveFastPath_def os_scenario2_def zero_SOCKADDR_INET_def)

lemma Winner_spec_scenario3:
  "Winner_spec os_scenario3 (Device_InterfaceLuid world_scenario2)
     (Addr (Peer_Endpoint world_scenario2)) table_scenario3 3"
  by code_simp

lemma scenario3_facts:
  "GetIpForwardTable2 os_scenario3 AF_INET = (STATUS_SUCCESS, table_scenario3)"
  "MemAllocate os_scenario3"
  "GetBestRoute2 os_scenario3 n a =
     (STATUS_SUCCESS, zero_SOCKADDR_INET\<lparr>si_family := AF_INET, sin6_flowinfo := 0x0500000A\<rparr>)"
  by (simp_all add: os_scenario3_def os_scenario2_def)

lemma table_scenario3_facts:
  "list_all (wf_row AF_INET) table_scenario3"
  "list_all (canonical_row AF_INET) table_scenario3"
  "\<not> RouteCidrMatch_spec (Addr (Peer_Endpoint world_scenario2)) (DestinationPrefix (table_scenario3 ! 2))"
  "InterfaceIndex (table_scenario3 ! 3) = 6"
  "PrefixLength (DestinationPrefix (table_scenario3 ! 3)) = 24"
  "TotalMetric_spec os_scenario3 (Addr (Peer_Endpoint world_scenario2)) (table_scenario3 ! 3) = 15"
  "TotalMetric_spec os_scenario3 (Addr (Peer_Endpoint world_scenario2)) (table_scenario3 ! 1) = 15"
  "InterfaceLuid (table_scenario3 ! 3) = 0x0006000000000006"
  by code_simp+

lemma metric_fits_scenario3:
  "list_all (metric_fits os_scenario3 (Addr (Peer_Endpoint world_scenario2))) table_scenario3"
  by (simp add: metric_fits_def TotalMetric_spec_def table_scenario3_def os_scenario3_def
      os_scenario2_def row_default_if2_def row_slash24_if4_def row_host32_if9_def
      row_slash24_if6_def)

text \<open>
  Scenario 3: the host route, the longest prefix of the table, does not match the peer
  address and is passed over; the two /24 routes tie on the total metric 15 and the
  later one, through interface 6, is selected over the default route. The best-route
  primitive is asked about interface 6, the cached generation becomes 5 and
  \<open>UpdateGeneration\<close> goes up by 1.
\<close>

theorem RouteScan_selects_winner_witness:
  "Winner_spec os_scenario3 (Device_InterfaceLuid world_scenario2)
     (Addr (Peer_Endpoint world_scenario2)) table_scenario3 3
   \<and> \<not> RouteCidrMatch_spec (Addr (Peer_Endpoint world_scenario2))
         (DestinationPrefix (table_scenario3 ! 2))
   \<and> TotalMetric_spec os_scenario3 (Addr (Peer_Endpoint world_scenario2)) (table_scenario3 ! 1) = 15
   \<and> (\<exists>evs. RouteScan os_scenario3 (Device_InterfaceLuid world_scenario2)
               (Addr (Peer_Endpoint world_scenario2)) table_scenario3 BestInit
             = Some (\<lparr>BestIndex = 6, BestCidr = 24, BestMetric = 15,
                      BestLuid = 0x0006000000000006\<rparr>, evs))
   \<and> (\<exists>w'. SocketResolvePeerEndpointSrc 1 os_scenario3 world_scenario2 = Some (STATUS_SUCCESS, w')
          \<and> BestRouteCalls (Trace w') = [(6, Addr (Peer_Endpoint world_scenario2))]
          \<and> Src4 (Peer_Endpoint w') = \<lparr>ipi_addr = 0x0500000A, ipi_ifindex = 6\<rparr>
          \<and> RoutingGeneration (Peer_Endpoint w') = 5
          \<and> UpdateGeneration (Peer_Endpoint w') = 1)"
proof -
  let ?A = "Addr (Peer_Endpoint world_scenario2)"
  let ?T = "table_scenario3"
  have fam: "si_family ?A = AF_INET \<or> si_family ?A = AF_INET6"
    by (simp add: scenario2_facts)
  have wf: "list_all (wf_row (si_family ?A)) ?T"
    and can: "list_all (canonical_row (si_family ?A)) ?T"
    using table_scenario3_facts(1,2) by (simp_all only: scenario2_facts)
  note inst = RouteScan_selects_winner [OF fam wf can metric_fits_scenario3,
      of "Device_InterfaceLuid world_scenario2" 3 world_scenario2 0]
  from inst Winner_spec_scenario3 have
    "\<exists>evs. RouteScan os_scenario3 (Device_InterfaceLuid world_scenario2) ?A ?T BestInit
             = Some (\<lparr>BestIndex = InterfaceIndex (?T ! 3),
                       BestCidr = PrefixLength (DestinationPrefix (?T ! 3)),
                       BestMetric = of_nat (TotalMetric_spec os_scenario3 ?A (?T ! 3)),
                       BestLuid = InterfaceLuid (?T ! 3)\<rparr>, evs)"
    by blast
  then have scan: "\<exists>evs. RouteScan os_scenario3 (Device_InterfaceLuid world_scenario2) ?A ?T BestInit
             = Some (\<lparr>BestIndex = 6, BestCidr = 24, BestMetric = 15,
                      BestLuid = 0x0006000000000006\<rparr>, evs)"
    by (simp add: table_scenario3_facts)
  from inst Winner_spec_scenario3
  have "\<exists>Status w'. SocketResolvePeerEndpointSrc (Suc 0) os_scenario3 world_scenario2 = Some (Status, w')
          \<and> BestRouteCalls (Trace w') = BestRouteCalls (Trace world_scenario2) @ [(6, ?A)]
          \<and> Status = STATUS_SUCCESS
          \<and> Src4 (Peer_Endpoint w') =
               \<lparr>ipi_addr = sin_addr (Ipv4 (snd (GetBestRoute2 os_scenario3 6 ?A))), ipi_ifindex = 6\<rparr>
          \<and> RoutingGeneration (Peer_Endpoint w') = RoutingGenerationV4 world_scenario2
          \<and> UpdateGeneration (Peer_Endpoint w') = UpdateGeneration (Peer_Endpoint world_scenario2) + 1"
    by (simp add: scenario2_facts scenario3_facts table_scenario3_facts NT_SUCCESS_simps) blast
  then have "\<exists>w'. SocketResolvePeerEndpointSrc 1 os_scenario3 world_scenario2 = Some (STATUS_SUCCESS, w')
          \<and> BestRouteCalls (Trace w') = [(6, ?A)]
          \<and> Src4 (Peer_Endpoint w') = \<lparr>ipi_addr = 0x0500000A, ipi_ifindex = 6\<rparr>
          \<and> RoutingGeneration (Peer_Endpoint w') = 5
          \<and> UpdateGeneration (Peer_Endpoint w') = 1"
    by (auto simp add: scenario2_facts scenario3_facts Ipv4_def zero_SOCKADDR_INET_def)
  with Winner_spec_scenario3 table_scenario3_facts(3,7) scan show ?thesis by blast
qed

lemma hostbits_facts:
  "Winner_spec os_hostbits (Device_InterfaceLuid world_scenario2)
     (Addr (Peer_Endpoint world_scenario2)) [row_hostbits_if4] 0"
  "map_option fst (RouteScan os_hostbits (Device_InterfaceLuid world_scenario2)
        (Addr (Peer_Endpoint world_scenario2)) [row_hostbits_if4] BestInit) = Some BestInit"
  "snd (GetIpForwardTable2 os_hostbits (si_family (Addr (Peer_Endpoint world_scenario2))))
       = [row_hostbits_if4]"
  "map_option fst (SocketResolvePeerEndpointSrc 1 os_hostbits world_scenario2)
       = Some STATUS_BAD_NETWORK_PATH"
  by code_simp+

lemma wrap_metrics:
  "TotalMetric_spec os_wrap (Addr (Peer_Endpoint world_scenario2)) row_slash24_if4 = 15"
  "TotalMetric_spec os_wrap (Addr (Peer_Endpoint world_scenario2)) row_slash24_if6_huge
       = 4294967305"
  by (simp_all add: TotalMetric_spec_def os_wrap_def os_scenario2_def row_slash24_if6_huge_def
      row_slash24_if4_def)

lemma wrap_rows:
  "Eligible_spec os_wrap (Device_InterfaceLuid world_scenario2)
       (Addr (Peer_Endpoint world_scenario2)) row_slash24_if4"
  "Eligible_spec os_wrap (Device_InterfaceLuid world_scenario2)
       (Addr (Peer_Endpoint world_scenario2)) row_slash24_if6_huge"
  "PrefixLength (DestinationPrefix row_slash24_if4) = 24"
  "PrefixLength (DestinationPrefix row_slash24_if6_huge) = 24"
  "InterfaceIndex row_slash24_if4 = 4"
  by code_simp+

lemma wrap_facts:
  "map_option (\<lambda>r. (BestIndex (fst r), BestMetric (fst r)))
       (RouteScan os_wrap (Device_InterfaceLuid world_scenario2)
          (Addr (Peer_Endpoint world_scenario2)) [row_slash24_if4, row_slash24_if6_huge] BestInit)
       = Some (6, 9)"
  "snd (GetIpForwardTable2 os_wrap (si_family (Addr (Peer_Endpoint world_scenario2))))
       = [row_slash24_if4, row_slash24_if6_huge]"
  "map_option (\<lambda>r. BestRouteCalls (Trace (snd r)))
       (SocketResolvePeerEndpointSrc 1 os_wrap world_scenario2)
       = Some [(6, Addr (Peer_Endpoint world_scenario2))]"
  by code_simp+

lemma Winner_spec_wrap:
  "Winner_spec os_wrap (Device_InterfaceLuid world_scenario2)
       (Addr (Peer_Endpoint world_scenario2)) [row_slash24_if4, row_slash24_if6_huge] 0"
  by (simp add: Winner_spec_def NotWorse_spec_def Better_spec_def wrap_metrics wrap_rows)

text \<open>
  C1 as stated fails in two ways. The route 198.51.100.7/24 matches the peer address
  198.51.100.1 by the reference CIDR match and is the only entry, so it is the entry
  the claim describes; but the loop compares the masked address with the whole prefix
  address, passes the row over, and the function returns \<open>STATUS_BAD_NETWORK_PATH\<close>.
  And of two routes for 198.51.100.0/24 with the total metrics 15 and 4294967305 the
  claim selects the first; the loop adds the metrics as a \<open>ULONG\<close>, finds 9 for the
  second, and selects that one: the best-route primitive is asked about interface 6,
  not 4.
\<close>

theorem RouteScan_host_bits_and_wrap_counterexample:
  "Winner_spec os_hostbits (Device_InterfaceLuid world_scenario2)
     (Addr (Peer_Endpoint world_scenario2)) [row_hostbits_if4] 0
   \<and> map_option fst (RouteScan os_hostbits (Device_InterfaceLuid world_scenario2)
        (Addr (Peer_Endpoint world_scenario2)) [row_hostbits_if4] BestInit) = Some BestInit
   \<and> snd (GetIpForwardTable2 os_hostbits (si_family (Addr (Peer_Endpoint world_scenario2))))
       = [row_hostbits_if4]
   \<and> map_option fst (SocketResolvePeerEndpointSrc 1 os_hostbits world_scenario2)
       = Some STATUS_BAD_NETWORK_PATH
   \<and> Winner_spec os_wrap (Device_InterfaceLuid world_scenario2)
       (Addr (Peer_Endpoint world_scenario2)) [row_slash24_if4, row_slash24_if6_huge] 0
   \<and> TotalMetric_spec os_wrap (Addr (Peer_Endpoint world_scenario2)) row_slash24_if4 = 15
   \<and> TotalMetric_spec os_wrap (Addr (Peer_Endpoint world_scenario2)) row_slash24_if6_huge
       = 4294967305
   \<and> InterfaceIndex row_slash24_if4 = 4
   \<and> map_option (\<lambda>r. (BestIndex (fst r), BestMetric (fst r)))
       (RouteScan os_wrap (Device_InterfaceLuid world_scenario2)
          (Addr (Peer_Endpoint world_scenario2)) [row_slash24_if4, row_slash24_if6_huge] BestInit)
       = Some (6, 9)
   \<and> snd (GetIpForwardTable2 os_wrap (si_family (Addr (Peer_Endpoint world_scenario2))))
       = [row_slash24_if4, row_slash24_if6_huge]
   \<and> map_option (\<lambda>r. BestRouteCalls (Trace (snd r)))
       (SocketResolvePeerEndpointSrc 1 os_wrap world_scenario2)
       = Some [(6, Addr (Peer_Endpoint world_scenario2))]"
  by (intro conjI hostbits_facts wrap_metrics wrap_rows wrap_facts Winner_spec_wrap)

section \<open>C4: how the resolver fails\<close>
















section \<open>C9: after the source is cleared\<close>

















end
